theory Spec2Isabelle
  imports Complex_Main "HOL-Library.Multiset"
begin

section \<open>CompareUtils.ts: shaping run, execution and artifact metadata for the comparison view\<close>

text \<open>
  A shallow embedding of \<^verbatim>\<open>frontend/src/lib/v2/CompareUtils.ts\<close>. Arrays are
  lists, object literals are records, the string-keyed object \<^verbatim>\<open>dataMap\<close> is an
  association list holding its own properties in creation order, \<^verbatim>\<open>undefined\<close> is
  \<open>None\<close>, and a thrown exception is the left injection of a sum. Local arrays and
  objects that the source mutates in place are threaded through the functions and returned.

  Numbers: a count or an index is a \<open>nat\<close>, the caller-supplied \<^verbatim>\<open>artifactCount\<close>
  an \<open>int\<close>; identifiers returned by \<^verbatim>\<open>getId()\<close> are integers in the range where
  \<^verbatim>\<open>Number.prototype.toString\<close> prints the decimal numeral (magnitude below \<open>2^53\<close>);
  indices stay below \<open>2^32 - 1\<close>, the range of array indices.
\<close>

subsection \<open>Exceptions\<close>

datatype error = TypeError | RangeError

subsection \<open>Enumerated metrics types\<close>

text \<open>
  \<^verbatim>\<open>export enum MetricsType { SCALAR_METRICS, CONFUSION_MATRIX, ROC_CURVE, HTML, MARKDOWN }\<close>
  is a numeric enum: at run time its members are the numbers 0 to 4, and a value of the type
  is any number.
\<close>

type_synonym MetricsType = int

definition SCALAR_METRICS :: MetricsType where "SCALAR_METRICS = 0"
definition CONFUSION_MATRIX :: MetricsType where "CONFUSION_MATRIX = 1"
definition ROC_CURVE :: MetricsType where "ROC_CURVE = 2"
definition HTML :: MetricsType where "HTML = 3"
definition MARKDOWN :: MetricsType where "MARKDOWN = 4"

definition metricsTypeToString :: "MetricsType \<Rightarrow> string" where
  "metricsTypeToString metricsType =
     (if metricsType = SCALAR_METRICS then ''Scalar Metrics''
      else if metricsType = CONFUSION_MATRIX then ''Confusion Matrix''
      else if metricsType = ROC_CURVE then ''ROC Curve''
      else if metricsType = HTML then ''HTML''
      else if metricsType = MARKDOWN then ''Markdown''
      else '''')"

subsection \<open>Values of the JavaScript run time\<close>

text \<open>
  Plain values as \<^verbatim>\<open>Struct.toJavaScript()\<close> of google-protobuf returns them, and the
  truthiness test that \<^verbatim>\<open>if (x)\<close> and \<^verbatim>\<open>x || y\<close> apply.
\<close>

datatype JavaScriptValue =
    JsNull
  | JsNumber real
  | JsString string
  | JsBoolean bool
  | JsArray "JavaScriptValue list"
  | JsObject "(string \<times> JavaScriptValue) list"

fun truthy :: "JavaScriptValue option \<Rightarrow> bool" where
  "truthy None = False"
| "truthy (Some JsNull) = False"
| "truthy (Some (JsNumber x)) = (x \<noteq> 0)"
| "truthy (Some (JsString s)) = (s \<noteq> [])"
| "truthy (Some (JsBoolean b)) = b"
| "truthy (Some (JsArray xs)) = True"
| "truthy (Some (JsObject fields)) = True"

text \<open>\<^verbatim>\<open>a || b\<close> on an optional string: \<^verbatim>\<open>undefined\<close> and \<^verbatim>\<open>''\<close> are falsy.\<close>

definition orElse :: "string option \<Rightarrow> string \<Rightarrow> string" where
  "orElse a b = (case a of None \<Rightarrow> b | Some s \<Rightarrow> if s = [] then b else s)"

text \<open>A template literal \<^verbatim>\<open>`${x}`\<close> prints \<^verbatim>\<open>undefined\<close> as the word.\<close>

definition templateText :: "string option \<Rightarrow> string" where
  "templateText x = (case x of None \<Rightarrow> ''undefined'' | Some s \<Rightarrow> s)"

text \<open>\<^verbatim>\<open>Number.prototype.toString\<close> on an integer.\<close>

definition decimalDigits :: string where
  "decimalDigits = ''0123456789''"

definition digitChar :: "nat \<Rightarrow> char" where
  "digitChar d = decimalDigits ! d"

fun natToString :: "nat \<Rightarrow> string" where
  "natToString n =
     (if n < 10 then [digitChar n] else natToString (n div 10) @ [digitChar (n mod 10)])"

declare natToString.simps [simp del]

definition numberToString :: "int \<Rightarrow> string" where
  "numberToString i =
     (if i < 0 then CHR ''-'' # natToString (nat (- i)) else natToString (nat i))"

subsection \<open>Data model\<close>

text \<open>
  Modelled from the spec: \<^verbatim>\<open>Value\<close> of \<^verbatim>\<open>src/third_party/mlmd\<close>, whose declaration
  is not among the sources. Section 6: a \<^verbatim>\<open>Value\<close> "decodes to string / number / struct /
  null". \<^verbatim>\<open>getStructValue()\<close> is \<^verbatim>\<open>undefined\<close> unless the value holds a struct, which
  is why the source chains it with \<^verbatim>\<open>?.\<close>; \<^verbatim>\<open>toJavaScript()\<close> turns a struct into a plain
  object with the struct's fields.
\<close>

type_synonym Struct = "(string \<times> JavaScriptValue) list"

datatype Value =
    StringValue string
  | NumberValue real
  | StructValue Struct
  | NullValue

definition getStructValue :: "Value \<Rightarrow> Struct option" where
  "getStructValue v = (case v of StructValue s \<Rightarrow> Some s | _ \<Rightarrow> None)"

definition toJavaScript :: "Struct \<Rightarrow> JavaScriptValue" where
  "toJavaScript s = JsObject s"

text \<open>
  Modelled from the spec: the entities of the metadata store and of the run API, whose
  declarations (\<^verbatim>\<open>src/third_party/mlmd\<close>, \<^verbatim>\<open>src/apis/run\<close>, \<^verbatim>\<open>src/mlmd/MlmdUtils\<close>)
  are not among the sources. Section 6: "Run entities with { id, name }", "Execution entities
  exposing { id, displayName? }", "Artifact entities exposing { id, displayName?,
  customProperties: mapping<string, Value> }", "Event entities linking an execution id to an
  artifact id". The source reads \<^verbatim>\<open>run.run?.name\<close> and \<^verbatim>\<open>run.run!.id!\<close>: the run entity
  inside an \<^verbatim>\<open>ApiRunDetail\<close>, its name and its id are optional in the type.
  \<^verbatim>\<open>customProperties\<close> is the entry list of a \<^verbatim>\<open>jspb.Map\<close> as
  \<^verbatim>\<open>getEntryList()\<close> returns it: each key once, the keys in ascending order. The
  functions are defined on every list of entries; the examples keep to that order.
\<close>

record ApiRun =
  run_id :: "string option"
  run_name :: "string option"

record ApiRunDetail =
  apiRun :: "ApiRun option"

record Execution =
  execution_id :: int
  execution_displayName :: "string option"

record Artifact =
  artifact_id :: int
  artifact_displayName :: "string option"
  customProperties :: "(string \<times> Value) list"

record Event =
  executionId :: int
  artifactId :: int

record LinkedArtifact =
  event :: Event
  artifact :: Artifact

record ExecutionArtifact =
  execution :: Execution
  linkedArtifacts :: "LinkedArtifact list"

record RunArtifact =
  run :: ApiRunDetail
  executionArtifacts :: "ExecutionArtifact list"

text \<open>
  Modelled from the spec: \<^verbatim>\<open>getExecutionDisplayName\<close> and \<^verbatim>\<open>getArtifactName\<close> of
  \<^verbatim>\<open>src/mlmd/MlmdUtils\<close>, not among the sources; they return the optional display name
  of the execution and of the linked artifact.
\<close>

definition getExecutionDisplayName :: "Execution \<Rightarrow> string option" where
  "getExecutionDisplayName e = execution_displayName e"

definition getArtifactName :: "LinkedArtifact \<Rightarrow> string option" where
  "getArtifactName la = artifact_displayName (artifact la)"

record NameId =
  name :: string
  nid :: "string option"

record FullArtifactPath =
  path_run :: NameId
  path_execution :: NameId
  path_artifact :: NameId

subsection \<open>Path resolver\<close>

text \<open>
  \<^verbatim>\<open>run.run?.name || `Run ID #${run.run!.id!}`\<close>: the non-null assertions are erased by the
  compiler, so when the name is falsy and \<^verbatim>\<open>run.run\<close> is \<^verbatim>\<open>undefined\<close>, reading
  \<^verbatim>\<open>.id\<close> throws a \<^verbatim>\<open>TypeError\<close>. The object literal evaluates its properties in
  order, so nothing else is evaluated after the throw.
\<close>

definition getFullArtifactPath ::
    "ApiRunDetail \<Rightarrow> Execution \<Rightarrow> LinkedArtifact \<Rightarrow> error + FullArtifactPath" where
  "getFullArtifactPath r e la =
     (case apiRun r of
        None \<Rightarrow> Inl TypeError
      | Some ar \<Rightarrow>
          Inr \<lparr> path_run =
                  \<lparr> name = orElse (run_name ar) (''Run ID #'' @ templateText (run_id ar)),
                    nid = run_id ar \<rparr>,
                path_execution =
                  \<lparr> name = orElse (getExecutionDisplayName e)
                             (''Execution ID #'' @ numberToString (execution_id e)),
                    nid = Some (numberToString (execution_id e)) \<rparr>,
                path_artifact =
                  \<lparr> name = orElse (getArtifactName la)
                             (''Artifact ID #'' @ numberToString (artifact_id (artifact la))),
                    nid = Some (numberToString (artifact_id (artifact la))) \<rparr> \<rparr>)"

definition getRocCurveId :: "LinkedArtifact \<Rightarrow> string" where
  "getRocCurveId la =
     numberToString (executionId (event la)) @ ''-'' @ numberToString (artifactId (event la))"

subsection \<open>Artifact validator\<close>

text \<open>
  The \<^verbatim>\<open>forEach\<close> of \<^verbatim>\<open>getValidArtifacts\<close>, with the array it pushes to as
  accumulator. \<^verbatim>\<open>customProperties.get(k)\<close> is the value of the entry with key \<open>k\<close>,
  or \<^verbatim>\<open>undefined\<close>; each \<^verbatim>\<open>?.\<close> passes \<^verbatim>\<open>undefined\<close> on.
\<close>

fun getValidArtifacts_forEach ::
    "LinkedArtifact list \<Rightarrow> LinkedArtifact list \<Rightarrow> LinkedArtifact list" where
  "getValidArtifacts_forEach [] validLinkedArtifacts = validLinkedArtifacts"
| "getValidArtifacts_forEach (linkedArtifact # rest) validLinkedArtifacts =
     (let props = customProperties (artifact linkedArtifact);
          confidenceMetrics =
            Option.bind (Option.bind (map_of props ''confidenceMetrics'') getStructValue)
              (\<lambda>s. Some (toJavaScript s))
      in if truthy confidenceMetrics
         then getValidArtifacts_forEach rest (validLinkedArtifacts @ [linkedArtifact])
         else getValidArtifacts_forEach rest validLinkedArtifacts)"

definition getValidArtifacts :: "ExecutionArtifact \<Rightarrow> LinkedArtifact list" where
  "getValidArtifacts executionArtifact =
     getValidArtifacts_forEach (linkedArtifacts executionArtifact) []"

subsection \<open>Scalar aggregator\<close>

text \<open>
  A row is a JavaScript array of strings: \<open>Some s\<close> is an element, \<open>None\<close> a hole, which
  an assignment beyond the end of the array leaves between the old end and the new element.
\<close>

record ScalarRowData =
  row :: "string option list"
  dataCount :: nat

record xParentLabel =
  label :: string
  colSpan :: int

type_synonym DataMap = "(string \<times> ScalarRowData) list"

record ScalarTableData =
  xLabels :: "string list"
  xParentLabels :: "xParentLabel list"
  dataMap :: DataMap

text \<open>
  \<^verbatim>\<open>dataMap\<close> is created by the literal \<^verbatim>\<open>{}\<close>, so a property it does not own is
  looked up in \<^verbatim>\<open>Object.prototype\<close>, whose members are all truthy.
\<close>

definition objectPrototypeKeys :: "string list" where
  "objectPrototypeKeys =
     [''constructor'', ''__defineGetter__'', ''__defineSetter__'', ''hasOwnProperty'',
      ''__lookupGetter__'', ''__lookupSetter__'', ''isPrototypeOf'', ''propertyIsEnumerable'',
      ''toString'', ''valueOf'', ''__proto__'', ''toLocaleString'']"

text \<open>
  \<^verbatim>\<open>Array(artifactCount).fill('')\<close>: a \<^verbatim>\<open>RangeError\<close> unless the argument is a
  valid array length.
\<close>

definition newRow :: "int \<Rightarrow> error + string option list" where
  "newRow artifactCount =
     (if 0 \<le> artifactCount \<and> artifactCount < 2 ^ 32
      then Inr (replicate (nat artifactCount) (Some []))
      else Inl RangeError)"

text \<open>\<^verbatim>\<open>row[i] = s\<close>: inside the array an update, beyond its end an extension.\<close>

definition setCell :: "string option list \<Rightarrow> nat \<Rightarrow> string \<Rightarrow> string option list" where
  "setCell r i s =
     (if i < length r then r[i := Some s]
      else r @ replicate (i - length r) None @ [Some s])"

fun updateEntry :: "DataMap \<Rightarrow> string \<Rightarrow> (ScalarRowData \<Rightarrow> ScalarRowData) \<Rightarrow> DataMap" where
  "updateEntry [] k f = []"
| "updateEntry ((k', v) # m) k f =
     (if k' = k then (k', f v) # m else (k', v) # updateEntry m k f)"

text \<open>
  The body of the loop of \<^verbatim>\<open>addScalarDataItems\<close> after the \<^verbatim>\<open>continue\<close>.
  \<open>stringify v\<close> stands for \<^verbatim>\<open>JSON.stringify(getMetadataValue(v))\<close>:
  \<^verbatim>\<open>getMetadataValue\<close> (\<^verbatim>\<open>src/mlmd/Utils\<close>) is not among the sources, and the
  serialisation of a number is floating point, so the composition is a parameter.
  When \<^verbatim>\<open>dataMap[scalarMetricName]\<close> is a member of \<^verbatim>\<open>Object.prototype\<close>, no row is
  created, its \<^verbatim>\<open>.row\<close> is \<^verbatim>\<open>undefined\<close> and the assignment throws.
\<close>

definition addScalarDataItem ::
    "(Value option \<Rightarrow> string) \<Rightarrow> (string \<times> Value) list \<Rightarrow> string \<Rightarrow> DataMap \<Rightarrow> nat \<Rightarrow> int
      \<Rightarrow> error + DataMap" where
  "addScalarDataItem stringify props scalarMetricName dm artifactIndex artifactCount =
     (case (if map_of dm scalarMetricName = None \<and> scalarMetricName \<notin> set objectPrototypeKeys
            then (case newRow artifactCount of
                    Inl e \<Rightarrow> Inl e
                  | Inr r \<Rightarrow> Inr (dm @ [(scalarMetricName, \<lparr> row = r, dataCount = 0 \<rparr>)]))
            else Inr dm) of
        Inl e \<Rightarrow> Inl e
      | Inr dm1 \<Rightarrow>
          (case map_of dm1 scalarMetricName of
             None \<Rightarrow> Inl TypeError
           | Some _ \<Rightarrow>
               Inr (updateEntry
                      (updateEntry dm1 scalarMetricName
                         (\<lambda>d. d\<lparr> row := setCell (row d) artifactIndex
                                              (stringify (map_of props scalarMetricName)) \<rparr>))
                      scalarMetricName (\<lambda>d. d\<lparr> dataCount := dataCount d + 1 \<rparr>))))"

fun addScalarDataItems_entries ::
    "(Value option \<Rightarrow> string) \<Rightarrow> (string \<times> Value) list \<Rightarrow> (string \<times> Value) list \<Rightarrow> DataMap
      \<Rightarrow> nat \<Rightarrow> int \<Rightarrow> error + DataMap" where
  "addScalarDataItems_entries stringify props [] dm artifactIndex artifactCount = Inr dm"
| "addScalarDataItems_entries stringify props (entry # entries) dm artifactIndex artifactCount =
     (let scalarMetricName = fst entry in
      if scalarMetricName = ''display_name''
      then addScalarDataItems_entries stringify props entries dm artifactIndex artifactCount
      else (case addScalarDataItem stringify props scalarMetricName dm artifactIndex
                   artifactCount of
              Inl e \<Rightarrow> Inl e
            | Inr dm' \<Rightarrow>
                addScalarDataItems_entries stringify props entries dm' artifactIndex
                  artifactCount))"

definition addScalarDataItems ::
    "(Value option \<Rightarrow> string) \<Rightarrow> (string \<times> Value) list \<Rightarrow> DataMap \<Rightarrow> nat \<Rightarrow> int
      \<Rightarrow> error + DataMap" where
  "addScalarDataItems stringify props dm artifactIndex artifactCount =
     addScalarDataItems_entries stringify props props dm artifactIndex artifactCount"

text \<open>
  \<^verbatim>\<open>loadScalarExecutionArtifacts\<close>: the inner loop over the linked artifacts of one
  execution, then the outer loop over the executions. The arrays \<^verbatim>\<open>xLabels\<close> and
  \<^verbatim>\<open>dataMap\<close> that the source mutates are returned with the new index.
\<close>

fun loadLinkedArtifacts ::
    "(Value option \<Rightarrow> string) \<Rightarrow> string \<Rightarrow> LinkedArtifact list \<Rightarrow> string list \<Rightarrow> DataMap \<Rightarrow> nat
      \<Rightarrow> int \<Rightarrow> error + (string list \<times> DataMap \<times> nat)" where
  "loadLinkedArtifacts stringify executionText [] xl dm artifactIndex artifactCount =
     Inr (xl, dm, artifactIndex)"
| "loadLinkedArtifacts stringify executionText (linkedArtifact # rest) xl dm artifactIndex
       artifactCount =
     (let linkedArtifactText = orElse (getArtifactName linkedArtifact) ''-'';
          xLabel = executionText @ '' > '' @ linkedArtifactText;
          xl' = xl @ [xLabel]
      in case addScalarDataItems stringify (customProperties (artifact linkedArtifact)) dm
                artifactIndex artifactCount of
           Inl e \<Rightarrow> Inl e
         | Inr dm' \<Rightarrow>
             loadLinkedArtifacts stringify executionText rest xl' dm' (artifactIndex + 1)
               artifactCount)"

fun loadScalarExecutionArtifacts ::
    "(Value option \<Rightarrow> string) \<Rightarrow> ExecutionArtifact list \<Rightarrow> string list \<Rightarrow> DataMap \<Rightarrow> nat \<Rightarrow> int
      \<Rightarrow> error + (string list \<times> DataMap \<times> nat)" where
  "loadScalarExecutionArtifacts stringify [] xl dm artifactIndex artifactCount =
     Inr (xl, dm, artifactIndex)"
| "loadScalarExecutionArtifacts stringify (executionArtifact # rest) xl dm artifactIndex
       artifactCount =
     (let executionText = orElse (getExecutionDisplayName (execution executionArtifact)) ''-''
      in case loadLinkedArtifacts stringify executionText (linkedArtifacts executionArtifact)
                xl dm artifactIndex artifactCount of
           Inl e \<Rightarrow> Inl e
         | Inr (xl', dm', artifactIndex') \<Rightarrow>
             loadScalarExecutionArtifacts stringify rest xl' dm' artifactIndex' artifactCount)"

text \<open>\<^verbatim>\<open>getScalarTableData\<close>: the loop over the runs, then the function.\<close>

fun getScalarTableData_runs ::
    "(Value option \<Rightarrow> string) \<Rightarrow> RunArtifact list \<Rightarrow> string list \<Rightarrow> xParentLabel list \<Rightarrow> DataMap
      \<Rightarrow> nat \<Rightarrow> int \<Rightarrow> error + ScalarTableData" where
  "getScalarTableData_runs stringify [] xl xpl dm artifactIndex artifactCount =
     Inr \<lparr> xLabels = xl, xParentLabels = xpl, dataMap = dm \<rparr>"
| "getScalarTableData_runs stringify (runArtifact # rest) xl xpl dm artifactIndex artifactCount =
     (let runName = orElse (Option.bind (apiRun (run runArtifact)) run_name) ''-''
      in case loadScalarExecutionArtifacts stringify (executionArtifacts runArtifact) xl dm
                artifactIndex artifactCount of
           Inl e \<Rightarrow> Inl e
         | Inr (xl', dm', newArtifactIndex) \<Rightarrow>
             getScalarTableData_runs stringify rest xl'
               (xpl @ [\<lparr> label = runName,
                          colSpan = int newArtifactIndex - int artifactIndex \<rparr>])
               dm' newArtifactIndex artifactCount)"

definition getScalarTableData ::
    "(Value option \<Rightarrow> string) \<Rightarrow> RunArtifact list \<Rightarrow> int \<Rightarrow> error + ScalarTableData" where
  "getScalarTableData stringify scalarMetricsArtifacts artifactCount =
     getScalarTableData_runs stringify scalarMetricsArtifacts [] [] [] 0 artifactCount"

subsection \<open>Table assembler\<close>

text \<open>
  \<^verbatim>\<open>Object.entries\<close> lists the own properties of an object in the order of
  \<^verbatim>\<open>OrdinaryOwnPropertyKeys\<close>: first the keys that are array indices (the canonical
  numerals of the integers from 0 to \<open>2^32 - 2\<close>), in ascending numeric order, then the other
  string keys in the order of their creation.
\<close>

definition digitVal :: "char \<Rightarrow> nat option" where
  "digitVal c = map_of (zip decimalDigits [0, 1, 2, 3, 4, 5, 6, 7, 8, 9]) c"

fun parseDigits :: "nat \<Rightarrow> string \<Rightarrow> nat option" where
  "parseDigits acc [] = Some acc"
| "parseDigits acc (c # cs) =
     (case digitVal c of None \<Rightarrow> None | Some d \<Rightarrow> parseDigits (10 * acc + d) cs)"

definition arrayIndex :: "string \<Rightarrow> nat option" where
  "arrayIndex s =
     (if s = [] then None
      else case parseDigits 0 s of
             None \<Rightarrow> None
           | Some n \<Rightarrow> if natToString n = s \<and> n < 2 ^ 32 - 1 then Some n else None)"

definition indexKey :: "string \<times> 'a \<Rightarrow> nat" where
  "indexKey e = (case arrayIndex (fst e) of None \<Rightarrow> 0 | Some n \<Rightarrow> n)"

definition Object_entries :: "(string \<times> 'a) list \<Rightarrow> (string \<times> 'a) list" where
  "Object_entries obj =
     sort_key indexKey (filter (\<lambda>e. arrayIndex (fst e) \<noteq> None) obj)
     @ filter (\<lambda>e. arrayIndex (fst e) = None) obj"

text \<open>
  \<^verbatim>\<open>Array.prototype.sort(compareFn)\<close> is a stable sort (ECMAScript 2019): for a
  comparator that compares a key, as here, the result is the one of insertion sort.
\<close>

fun insertWith :: "('a \<Rightarrow> 'a \<Rightarrow> int) \<Rightarrow> 'a \<Rightarrow> 'a list \<Rightarrow> 'a list" where
  "insertWith compareFn x [] = [x]"
| "insertWith compareFn x (y # ys) =
     (if compareFn x y \<le> 0 then x # y # ys else y # insertWith compareFn x ys)"

definition sortWith :: "('a \<Rightarrow> 'a \<Rightarrow> int) \<Rightarrow> 'a list \<Rightarrow> 'a list" where
  "sortWith compareFn xs = foldr (insertWith compareFn) xs []"

record CompareTableProps =
  props_xLabels :: "string list"
  yLabels :: "string list"
  props_xParentLabels :: "xParentLabel list"
  rows :: "string option list list"

text \<open>The \<^verbatim>\<open>for\<close> loop that pushes to \<^verbatim>\<open>yLabels\<close> and \<^verbatim>\<open>rows\<close>.\<close>

fun pushSorted ::
    "(string \<times> ScalarRowData) list \<Rightarrow> string list \<Rightarrow> string option list list
      \<Rightarrow> string list \<times> string option list list" where
  "pushSorted [] yl rs = (yl, rs)"
| "pushSorted (sortedDataItem # rest) yl rs =
     pushSorted rest (yl @ [fst sortedDataItem]) (rs @ [row (snd sortedDataItem)])"

definition getCompareTableProps ::
    "(Value option \<Rightarrow> string) \<Rightarrow> RunArtifact list \<Rightarrow> int \<Rightarrow> error + CompareTableProps" where
  "getCompareTableProps stringify scalarMetricsArtifacts artifactCount =
     (case getScalarTableData stringify scalarMetricsArtifacts artifactCount of
        Inl e \<Rightarrow> Inl e
      | Inr scalarTableData \<Rightarrow>
          (let sortedDataList =
                 sortWith (\<lambda>a b. int (dataCount (snd b)) - int (dataCount (snd a)))
                   (Object_entries (dataMap scalarTableData));
               (yl, rs) = pushSorted sortedDataList [] []
           in Inr \<lparr> props_xLabels = xLabels scalarTableData,
                    yLabels = yl,
                    props_xParentLabels = xParentLabels scalarTableData,
                    rows = rs \<rparr>))"

subsection \<open>The specification's reading of the resolver and the validator\<close>

text \<open>
  The specification's name resolution (section 4.2): the display name if present and
  non-empty, else \<^verbatim>\<open>"<EntityType> ID #<id>"\<close>.
\<close>

definition spec_resolveName :: "string option \<Rightarrow> string \<Rightarrow> string \<Rightarrow> string" where
  "spec_resolveName displayName typeLabel ident =
     (case displayName of
        None \<Rightarrow> typeLabel @ '' ID #'' @ ident
      | Some n \<Rightarrow> if n = [] then typeLabel @ '' ID #'' @ ident else n)"

text \<open>The artifact carries the property \<^verbatim>\<open>confidenceMetrics\<close> and it holds a struct.\<close>

definition hasConfidenceMetricsStruct :: "LinkedArtifact \<Rightarrow> bool" where
  "hasConfidenceMetricsStruct la =
     (case map_of (customProperties (artifact la)) ''confidenceMetrics'' of
        Some (StructValue s) \<Rightarrow> True
      | _ \<Rightarrow> False)"

subsection \<open>Notions used to state and prove the properties\<close>

text \<open>
  The linked artifacts of a run and of all runs, in the order in which the three nested
  loops of the aggregator visit them; the length of the second list is the global artifact
  count that the caller passes as \<^verbatim>\<open>artifactCount\<close>.
\<close>

definition runLinkedArtifacts :: "RunArtifact \<Rightarrow> LinkedArtifact list" where
  "runLinkedArtifacts ra = concat (map linkedArtifacts (executionArtifacts ra))"

definition allLinkedArtifacts :: "RunArtifact list \<Rightarrow> LinkedArtifact list" where
  "allLinkedArtifacts ras = concat (map runLinkedArtifacts ras)"

text \<open>The column labels and the group label that the loops emit for a run.\<close>

definition xLabelOf :: "string \<Rightarrow> LinkedArtifact \<Rightarrow> string" where
  "xLabelOf executionText la = executionText @ '' > '' @ orElse (getArtifactName la) ''-''"

definition executionLabels :: "ExecutionArtifact \<Rightarrow> string list" where
  "executionLabels ea =
     map (xLabelOf (orElse (getExecutionDisplayName (execution ea)) ''-'')) (linkedArtifacts ea)"

definition runLabels :: "RunArtifact \<Rightarrow> string list" where
  "runLabels ra = concat (map executionLabels (executionArtifacts ra))"

definition runParentLabel :: "RunArtifact \<Rightarrow> xParentLabel" where
  "runParentLabel ra =
     \<lparr> label = orElse (Option.bind (apiRun (run ra)) run_name) ''-'',
       colSpan = int (length (runLinkedArtifacts ra)) \<rparr>"

text \<open>
  The three loops flattened: \<^verbatim>\<open>addScalarDataItems\<close> applied to the linked artifacts in
  turn, with the running column index. The lemmas \<open>loadLinkedArtifacts_aggregate\<close>,
  \<open>loadScalarExecutionArtifacts_aggregate\<close> and \<open>getScalarTableData_runs_aggregate\<close>
  show that the loops of the source compute this.
\<close>

fun aggregateArtifacts ::
    "(Value option \<Rightarrow> string) \<Rightarrow> LinkedArtifact list \<Rightarrow> DataMap \<Rightarrow> nat \<Rightarrow> int \<Rightarrow> error + DataMap" where
  "aggregateArtifacts st [] dm i cnt = Inr dm"
| "aggregateArtifacts st (la # las) dm i cnt =
     (case addScalarDataItems st (customProperties (artifact la)) dm i cnt of
        Inl e \<Rightarrow> Inl e
      | Inr dm' \<Rightarrow> aggregateArtifacts st las dm' (Suc i) cnt)"

text \<open>
  A cell is non-empty when it holds a string other than \<^verbatim>\<open>''\<close>; a hole holds
  nothing.
\<close>

definition nonEmptyCell :: "string option \<Rightarrow> bool" where
  "nonEmptyCell c = (case c of None \<Rightarrow> False | Some s \<Rightarrow> s \<noteq> [])"

definition nonEmptyCells :: "string option list \<Rightarrow> nat" where
  "nonEmptyCells r = length (filter nonEmptyCell r)"

text \<open>
  The entry list of a \<^verbatim>\<open>jspb.Map\<close> has each key once: the well-formedness of the
  custom properties of the input.
\<close>

definition distinctPropertyKeys :: "RunArtifact list \<Rightarrow> bool" where
  "distinctPropertyKeys ras =
     list_all (\<lambda>la. distinct (map fst (customProperties (artifact la)))) (allLinkedArtifacts ras)"

text \<open>
  The two assignments of the loop body on one \<^verbatim>\<open>ScalarRowData\<close>, and the invariant of
  the loops: the count is the number of non-empty cells, and from column \<open>i\<close> on the row is
  empty.
\<close>

definition bumpRow :: "nat \<Rightarrow> string \<Rightarrow> ScalarRowData \<Rightarrow> ScalarRowData" where
  "bumpRow i s d = \<lparr> row = setCell (row d) i s, dataCount = dataCount d + 1 \<rparr>"

definition rowOk :: "nat \<Rightarrow> ScalarRowData \<Rightarrow> bool" where
  "rowOk i d \<longleftrightarrow>
     dataCount d = nonEmptyCells (row d) \<and>
     (\<forall>j. i \<le> j \<longrightarrow> j < length (row d) \<longrightarrow> \<not> nonEmptyCell (row d ! j))"

text \<open>
  The metric names in the order in which the aggregator meets them, and the order of first
  encounter: each name at its first position.
\<close>

definition insertKey :: "string list \<Rightarrow> string \<Rightarrow> string list" where
  "insertKey ks k = (if k \<in> set ks then ks else ks @ [k])"

definition artifactMetricNames :: "LinkedArtifact \<Rightarrow> string list" where
  "artifactMetricNames la =
     filter (\<lambda>k. k \<noteq> ''display_name'') (map fst (customProperties (artifact la)))"

definition metricNames :: "RunArtifact list \<Rightarrow> string list" where
  "metricNames ras = concat (map artifactMetricNames (allLinkedArtifacts ras))"

fun firstSeen :: "'a list \<Rightarrow> 'a list" where
  "firstSeen [] = []"
| "firstSeen (x # xs) = x # filter (\<lambda>y. y \<noteq> x) (firstSeen xs)"

text \<open>
  Inputs for the examples: one run with one execution, both without a display name, holding
  the given linked artifacts. Each entry list has its keys in ascending order, as
  \<^verbatim>\<open>getEntryList()\<close> of a \<^verbatim>\<open>jspb.Map\<close> returns them. \<open>exampleStringify\<close> gives the JSON text of the numbers the
  examples use, 0.9, 0.8, 0.5 and 1, and the text \<^verbatim>\<open>null\<close> for anything else.
\<close>

definition exampleStringify :: "Value option \<Rightarrow> string" where
  "exampleStringify v =
     (case v of
        Some (NumberValue x) \<Rightarrow>
          if x = 0.9 then ''0.9'' else if x = 0.8 then ''0.8'' else if x = 0.5 then ''0.5''
          else if x = 1 then ''1'' else ''null''
      | _ \<Rightarrow> ''null'')"

definition exampleArtifact :: "(string \<times> Value) list \<Rightarrow> LinkedArtifact" where
  "exampleArtifact props =
     \<lparr> event = \<lparr> executionId = 1, artifactId = 1 \<rparr>,
       artifact = \<lparr> artifact_id = 1, artifact_displayName = None, customProperties = props \<rparr> \<rparr>"

definition exampleRun :: "LinkedArtifact list \<Rightarrow> RunArtifact" where
  "exampleRun las =
     \<lparr> run = \<lparr> apiRun = Some \<lparr> run_id = Some ''42'', run_name = None \<rparr> \<rparr>,
       executionArtifacts =
         [\<lparr> execution = \<lparr> execution_id = 1, execution_displayName = None \<rparr>,
            linkedArtifacts = las \<rparr>] \<rparr>"

definition specExampleRuns :: "RunArtifact list" where
  "specExampleRuns =
     [exampleRun [exampleArtifact [(''acc'', NumberValue 0.9)],
                  exampleArtifact [(''acc'', NumberValue 0.8), (''f1'', NumberValue 0.5)]]]"

definition tiedExampleRuns :: "RunArtifact list" where
  "tiedExampleRuns =
     [exampleRun [exampleArtifact [(''b'', NumberValue 1)],
                  exampleArtifact [(''1'', NumberValue 1)]]]"

definition rankedExampleRuns :: "RunArtifact list" where
  "rankedExampleRuns =
     [exampleRun [exampleArtifact [(''f1'', NumberValue 0.5)],
                  exampleArtifact [(''acc'', NumberValue 0.9), (''m'', NumberValue 1)],
                  exampleArtifact [(''acc'', NumberValue 0.8)]]]"

subsection \<open>The functions on a store\<close>

text \<open>
  The embedding above passes values. To state what a call does to the objects it is given,
  the same functions are written here on a store: a list of cells, where an address is a
  position of the list, an allocation appends a cell and an assignment replaces the cell at
  an address. Every array and object that the source creates or receives is a cell.

  The input is an array of references to \<^verbatim>\<open>RunArtifact\<close> objects; such an object holds
  its run and a reference to the array of its \<^verbatim>\<open>ExecutionArtifact\<close> objects, each of
  which holds its execution and a reference to the array of its linked artifacts. The run
  detail and the protobuf messages (execution, artifact with its custom properties, event)
  are part of the cell of the object that holds them; the source reads them through getters,
  which are taken to read only. A loop over an array reads the array when the loop starts.
  Temporary arrays inside library calls (\<^verbatim>\<open>getEntryList\<close>, the copy that
  \<^verbatim>\<open>flatMapDeep\<close> makes first) are not cells.
\<close>

type_synonym addr = nat

datatype cell =
    RefArray "addr list"
  | StringArray "string option list"
  | RunArtifactObj ApiRunDetail addr
  | ExecutionArtifactObj Execution addr
  | LinkedArtifactObj LinkedArtifact
  | ParentLabelObj xParentLabel
  | ScalarRowDataObj addr nat
  | DataMapObj "(string \<times> addr) list"
  | EntryArray string addr
  | ScalarTableDataObj addr addr addr
  | CompareTablePropsObj addr addr addr addr
  | FullArtifactPathObj FullArtifactPath
  | PathMapObj "(string \<times> addr) list"
  | RocCurveArtifactDataObj addr addr

type_synonym store = "cell list"

text \<open>
  A call returns a value, throws, or finds at an address a cell of another kind than the
  types of the source promise (\<open>IllTyped\<close>). The store after the call is returned in each
  case.
\<close>

datatype 'a completion = Normal 'a | Throw error | IllTyped

definition alloc :: "cell \<Rightarrow> store \<Rightarrow> addr \<times> store" where
  "alloc c h = (length h, h @ [c])"

definition lookup :: "store \<Rightarrow> addr \<Rightarrow> cell option" where
  "lookup h a = (if a < length h then Some (h ! a) else None)"

definition assign :: "store \<Rightarrow> addr \<Rightarrow> cell \<Rightarrow> store" where
  "assign h a c = h[a := c]"

text \<open>\<^verbatim>\<open>push\<close> on an array of references and on an array of strings.\<close>

definition pushRef :: "addr \<Rightarrow> addr \<Rightarrow> store \<Rightarrow> unit completion \<times> store" where
  "pushRef a r h =
     (case lookup h a of
        Some (RefArray rs) \<Rightarrow> (Normal (), assign h a (RefArray (rs @ [r])))
      | _ \<Rightarrow> (IllTyped, h))"

definition pushString :: "addr \<Rightarrow> string \<Rightarrow> store \<Rightarrow> unit completion \<times> store" where
  "pushString a s h =
     (case lookup h a of
        Some (StringArray xs) \<Rightarrow> (Normal (), assign h a (StringArray (xs @ [Some s])))
      | _ \<Rightarrow> (IllTyped, h))"

text \<open>Sequencing: the second part runs when the first returns.\<close>

definition andThen ::
    "(store \<Rightarrow> 'a completion \<times> store) \<Rightarrow> ('a \<Rightarrow> store \<Rightarrow> 'b completion \<times> store)
      \<Rightarrow> store \<Rightarrow> 'b completion \<times> store" where
  "andThen m f h =
     (case m h of
        (Normal x, h') \<Rightarrow> f x h'
      | (Throw e, h') \<Rightarrow> (Throw e, h')
      | (IllTyped, h') \<Rightarrow> (IllTyped, h'))"

text \<open>
  \<^verbatim>\<open>addScalarDataItems\<close>: \<^verbatim>\<open>dataMap\<close> is an object whose properties refer to
  \<^verbatim>\<open>ScalarRowData\<close> objects, which refer to their row arrays. The body of the loop creates
  the row array and the object when the metric is new, then assigns to the row and to the
  count through these references.
\<close>

definition store_addScalarDataItem ::
    "(Value option \<Rightarrow> string) \<Rightarrow> (string \<times> Value) list \<Rightarrow> string \<Rightarrow> addr \<Rightarrow> nat \<Rightarrow> int
      \<Rightarrow> store \<Rightarrow> unit completion \<times> store" where
  "store_addScalarDataItem stringify props scalarMetricName dm artifactIndex artifactCount =
     andThen
       (\<lambda>h. case lookup h dm of
              Some (DataMapObj ps) \<Rightarrow>
                if map_of ps scalarMetricName = None
                   \<and> scalarMetricName \<notin> set objectPrototypeKeys
                then (case newRow artifactCount of
                        Inl e \<Rightarrow> (Throw e, h)
                      | Inr r \<Rightarrow>
                          (let (rowAddr, h1) = alloc (StringArray r) h;
                               (rd, h2) = alloc (ScalarRowDataObj rowAddr 0) h1
                           in (Normal (),
                               assign h2 dm (DataMapObj (ps @ [(scalarMetricName, rd)])))))
                else (Normal (), h)
            | _ \<Rightarrow> (IllTyped, h))
       (\<lambda>_ h. case lookup h dm of
              Some (DataMapObj ps) \<Rightarrow>
                (case map_of ps scalarMetricName of
                   None \<Rightarrow> (Throw TypeError, h)
                 | Some rd \<Rightarrow>
                     (case lookup h rd of
                        Some (ScalarRowDataObj rowAddr n) \<Rightarrow>
                          (case lookup h rowAddr of
                             Some (StringArray r) \<Rightarrow>
                               (let h1 = assign h rowAddr
                                           (StringArray
                                              (setCell r artifactIndex
                                                 (stringify (map_of props scalarMetricName))))
                                in case lookup h1 rd of
                                     Some (ScalarRowDataObj rowAddr' n') \<Rightarrow>
                                       (Normal (),
                                        assign h1 rd (ScalarRowDataObj rowAddr' (n' + 1)))
                                   | _ \<Rightarrow> (IllTyped, h1))
                           | _ \<Rightarrow> (IllTyped, h))
                      | _ \<Rightarrow> (IllTyped, h)))
            | _ \<Rightarrow> (IllTyped, h))"

fun store_addScalarDataItems_entries ::
    "(Value option \<Rightarrow> string) \<Rightarrow> (string \<times> Value) list \<Rightarrow> (string \<times> Value) list \<Rightarrow> addr
      \<Rightarrow> nat \<Rightarrow> int \<Rightarrow> store \<Rightarrow> unit completion \<times> store" where
  "store_addScalarDataItems_entries stringify props [] dm artifactIndex artifactCount h =
     (Normal (), h)"
| "store_addScalarDataItems_entries stringify props (entry # entries) dm artifactIndex
       artifactCount h =
     (if fst entry = ''display_name''
      then store_addScalarDataItems_entries stringify props entries dm artifactIndex
             artifactCount h
      else andThen
             (store_addScalarDataItem stringify props (fst entry) dm artifactIndex artifactCount)
             (\<lambda>_. store_addScalarDataItems_entries stringify props entries dm artifactIndex
                     artifactCount) h)"

definition store_addScalarDataItems ::
    "(Value option \<Rightarrow> string) \<Rightarrow> (string \<times> Value) list \<Rightarrow> addr \<Rightarrow> nat \<Rightarrow> int
      \<Rightarrow> store \<Rightarrow> unit completion \<times> store" where
  "store_addScalarDataItems stringify props dm artifactIndex artifactCount =
     store_addScalarDataItems_entries stringify props props dm artifactIndex artifactCount"

text \<open>\<^verbatim>\<open>loadScalarExecutionArtifacts\<close>, its inner and its outer loop.\<close>

fun store_loadLinkedArtifacts ::
    "(Value option \<Rightarrow> string) \<Rightarrow> string \<Rightarrow> addr list \<Rightarrow> addr \<Rightarrow> addr \<Rightarrow> nat \<Rightarrow> int
      \<Rightarrow> store \<Rightarrow> nat completion \<times> store" where
  "store_loadLinkedArtifacts stringify executionText [] xl dm artifactIndex artifactCount h =
     (Normal artifactIndex, h)"
| "store_loadLinkedArtifacts stringify executionText (la # rest) xl dm artifactIndex
       artifactCount h =
     (case lookup h la of
        Some (LinkedArtifactObj linkedArtifact) \<Rightarrow>
          (let linkedArtifactText = orElse (getArtifactName linkedArtifact) ''-'';
               xLabel = executionText @ '' > '' @ linkedArtifactText
           in andThen (pushString xl xLabel)
                (\<lambda>_. andThen
                   (store_addScalarDataItems stringify
                      (customProperties (artifact linkedArtifact)) dm artifactIndex artifactCount)
                   (\<lambda>_. store_loadLinkedArtifacts stringify executionText rest xl dm
                           (artifactIndex + 1) artifactCount)) h)
      | _ \<Rightarrow> (IllTyped, h))"

fun store_loadScalarExecutionArtifacts ::
    "(Value option \<Rightarrow> string) \<Rightarrow> addr list \<Rightarrow> addr \<Rightarrow> addr \<Rightarrow> nat \<Rightarrow> int
      \<Rightarrow> store \<Rightarrow> nat completion \<times> store" where
  "store_loadScalarExecutionArtifacts stringify [] xl dm artifactIndex artifactCount h =
     (Normal artifactIndex, h)"
| "store_loadScalarExecutionArtifacts stringify (ea # rest) xl dm artifactIndex artifactCount h =
     (case lookup h ea of
        Some (ExecutionArtifactObj exec las) \<Rightarrow>
          (let executionText = orElse (getExecutionDisplayName exec) ''-''
           in case lookup h las of
                Some (RefArray linked) \<Rightarrow>
                  andThen
                    (store_loadLinkedArtifacts stringify executionText linked xl dm artifactIndex
                       artifactCount)
                    (\<lambda>artifactIndex'. store_loadScalarExecutionArtifacts stringify rest xl dm
                                         artifactIndex' artifactCount) h
              | _ \<Rightarrow> (IllTyped, h))
      | _ \<Rightarrow> (IllTyped, h))"

text \<open>
  \<^verbatim>\<open>getScalarTableData\<close>: the three literals \<^verbatim>\<open>[]\<close>, \<^verbatim>\<open>[]\<close> and \<^verbatim>\<open>{}\<close> are
  allocated, the loop over the runs fills them, and the object returned refers to them.
\<close>

fun store_getScalarTableData_runs ::
    "(Value option \<Rightarrow> string) \<Rightarrow> addr list \<Rightarrow> addr \<Rightarrow> addr \<Rightarrow> addr \<Rightarrow> nat \<Rightarrow> int
      \<Rightarrow> store \<Rightarrow> unit completion \<times> store" where
  "store_getScalarTableData_runs stringify [] xl xpl dm artifactIndex artifactCount h =
     (Normal (), h)"
| "store_getScalarTableData_runs stringify (ra # rest) xl xpl dm artifactIndex artifactCount h =
     (case lookup h ra of
        Some (RunArtifactObj runDetail eas) \<Rightarrow>
          (let runName = orElse (Option.bind (apiRun runDetail) run_name) ''-''
           in case lookup h eas of
                Some (RefArray executions) \<Rightarrow>
                  andThen
                    (store_loadScalarExecutionArtifacts stringify executions xl dm artifactIndex
                       artifactCount)
                    (\<lambda>newArtifactIndex h1.
                       let (lab, h2) =
                             alloc (ParentLabelObj
                                      \<lparr> label = runName,
                                        colSpan = int newArtifactIndex - int artifactIndex \<rparr>) h1
                       in andThen (pushRef xpl lab)
                            (\<lambda>_. store_getScalarTableData_runs stringify rest xl xpl dm
                                    newArtifactIndex artifactCount) h2) h
              | _ \<Rightarrow> (IllTyped, h))
      | _ \<Rightarrow> (IllTyped, h))"

definition store_getScalarTableData ::
    "(Value option \<Rightarrow> string) \<Rightarrow> addr \<Rightarrow> int \<Rightarrow> store \<Rightarrow> addr completion \<times> store" where
  "store_getScalarTableData stringify scalarMetricsArtifacts artifactCount h =
     (let (xl, h1) = alloc (StringArray []) h;
          (xpl, h2) = alloc (RefArray []) h1;
          (dm, h3) = alloc (DataMapObj []) h2
      in case lookup h3 scalarMetricsArtifacts of
           Some (RefArray runs) \<Rightarrow>
             andThen (store_getScalarTableData_runs stringify runs xl xpl dm 0 artifactCount)
               (\<lambda>_ h4. let (t, h5) = alloc (ScalarTableDataObj xl xpl dm) h4
                        in (Normal t, h5)) h3
         | _ \<Rightarrow> (IllTyped, h3))"

text \<open>
  \<^verbatim>\<open>getCompareTableProps\<close>. \<^verbatim>\<open>Object.entries\<close> allocates a pair for each property and
  the array of the pairs, \<^verbatim>\<open>sort\<close> reorders that array in place, comparing the counts it
  reads through the pairs; the loop pushes the keys to \<^verbatim>\<open>yLabels\<close> and the references to
  the rows of \<^verbatim>\<open>dataMap\<close> to \<^verbatim>\<open>rows\<close>. \<open>store_sortAndCollect\<close> is the part of the
  function after \<^verbatim>\<open>dataMap\<close> has been read.
\<close>

fun allocEntries :: "(string \<times> addr) list \<Rightarrow> store \<Rightarrow> addr list \<times> store" where
  "allocEntries [] h = ([], h)"
| "allocEntries (p # ps) h =
     (let (e, h1) = alloc (EntryArray (fst p) (snd p)) h;
          (es, h2) = allocEntries ps h1
      in (e # es, h2))"

definition dataCountAt :: "store \<Rightarrow> addr \<Rightarrow> nat option" where
  "dataCountAt h e =
     (case lookup h e of
        Some (EntryArray k rd) \<Rightarrow>
          (case lookup h rd of Some (ScalarRowDataObj rowAddr n) \<Rightarrow> Some n | _ \<Rightarrow> None)
      | _ \<Rightarrow> None)"

definition dataCountOr0 :: "store \<Rightarrow> addr \<Rightarrow> nat" where
  "dataCountOr0 h e = (case dataCountAt h e of Some n \<Rightarrow> n | None \<Rightarrow> 0)"

fun store_pushSorted :: "addr list \<Rightarrow> addr \<Rightarrow> addr \<Rightarrow> store \<Rightarrow> unit completion \<times> store" where
  "store_pushSorted [] yl rs h = (Normal (), h)"
| "store_pushSorted (sortedDataItem # rest) yl rs h =
     (case lookup h sortedDataItem of
        Some (EntryArray k rd) \<Rightarrow>
          andThen (pushString yl k)
            (\<lambda>_ h1. case lookup h1 rd of
                      Some (ScalarRowDataObj rowAddr n) \<Rightarrow>
                        andThen (pushRef rs rowAddr) (\<lambda>_. store_pushSorted rest yl rs) h1
                    | _ \<Rightarrow> (IllTyped, h1)) h
      | _ \<Rightarrow> (IllTyped, h))"

definition store_sortAndCollect ::
    "addr \<Rightarrow> addr \<Rightarrow> (string \<times> addr) list \<Rightarrow> store \<Rightarrow> addr completion \<times> store" where
  "store_sortAndCollect xl xpl ps h =
     (let (es, h1) = allocEntries (Object_entries ps) h;
          (sortedDataList, h2) = alloc (RefArray es) h1
      in if list_all (\<lambda>e. dataCountAt h2 e \<noteq> None) es
         then (let sorted =
                     sortWith (\<lambda>a b. int (dataCountOr0 h2 b) - int (dataCountOr0 h2 a)) es;
                   h3 = assign h2 sortedDataList (RefArray sorted);
                   (yl, h4) = alloc (StringArray []) h3;
                   (rs, h5) = alloc (RefArray []) h4
               in andThen (store_pushSorted sorted yl rs)
                    (\<lambda>_ h6. let (out, h7) = alloc (CompareTablePropsObj xl yl xpl rs) h6
                             in (Normal out, h7)) h5)
         else (IllTyped, h2))"

definition store_getCompareTableProps ::
    "(Value option \<Rightarrow> string) \<Rightarrow> addr \<Rightarrow> int \<Rightarrow> store \<Rightarrow> addr completion \<times> store" where
  "store_getCompareTableProps stringify scalarMetricsArtifacts artifactCount =
     andThen (store_getScalarTableData stringify scalarMetricsArtifacts artifactCount)
       (\<lambda>scalarTableData h.
          case lookup h scalarTableData of
            Some (ScalarTableDataObj xl xpl dm) \<Rightarrow>
              (case lookup h dm of
                 Some (DataMapObj ps) \<Rightarrow> store_sortAndCollect xl xpl ps h
               | _ \<Rightarrow> (IllTyped, h))
          | _ \<Rightarrow> (IllTyped, h))"

text \<open>\<^verbatim>\<open>getValidArtifacts\<close>: the array it returns holds references to the valid inputs.\<close>

fun store_getValidArtifacts_forEach ::
    "addr list \<Rightarrow> addr \<Rightarrow> store \<Rightarrow> unit completion \<times> store" where
  "store_getValidArtifacts_forEach [] valid h = (Normal (), h)"
| "store_getValidArtifacts_forEach (la # rest) valid h =
     (case lookup h la of
        Some (LinkedArtifactObj linkedArtifact) \<Rightarrow>
          (let props = customProperties (artifact linkedArtifact);
               confidenceMetrics =
                 Option.bind (Option.bind (map_of props ''confidenceMetrics'') getStructValue)
                   (\<lambda>s. Some (toJavaScript s))
           in if truthy confidenceMetrics
              then andThen (pushRef valid la)
                     (\<lambda>_. store_getValidArtifacts_forEach rest valid) h
              else store_getValidArtifacts_forEach rest valid h)
      | _ \<Rightarrow> (IllTyped, h))"

definition store_getValidArtifacts :: "addr \<Rightarrow> store \<Rightarrow> addr completion \<times> store" where
  "store_getValidArtifacts executionArtifact h =
     (let (valid, h1) = alloc (RefArray []) h
      in case lookup h1 executionArtifact of
           Some (ExecutionArtifactObj exec las) \<Rightarrow>
             (case lookup h1 las of
                Some (RefArray linked) \<Rightarrow>
                  andThen (store_getValidArtifacts_forEach linked valid)
                    (\<lambda>_ h2. (Normal valid, h2)) h1
              | _ \<Rightarrow> (IllTyped, h1))
         | _ \<Rightarrow> (IllTyped, h1))"

text \<open>
  \<^verbatim>\<open>getValidRocCurveArtifactData\<close>. \<open>setProperty\<close> is the assignment
  \<^verbatim>\<open>fullArtifactPathMap[key] = path\<close>; the key has the form \<^verbatim>\<open>n-m\<close>.
  \<open>store_savePaths\<close> is the \<^verbatim>\<open>forEach\<close> over the valid artifacts,
  \<open>store_executionCallback\<close> the function mapped over the executions, and
  \<open>store_mapExecutions\<close> and \<open>store_mapRuns\<close> the two calls of \<^verbatim>\<open>map\<close>, which fill
  the arrays they created. \<open>flatMapDeep\<close> allocates the array of the elements of the arrays
  nested in its argument.
\<close>

definition setProperty :: "addr \<Rightarrow> string \<Rightarrow> addr \<Rightarrow> store \<Rightarrow> unit completion \<times> store" where
  "setProperty obj k v h =
     (case lookup h obj of
        Some (PathMapObj ps) \<Rightarrow>
          (Normal (),
           assign h obj
             (PathMapObj
                (if map_of ps k = None then ps @ [(k, v)]
                 else map (\<lambda>p. if fst p = k then (k, v) else p) ps)))
      | _ \<Rightarrow> (IllTyped, h))"

fun store_savePaths ::
    "ApiRunDetail \<Rightarrow> Execution \<Rightarrow> addr \<Rightarrow> addr list \<Rightarrow> store \<Rightarrow> unit completion \<times> store" where
  "store_savePaths runDetail exec pathMap [] h = (Normal (), h)"
| "store_savePaths runDetail exec pathMap (validArtifact # rest) h =
     (case lookup h validArtifact of
        Some (LinkedArtifactObj linkedArtifact) \<Rightarrow>
          (case getFullArtifactPath runDetail exec linkedArtifact of
             Inl e \<Rightarrow> (Throw e, h)
           | Inr path \<Rightarrow>
               (let (p, h1) = alloc (FullArtifactPathObj path) h
                in andThen (setProperty pathMap (getRocCurveId linkedArtifact) p)
                     (\<lambda>_. store_savePaths runDetail exec pathMap rest) h1))
      | _ \<Rightarrow> (IllTyped, h))"

definition store_executionCallback ::
    "ApiRunDetail \<Rightarrow> addr \<Rightarrow> addr \<Rightarrow> store \<Rightarrow> addr completion \<times> store" where
  "store_executionCallback runDetail pathMap executionArtifact =
     andThen (store_getValidArtifacts executionArtifact)
       (\<lambda>validArtifacts h.
          case lookup h validArtifacts of
            Some (RefArray vs) \<Rightarrow>
              (case lookup h executionArtifact of
                 Some (ExecutionArtifactObj exec las) \<Rightarrow>
                   andThen (store_savePaths runDetail exec pathMap vs)
                     (\<lambda>_ h1. (Normal validArtifacts, h1)) h
               | _ \<Rightarrow> (IllTyped, h))
          | _ \<Rightarrow> (IllTyped, h))"

fun store_mapExecutions ::
    "ApiRunDetail \<Rightarrow> addr \<Rightarrow> addr list \<Rightarrow> addr \<Rightarrow> store \<Rightarrow> unit completion \<times> store" where
  "store_mapExecutions runDetail pathMap [] result h = (Normal (), h)"
| "store_mapExecutions runDetail pathMap (ea # rest) result h =
     andThen (store_executionCallback runDetail pathMap ea)
       (\<lambda>validArtifacts.
          andThen (pushRef result validArtifacts)
            (\<lambda>_. store_mapExecutions runDetail pathMap rest result)) h"

fun store_mapRuns :: "addr \<Rightarrow> addr list \<Rightarrow> addr \<Rightarrow> store \<Rightarrow> unit completion \<times> store" where
  "store_mapRuns pathMap [] result h = (Normal (), h)"
| "store_mapRuns pathMap (ra # rest) result h =
     (case lookup h ra of
        Some (RunArtifactObj runDetail eas) \<Rightarrow>
          (case lookup h eas of
             Some (RefArray executions) \<Rightarrow>
               (let (inner, h1) = alloc (RefArray []) h
                in andThen (store_mapExecutions runDetail pathMap executions inner)
                     (\<lambda>_. andThen (pushRef result inner)
                             (\<lambda>_. store_mapRuns pathMap rest result)) h1)
           | _ \<Rightarrow> (IllTyped, h))
      | _ \<Rightarrow> (IllTyped, h))"

definition derefArray :: "store \<Rightarrow> addr \<Rightarrow> addr list option" where
  "derefArray h a = (case lookup h a of Some (RefArray rs) \<Rightarrow> Some rs | _ \<Rightarrow> None)"

fun allSome :: "'a option list \<Rightarrow> 'a list option" where
  "allSome [] = Some []"
| "allSome (x # xs) =
     (case x of
        None \<Rightarrow> None
      | Some y \<Rightarrow> (case allSome xs of None \<Rightarrow> None | Some ys \<Rightarrow> Some (y # ys)))"

definition flatMapDeep :: "addr \<Rightarrow> store \<Rightarrow> addr completion \<times> store" where
  "flatMapDeep nested h =
     (case derefArray h nested of
        None \<Rightarrow> (IllTyped, h)
      | Some perRun \<Rightarrow>
          (case allSome (map (derefArray h) perRun) of
             None \<Rightarrow> (IllTyped, h)
           | Some perExecution \<Rightarrow>
               (case allSome (map (derefArray h) (concat perExecution)) of
                  None \<Rightarrow> (IllTyped, h)
                | Some valid \<Rightarrow>
                    (let (flat, h1) = alloc (RefArray (concat valid)) h
                     in (Normal flat, h1)))))"

definition store_getValidRocCurveArtifactData ::
    "addr \<Rightarrow> store \<Rightarrow> addr completion \<times> store" where
  "store_getValidRocCurveArtifactData rocCurveRunArtifacts h =
     (let (fullArtifactPathMap, h1) = alloc (PathMapObj []) h
      in case lookup h1 rocCurveRunArtifacts of
           Some (RefArray runs) \<Rightarrow>
             (let (nested, h2) = alloc (RefArray []) h1
              in andThen (store_mapRuns fullArtifactPathMap runs nested)
                   (\<lambda>_. andThen (flatMapDeep nested)
                           (\<lambda>validLinkedArtifacts h3.
                              let (out, h4) =
                                    alloc (RocCurveArtifactDataObj validLinkedArtifacts
                                             fullArtifactPathMap) h3
                              in (Normal out, h4))) h2)
         | _ \<Rightarrow> (IllTyped, h1))"

text \<open>
  The invariant of the store functions, for a store that had \<open>n\<close> cells when the call
  began: a \<^verbatim>\<open>dataMap\<close>, a \<^verbatim>\<open>ScalarRowData\<close> and a pair of \<^verbatim>\<open>Object.entries\<close>
  allocated since refer to cells allocated since. \<open>frameOk n m\<close>: from such a store, \<open>m\<close>
  leaves the first \<open>n\<close> cells as they are and keeps the invariant.
\<close>

definition cellOk :: "nat \<Rightarrow> cell \<Rightarrow> bool" where
  "cellOk n c =
     (case c of
        DataMapObj ps \<Rightarrow> list_all (\<lambda>p. n \<le> snd p) ps
      | ScalarRowDataObj rowAddr k \<Rightarrow> n \<le> rowAddr
      | EntryArray k rd \<Rightarrow> n \<le> rd
      | _ \<Rightarrow> True)"

definition freshRefs :: "nat \<Rightarrow> store \<Rightarrow> bool" where
  "freshRefs n h = list_all (cellOk n) (drop n h)"

definition frameOk :: "nat \<Rightarrow> (store \<Rightarrow> 'a completion \<times> store) \<Rightarrow> bool" where
  "frameOk n m \<longleftrightarrow>
     (\<forall>h. n \<le> length h \<longrightarrow> freshRefs n h \<longrightarrow>
          length h \<le> length (snd (m h)) \<and> take n (snd (m h)) = take n h \<and>
          freshRefs n (snd (m h)))"

text \<open>
  A store for the examples: at address 6 the input of the specification's example, at
  address 13 a run with an artifact that has confidence metrics and one that has not.
\<close>

definition exampleStore :: store where
  "exampleStore =
     [LinkedArtifactObj (exampleArtifact [(''acc'', NumberValue 0.9)]),
      LinkedArtifactObj (exampleArtifact [(''acc'', NumberValue 0.8), (''f1'', NumberValue 0.5)]),
      RefArray [0, 1],
      ExecutionArtifactObj \<lparr> execution_id = 1, execution_displayName = None \<rparr> 2,
      RefArray [3],
      RunArtifactObj \<lparr> apiRun = Some \<lparr> run_id = Some ''42'', run_name = None \<rparr> \<rparr> 4,
      RefArray [5],
      LinkedArtifactObj (exampleArtifact [(''confidenceMetrics'', StructValue [])]),
      LinkedArtifactObj (exampleArtifact []),
      RefArray [7, 8],
      ExecutionArtifactObj \<lparr> execution_id = 1, execution_displayName = None \<rparr> 9,
      RefArray [10],
      RunArtifactObj \<lparr> apiRun = Some \<lparr> run_id = Some ''42'', run_name = None \<rparr> \<rparr> 11,
      RefArray [12]]"

section \<open>Enumerated metrics types: the label lookup\<close>

text \<open>
  C9. \<^verbatim>\<open>metricsTypeToString\<close> is total: each of the five members of \<^verbatim>\<open>MetricsType\<close>
  has its label, 'Scalar Metrics', 'Confusion Matrix', 'ROC Curve', 'HTML' and 'Markdown',
  and every value that is not a member is mapped to the empty string.
\<close>

theorem metricsTypeToString_labels:
  "metricsTypeToString SCALAR_METRICS = ''Scalar Metrics'' \<and>
   metricsTypeToString CONFUSION_MATRIX = ''Confusion Matrix'' \<and>
   metricsTypeToString ROC_CURVE = ''ROC Curve'' \<and>
   metricsTypeToString HTML = ''HTML'' \<and>
   metricsTypeToString MARKDOWN = ''Markdown'' \<and>
   (\<forall>m. m \<notin> {SCALAR_METRICS, CONFUSION_MATRIX, ROC_CURVE, HTML, MARKDOWN}
        \<longrightarrow> metricsTypeToString m = '''')"
  by (simp add: metricsTypeToString_def SCALAR_METRICS_def CONFUSION_MATRIX_def ROC_CURVE_def
      HTML_def MARKDOWN_def)

theorem metricsTypeToString_labels_witness:
  "(7::int) \<notin> {SCALAR_METRICS, CONFUSION_MATRIX, ROC_CURVE, HTML, MARKDOWN} \<and>
   metricsTypeToString 7 = ''''"
proof -
  have out: "(7::int) \<notin> {SCALAR_METRICS, CONFUSION_MATRIX, ROC_CURVE, HTML, MARKDOWN}"
    by (simp add: SCALAR_METRICS_def CONFUSION_MATRIX_def ROC_CURVE_def HTML_def MARKDOWN_def)
  with metricsTypeToString_labels show ?thesis
    by blast
qed

section \<open>Path resolver\<close>

lemma getFullArtifactPath_throws_iff:
  "getFullArtifactPath r e la = Inl TypeError \<longleftrightarrow> apiRun r = None"
  by (simp add: getFullArtifactPath_def split: option.splits)

text \<open>
  C5. \<^verbatim>\<open>getFullArtifactPath\<close> is total: for every run that carries its run entity (the
  precondition that the run object is not null), every execution and every linked artifact,
  it returns a \<^verbatim>\<open>FullArtifactPath\<close> and throws nothing.
\<close>

theorem getFullArtifactPath_total:
  assumes "apiRun r \<noteq> None"
  shows "\<exists>p. getFullArtifactPath r e la = Inr p"
  using assms by (auto simp: getFullArtifactPath_def split: option.splits)

theorem getFullArtifactPath_total_witness:
  "apiRun \<lparr> apiRun = Some \<lparr> run_id = None, run_name = None \<rparr> \<rparr> \<noteq> None \<and>
   (\<exists>p. getFullArtifactPath \<lparr> apiRun = Some \<lparr> run_id = None, run_name = None \<rparr> \<rparr>
          \<lparr> execution_id = 0, execution_displayName = None \<rparr>
          \<lparr> event = \<lparr> executionId = 0, artifactId = 0 \<rparr>,
            artifact = \<lparr> artifact_id = 0, artifact_displayName = None,
                         customProperties = [] \<rparr> \<rparr> = Inr p)"
proof -
  have h: "apiRun \<lparr> apiRun = Some \<lparr> run_id = None, run_name = None \<rparr> \<rparr> \<noteq> None"
    by simp
  from getFullArtifactPath_total [OF h] h show ?thesis
    by blast
qed

text \<open>
  C6. For the run, the execution and the artifact, the name in the resolved path is the
  entity's display name when that is present and non-empty, and otherwise the string
  \<^verbatim>\<open>"<EntityType> ID #<id>"\<close> built from the identifier; the id of the path is the
  identifier in both cases. A run with no name and id 42 resolves to "Run ID #42".
\<close>

theorem getFullArtifactPath_names:
  assumes "apiRun r = Some ar" and "run_id ar = Some rid"
  shows "\<exists>p. getFullArtifactPath r e la = Inr p \<and>
           name (path_run p) = spec_resolveName (run_name ar) ''Run'' rid \<and>
           nid (path_run p) = Some rid \<and>
           name (path_execution p) =
             spec_resolveName (execution_displayName e) ''Execution''
               (numberToString (execution_id e)) \<and>
           nid (path_execution p) = Some (numberToString (execution_id e)) \<and>
           name (path_artifact p) =
             spec_resolveName (artifact_displayName (artifact la)) ''Artifact''
               (numberToString (artifact_id (artifact la))) \<and>
           nid (path_artifact p) = Some (numberToString (artifact_id (artifact la)))"
  using assms
  by (simp add: getFullArtifactPath_def spec_resolveName_def orElse_def templateText_def
      getExecutionDisplayName_def getArtifactName_def split: option.splits)

theorem getFullArtifactPath_names_witness:
  "\<exists>p. getFullArtifactPath \<lparr> apiRun = Some \<lparr> run_id = Some ''42'', run_name = None \<rparr> \<rparr>
          \<lparr> execution_id = 7, execution_displayName = Some '''' \<rparr>
          \<lparr> event = \<lparr> executionId = 7, artifactId = 13 \<rparr>,
            artifact = \<lparr> artifact_id = 13, artifact_displayName = Some ''model'',
                         customProperties = [] \<rparr> \<rparr> = Inr p \<and>
        name (path_run p) = ''Run ID #42'' \<and> nid (path_run p) = Some ''42'' \<and>
        name (path_execution p) = ''Execution ID #7'' \<and> nid (path_execution p) = Some ''7'' \<and>
        name (path_artifact p) = ''model'' \<and> nid (path_artifact p) = Some ''13''"
proof -
  have n7: "numberToString 7 = ''7''"
    by (simp add: numberToString_def natToString.simps digitChar_def decimalDigits_def)
  have n13: "numberToString 13 = ''13''"
    by (simp add: numberToString_def natToString.simps digitChar_def decimalDigits_def)
  show ?thesis
    using getFullArtifactPath_names
      [of "\<lparr> apiRun = Some \<lparr> run_id = Some ''42'', run_name = None \<rparr> \<rparr>"
          "\<lparr> run_id = Some ''42'', run_name = None \<rparr>" "''42''"
          "\<lparr> execution_id = 7, execution_displayName = Some '''' \<rparr>"
          "\<lparr> event = \<lparr> executionId = 7, artifactId = 13 \<rparr>,
            artifact = \<lparr> artifact_id = 13, artifact_displayName = Some ''model'',
                         customProperties = [] \<rparr> \<rparr>"]
    by (simp add: spec_resolveName_def n7 n13)
qed

section \<open>Artifact validator\<close>

lemma getValidArtifacts_forEach_filter:
  "getValidArtifacts_forEach las acc = acc @ filter hasConfidenceMetricsStruct las"
proof (induction las arbitrary: acc)
  case Nil
  show ?case by simp
next
  case (Cons la las)
  have "truthy (Option.bind
            (Option.bind (map_of (customProperties (artifact la)) ''confidenceMetrics'')
               getStructValue)
            (\<lambda>s. Some (toJavaScript s))) = hasConfidenceMetricsStruct la"
    by (simp add: hasConfidenceMetricsStruct_def getStructValue_def toJavaScript_def
        split: option.splits Value.splits)
  with Cons.IH show ?case
    by (simp add: Let_def)
qed

text \<open>
  C3, as the code has it. \<^verbatim>\<open>getValidArtifacts\<close> returns, in the original order and
  without throwing, exactly the linked artifacts whose custom property
  \<^verbatim>\<open>confidenceMetrics\<close> exists and holds a struct, so that its conversion to a plain
  value is an object; an artifact whose property is the empty struct is included.
\<close>

theorem getValidArtifacts_filter:
  "getValidArtifacts ea = filter hasConfidenceMetricsStruct (linkedArtifacts ea)"
  by (simp add: getValidArtifacts_def getValidArtifacts_forEach_filter)

text \<open>
  C3, as the claim has it, fails: an artifact whose property \<^verbatim>\<open>confidenceMetrics\<close> is
  the number 0 is not returned.
\<close>

theorem getValidArtifacts_zero_excluded:
  "map_of (customProperties (artifact
      \<lparr> event = \<lparr> executionId = 1, artifactId = 2 \<rparr>,
        artifact = \<lparr> artifact_id = 2, artifact_displayName = None,
                     customProperties = [(''confidenceMetrics'', NumberValue 0)] \<rparr> \<rparr>))
     ''confidenceMetrics'' = Some (NumberValue 0) \<and>
   getValidArtifacts
     \<lparr> execution = \<lparr> execution_id = 1, execution_displayName = None \<rparr>,
       linkedArtifacts =
         [\<lparr> event = \<lparr> executionId = 1, artifactId = 2 \<rparr>,
           artifact = \<lparr> artifact_id = 2, artifact_displayName = None,
                        customProperties = [(''confidenceMetrics'', NumberValue 0)] \<rparr> \<rparr>] \<rparr>
     = []"
  by (simp add: getValidArtifacts_def getStructValue_def)

section \<open>Scalar aggregator\<close>

lemma aggregateArtifacts_append:
  "aggregateArtifacts st (xs @ ys) dm i cnt =
     (case aggregateArtifacts st xs dm i cnt of
        Inl e \<Rightarrow> Inl e
      | Inr dm' \<Rightarrow> aggregateArtifacts st ys dm' (i + length xs) cnt)"
  by (induction xs arbitrary: dm i) (auto split: sum.splits)

lemma loadLinkedArtifacts_aggregate:
  "loadLinkedArtifacts st t las xl dm i cnt =
     (case aggregateArtifacts st las dm i cnt of
        Inl e \<Rightarrow> Inl e
      | Inr dm' \<Rightarrow>
          Inr (xl @ map (xLabelOf t) las, dm', i + length las))"
  by (induction las arbitrary: xl dm i) (auto simp: Let_def xLabelOf_def split: sum.splits)

lemma loadScalarExecutionArtifacts_aggregate:
  "loadScalarExecutionArtifacts st eas xl dm i cnt =
     (case aggregateArtifacts st (concat (map linkedArtifacts eas)) dm i cnt of
        Inl e \<Rightarrow> Inl e
      | Inr dm' \<Rightarrow>
          Inr (xl @ concat (map executionLabels eas), dm',
               i + length (concat (map linkedArtifacts eas))))"
proof (induction eas arbitrary: xl dm i)
  case Nil
  show ?case by simp
next
  case (Cons ea eas)
  have head: "map (xLabelOf (orElse (getExecutionDisplayName (execution ea)) ''-''))
                (linkedArtifacts ea) = executionLabels ea"
    by (simp add: executionLabels_def)
  show ?case
    by (simp add: Let_def loadLinkedArtifacts_aggregate aggregateArtifacts_append Cons.IH
        head add.assoc split: sum.splits)
qed

lemma getScalarTableData_runs_aggregate:
  "getScalarTableData_runs st ras xl xpl dm i cnt =
     (case aggregateArtifacts st (allLinkedArtifacts ras) dm i cnt of
        Inl e \<Rightarrow> Inl e
      | Inr dm' \<Rightarrow>
          Inr \<lparr> xLabels = xl @ concat (map runLabels ras),
                xParentLabels = xpl @ map runParentLabel ras,
                dataMap = dm' \<rparr>)"
proof (induction ras arbitrary: xl xpl dm i)
  case Nil
  show ?case by (simp add: allLinkedArtifacts_def)
next
  case (Cons ra ras)
  have split_all: "allLinkedArtifacts (ra # ras) = runLinkedArtifacts ra @ allLinkedArtifacts ras"
    by (simp add: allLinkedArtifacts_def)
  have head: "concat (map linkedArtifacts (executionArtifacts ra)) = runLinkedArtifacts ra"
    "concat (map executionLabels (executionArtifacts ra)) = runLabels ra"
    by (simp_all add: runLinkedArtifacts_def runLabels_def)
  have lab: "\<lparr> label = orElse (Option.bind (apiRun (run ra)) run_name) ''-'',
               colSpan = int (length (runLinkedArtifacts ra)) \<rparr> = runParentLabel ra"
    by (simp add: runParentLabel_def)
  show ?case
    by (simp add: Let_def loadScalarExecutionArtifacts_aggregate aggregateArtifacts_append
        Cons.IH split_all head lab split: sum.splits)
qed

lemma getScalarTableData_aggregate:
  "getScalarTableData st ras cnt =
     (case aggregateArtifacts st (allLinkedArtifacts ras) [] 0 cnt of
        Inl e \<Rightarrow> Inl e
      | Inr dm' \<Rightarrow>
          Inr \<lparr> xLabels = concat (map runLabels ras),
                xParentLabels = map runParentLabel ras,
                dataMap = dm' \<rparr>)"
  by (simp add: getScalarTableData_def getScalarTableData_runs_aggregate split: sum.splits)

lemma length_runLabels: "length (runLabels ra) = length (runLinkedArtifacts ra)"
  by (simp add: runLabels_def runLinkedArtifacts_def executionLabels_def length_concat comp_def)

lemma length_allLabels:
  "length (concat (map runLabels ras)) = length (allLinkedArtifacts ras)"
  by (induction ras) (simp_all add: allLinkedArtifacts_def length_runLabels)

lemma sum_colSpan:
  "sum_list (map (colSpan \<circ> runParentLabel) ras) = int (length (allLinkedArtifacts ras))"
  by (induction ras) (simp_all add: allLinkedArtifacts_def runParentLabel_def)

subsection \<open>updateEntry\<close>

lemma map_fst_updateEntry [simp]: "map fst (updateEntry m k f) = map fst m"
  by (induction m k f rule: updateEntry.induct) auto

lemma updateEntry_twice: "updateEntry (updateEntry m k f) k g = updateEntry m k (g \<circ> f)"
  by (induction m k f rule: updateEntry.induct) auto

lemma updateEntry_absent: "k \<notin> fst ` set m \<Longrightarrow> updateEntry m k f = m"
  by (induction m k f rule: updateEntry.induct) auto

lemma updateEntry_append:
  "updateEntry (m @ m') k f =
     (if k \<in> fst ` set m then updateEntry m k f @ m' else m @ updateEntry m' k f)"
  by (induction m k f rule: updateEntry.induct) auto

lemma set_updateEntry:
  "(k', d') \<in> set (updateEntry m k f) \<Longrightarrow>
     (k', d') \<in> set m \<or> (k' = k \<and> (\<exists>d. (k, d) \<in> set m \<and> d' = f d))"
  by (induction m k f rule: updateEntry.induct) (auto split: if_splits)

subsection \<open>One item\<close>

lemma addScalarDataItem_Inr:
  assumes "addScalarDataItem st props k dm i cnt = Inr dm'"
  shows "dm' =
     (if k \<in> fst ` set dm then updateEntry dm k (bumpRow i (st (map_of props k)))
      else dm @ [(k, bumpRow i (st (map_of props k))
                      \<lparr> row = replicate (nat cnt) (Some []), dataCount = 0 \<rparr>)])"
    and "k \<in> fst ` set dm \<or> (k \<notin> set objectPrototypeKeys \<and> 0 \<le> cnt \<and> cnt < 2 ^ 32)"
proof -
  have comp: "(\<lambda>d. d\<lparr> dataCount := Suc (dataCount d) \<rparr>) \<circ>
              (\<lambda>d. d\<lparr> row := setCell (row d) i (st (map_of props k)) \<rparr>)
              = bumpRow i (st (map_of props k))"
    by (rule ext) (simp add: bumpRow_def)
  show "dm' =
     (if k \<in> fst ` set dm then updateEntry dm k (bumpRow i (st (map_of props k)))
      else dm @ [(k, bumpRow i (st (map_of props k))
                      \<lparr> row = replicate (nat cnt) (Some []), dataCount = 0 \<rparr>)])"
  proof (cases "k \<in> fst ` set dm")
    case True
    then have "map_of dm k \<noteq> None"
      by (simp add: map_of_eq_None_iff)
    with assms True show ?thesis
      by (auto simp: addScalarDataItem_def updateEntry_twice comp split: option.splits)
  next
    case False
    then have none: "map_of dm k = None"
      by (simp add: map_of_eq_None_iff)
    with assms False show ?thesis
      by (auto simp: addScalarDataItem_def newRow_def updateEntry_twice comp updateEntry_append
          bumpRow_def split: option.splits if_splits)
  qed
  show "k \<in> fst ` set dm \<or> (k \<notin> set objectPrototypeKeys \<and> 0 \<le> cnt \<and> cnt < 2 ^ 32)"
  proof (cases "k \<in> fst ` set dm")
    case True
    then show ?thesis by simp
  next
    case False
    then have none: "map_of dm k = None"
      by (simp add: map_of_eq_None_iff)
    with assms show ?thesis
      by (auto simp: addScalarDataItem_def newRow_def split: option.splits if_splits)
  qed
qed

lemma addScalarDataItem_succeeds:
  assumes "k \<in> fst ` set dm \<or> (k \<notin> set objectPrototypeKeys \<and> 0 \<le> cnt \<and> cnt < 2 ^ 32)"
  shows "\<exists>dm'. addScalarDataItem st props k dm i cnt = Inr dm'"
proof (cases "k \<in> fst ` set dm")
  case True
  then have "map_of dm k \<noteq> None"
    by (simp add: map_of_eq_None_iff)
  then show ?thesis
    by (auto simp: addScalarDataItem_def split: option.splits)
next
  case False
  then have "map_of dm k = None"
    by (simp add: map_of_eq_None_iff)
  with False assms show ?thesis
    by (auto simp: addScalarDataItem_def newRow_def split: option.splits)
qed

subsection \<open>Keys\<close>

lemma addScalarDataItem_keys:
  assumes "addScalarDataItem st props k dm i cnt = Inr dm'"
  shows "map fst dm' = insertKey (map fst dm) k"
  using addScalarDataItem_Inr(1) [OF assms] by (simp add: insertKey_def)

lemma addScalarDataItems_entries_keys:
  assumes "addScalarDataItems_entries st props es dm i cnt = Inr dm'"
  shows "map fst dm' =
           foldl insertKey (map fst dm) (filter (\<lambda>k. k \<noteq> ''display_name'') (map fst es))"
  using assms
proof (induction es arbitrary: dm)
  case Nil
  then show ?case by simp
next
  case (Cons e es)
  show ?case
  proof (cases "fst e = ''display_name''")
    case True
    with Cons show ?thesis by (simp add: Let_def)
  next
    case False
    with Cons.prems obtain dm1 where
      one: "addScalarDataItem st props (fst e) dm i cnt = Inr dm1" and
      rest: "addScalarDataItems_entries st props es dm1 i cnt = Inr dm'"
      by (auto simp: Let_def split: sum.splits)
    from Cons.IH [OF rest] addScalarDataItem_keys [OF one] False show ?thesis
      by simp
  qed
qed

lemma aggregateArtifacts_keys:
  assumes "aggregateArtifacts st las dm i cnt = Inr dm'"
  shows "map fst dm' = foldl insertKey (map fst dm) (concat (map artifactMetricNames las))"
  using assms
proof (induction las arbitrary: dm i)
  case Nil
  then show ?case by simp
next
  case (Cons la las)
  from Cons.prems obtain dm1 where
    one: "addScalarDataItems st (customProperties (artifact la)) dm i cnt = Inr dm1" and
    rest: "aggregateArtifacts st las dm1 (Suc i) cnt = Inr dm'"
    by (auto split: sum.splits)
  from one have "map fst dm1 = foldl insertKey (map fst dm) (artifactMetricNames la)"
    by (simp add: addScalarDataItems_def addScalarDataItems_entries_keys
        artifactMetricNames_def)
  with Cons.IH [OF rest] show ?case
    by simp
qed

lemma foldl_insertKey:
  "foldl insertKey ks xs = ks @ filter (\<lambda>x. x \<notin> set ks) (firstSeen xs)"
proof (induction xs arbitrary: ks)
  case Nil
  show ?case by simp
next
  case (Cons x xs)
  show ?case
  proof (cases "x \<in> set ks")
    case True
    then have "filter (\<lambda>y. y \<notin> set ks) (filter (\<lambda>y. y \<noteq> x) (firstSeen xs))
             = filter (\<lambda>y. y \<notin> set ks) (firstSeen xs)"
      by (auto intro: filter_cong)
    moreover from True have "insertKey ks x = ks"
      by (simp add: insertKey_def)
    ultimately show ?thesis
      using True by (simp add: Cons.IH)
  next
    case False
    have "filter (\<lambda>y. y \<noteq> x \<and> y \<notin> set ks) (firstSeen xs)
        = filter (\<lambda>y. y \<notin> set ks) (filter (\<lambda>y. y \<noteq> x) (firstSeen xs))"
      by (auto intro: filter_cong)
    moreover from False have "insertKey ks x = ks @ [x]"
      by (simp add: insertKey_def)
    ultimately show ?thesis
      using False by (simp add: Cons.IH)
  qed
qed

lemma set_firstSeen [simp]: "set (firstSeen xs) = set xs"
  by (induction xs) auto

lemma distinct_firstSeen [simp]: "distinct (firstSeen xs)"
  by (induction xs) auto

subsection \<open>Rows\<close>

lemma nonEmptyCells_replicate [simp]: "nonEmptyCells (replicate n (Some [])) = 0"
  by (simp add: nonEmptyCells_def nonEmptyCell_def)

lemma rowOk_mono: "rowOk i d \<Longrightarrow> i \<le> j \<Longrightarrow> rowOk j d"
  by (auto simp: rowOk_def)

lemma rowOk_new: "rowOk i \<lparr> row = replicate n (Some []), dataCount = 0 \<rparr>"
  by (simp add: rowOk_def nonEmptyCell_def)

lemma nonEmptyCells_setCell:
  assumes "\<forall>j. i \<le> j \<longrightarrow> j < length r \<longrightarrow> \<not> nonEmptyCell (r ! j)" and "s \<noteq> []"
  shows "nonEmptyCells (setCell r i s) = Suc (nonEmptyCells r)"
proof (cases "i < length r")
  case True
  then have r: "r = take i r @ r ! i # drop (Suc i) r"
    by (simp add: id_take_nth_drop)
  from True have u: "r[i := Some s] = take i r @ Some s # drop (Suc i) r"
    by (simp add: upd_conv_take_nth_drop)
  from assms True have e: "\<not> nonEmptyCell (r ! i)"
    by simp
  have "nonEmptyCells r
      = length (filter nonEmptyCell (take i r @ r ! i # drop (Suc i) r))"
    using r by (simp add: nonEmptyCells_def)
  with e have "nonEmptyCells r
      = length (filter nonEmptyCell (take i r)) + length (filter nonEmptyCell (drop (Suc i) r))"
    by simp
  moreover have "nonEmptyCells (setCell r i s)
      = length (filter nonEmptyCell (take i r)) + 1
        + length (filter nonEmptyCell (drop (Suc i) r))"
    using True assms(2) by (simp add: setCell_def u nonEmptyCells_def nonEmptyCell_def)
  ultimately show ?thesis by simp
next
  case False
  with assms(2) show ?thesis
    by (simp add: setCell_def nonEmptyCells_def nonEmptyCell_def)
qed

lemma setCell_later:
  assumes "\<forall>j. i \<le> j \<longrightarrow> j < length r \<longrightarrow> \<not> nonEmptyCell (r ! j)"
    and "Suc i \<le> j" and "j < length (setCell r i s)"
  shows "\<not> nonEmptyCell (setCell r i s ! j)"
proof (cases "i < length r")
  case True
  with assms show ?thesis
    by (simp add: setCell_def)
next
  case False
  with assms show ?thesis
    by (simp add: setCell_def)
qed

lemma rowOk_bump:
  assumes "rowOk i d" and "s \<noteq> []"
  shows "rowOk (Suc i) (bumpRow i s d)"
  using assms
  by (simp add: rowOk_def bumpRow_def nonEmptyCells_setCell setCell_later)

lemma length_setCell: "i < length r \<Longrightarrow> length (setCell r i s) = length r"
  by (simp add: setCell_def)

lemma length_setCell_ge: "length r \<le> length (setCell r i s)"
  by (simp add: setCell_def)

subsection \<open>Invariants of the loops\<close>

lemma addScalarDataItems_entries_rowOk:
  assumes "distinct (map fst es)" and "\<forall>v. st v \<noteq> []"
    and "\<forall>(k, d) \<in> set dm. if k \<in> fst ` set es then rowOk i d else rowOk (Suc i) d"
    and "addScalarDataItems_entries st props es dm i cnt = Inr dm'"
  shows "\<forall>(k, d) \<in> set dm'. rowOk (Suc i) d"
  using assms
proof (induction es arbitrary: dm)
  case Nil
  then show ?case by simp
next
  case (Cons e es)
  have weaken: "rowOk (Suc i) d" if "(k, d) \<in> set dm" for k d
  proof -
    from Cons.prems(3) that have "rowOk i d \<or> rowOk (Suc i) d"
      by (auto split: if_splits)
    then show ?thesis
      using rowOk_mono [of i d "Suc i"] by auto
  qed
  have keep: "rowOk i d" if "(k, d) \<in> set dm" and "k \<in> fst ` set (e # es)" for k d
    using Cons.prems(3) that by (auto split: if_splits)
  show ?case
  proof (cases "fst e = ''display_name''")
    case True
    have inv: "\<forall>(k, d) \<in> set dm. if k \<in> fst ` set es then rowOk i d else rowOk (Suc i) d"
      using keep weaken by auto
    from True Cons.prems(4) have "addScalarDataItems_entries st props es dm i cnt = Inr dm'"
      by (simp add: Let_def)
    with Cons.IH [OF _ Cons.prems(2) inv] Cons.prems(1) show ?thesis
      by simp
  next
    case False
    with Cons.prems(4) obtain dm1 where
      one: "addScalarDataItem st props (fst e) dm i cnt = Inr dm1" and
      rest: "addScalarDataItems_entries st props es dm1 i cnt = Inr dm'"
      by (auto simp: Let_def split: sum.splits)
    from Cons.prems(1) have fresh: "fst e \<notin> fst ` set es"
      by auto
    let ?s = "st (map_of props (fst e))"
    from Cons.prems(2) have s: "?s \<noteq> []"
      by simp
    have inv: "\<forall>(k, d) \<in> set dm1. if k \<in> fst ` set es then rowOk i d else rowOk (Suc i) d"
    proof (cases "fst e \<in> fst ` set dm")
      case True
      with addScalarDataItem_Inr(1) [OF one]
      have dm1: "dm1 = updateEntry dm (fst e) (bumpRow i ?s)"
        by simp
      show ?thesis
      proof (clarify)
        fix k d
        assume mem: "(k, d) \<in> set dm1"
        from set_updateEntry [OF mem [unfolded dm1]]
        consider (old) "(k, d) \<in> set dm"
          | (new) d0 where "k = fst e" and "(fst e, d0) \<in> set dm" and "d = bumpRow i ?s d0"
          by auto
        then show "if k \<in> fst ` set es then rowOk i d else rowOk (Suc i) d"
        proof cases
          case old
          then show ?thesis
            using keep [of k d] weaken [of k d] by auto
        next
          case new
          from keep [OF new(2)] have "rowOk i d0"
            by simp
          from rowOk_bump [OF this s] new fresh show ?thesis
            by simp
        qed
      qed
    next
      case False
      with addScalarDataItem_Inr(1) [OF one]
      have dm1: "dm1 = dm @ [(fst e, bumpRow i ?s
                   \<lparr> row = replicate (nat cnt) (Some []), dataCount = 0 \<rparr>)]"
        by simp
      have "rowOk (Suc i) (bumpRow i ?s \<lparr> row = replicate (nat cnt) (Some []), dataCount = 0 \<rparr>)"
        by (rule rowOk_bump [OF rowOk_new s])
      with fresh show ?thesis
        unfolding dm1 using keep weaken by auto
    qed
    from Cons.IH [OF _ Cons.prems(2) inv rest] Cons.prems(1) show ?thesis
      by simp
  qed
qed

lemma aggregateArtifacts_rowOk:
  assumes "\<forall>la \<in> set las. distinct (map fst (customProperties (artifact la)))"
    and "\<forall>v. st v \<noteq> []"
    and "\<forall>(k, d) \<in> set dm. rowOk i d"
    and "aggregateArtifacts st las dm i cnt = Inr dm'"
  shows "\<forall>(k, d) \<in> set dm'. rowOk (i + length las) d"
  using assms
proof (induction las arbitrary: dm i)
  case Nil
  then show ?case by simp
next
  case (Cons la las)
  from Cons.prems(4) obtain dm1 where
    one: "addScalarDataItems_entries st (customProperties (artifact la))
            (customProperties (artifact la)) dm i cnt = Inr dm1" and
    rest: "aggregateArtifacts st las dm1 (Suc i) cnt = Inr dm'"
    by (auto simp: addScalarDataItems_def split: sum.splits)
  from Cons.prems(3)
  have start: "\<forall>(k, d) \<in> set dm.
      if k \<in> fst ` set (customProperties (artifact la)) then rowOk i d else rowOk (Suc i) d"
    using rowOk_mono [of i _ "Suc i"] by auto
  from Cons.prems(1) have "distinct (map fst (customProperties (artifact la)))"
    by simp
  from addScalarDataItems_entries_rowOk [OF this Cons.prems(2) start one]
  have "\<forall>(k, d) \<in> set dm1. rowOk (Suc i) d" .
  from Cons.IH [OF _ Cons.prems(2) this rest] Cons.prems(1) show ?case
    by simp
qed

lemma addScalarDataItems_entries_length:
  assumes "i < nat cnt"
    and "\<forall>(k, d) \<in> set dm. length (row d) = nat cnt"
    and "addScalarDataItems_entries st props es dm i cnt = Inr dm'"
  shows "\<forall>(k, d) \<in> set dm'. length (row d) = nat cnt"
  using assms
proof (induction es arbitrary: dm)
  case Nil
  then show ?case by simp
next
  case (Cons e es)
  show ?case
  proof (cases "fst e = ''display_name''")
    case True
    with Cons show ?thesis by (simp add: Let_def)
  next
    case False
    with Cons.prems(3) obtain dm1 where
      one: "addScalarDataItem st props (fst e) dm i cnt = Inr dm1" and
      rest: "addScalarDataItems_entries st props es dm1 i cnt = Inr dm'"
      by (auto simp: Let_def split: sum.splits)
    have "\<forall>(k, d) \<in> set dm1. length (row d) = nat cnt"
    proof (clarify)
      fix k d
      assume mem: "(k, d) \<in> set dm1"
      show "length (row d) = nat cnt"
      proof (cases "fst e \<in> fst ` set dm")
        case True
        with addScalarDataItem_Inr(1) [OF one] mem
        have "(k, d) \<in> set (updateEntry dm (fst e) (bumpRow i (st (map_of props (fst e)))))"
          by simp
        from set_updateEntry [OF this] Cons.prems(1,2) show ?thesis
          by (auto simp: bumpRow_def length_setCell)
      next
        case False
        with addScalarDataItem_Inr(1) [OF one] mem Cons.prems(1,2) show ?thesis
          by (auto simp: bumpRow_def length_setCell)
      qed
    qed
    from Cons.IH [OF Cons.prems(1) this rest] show ?thesis .
  qed
qed

lemma aggregateArtifacts_length:
  assumes "i + length las \<le> nat cnt"
    and "\<forall>(k, d) \<in> set dm. length (row d) = nat cnt"
    and "aggregateArtifacts st las dm i cnt = Inr dm'"
  shows "\<forall>(k, d) \<in> set dm'. length (row d) = nat cnt"
  using assms
proof (induction las arbitrary: dm i)
  case Nil
  then show ?case by simp
next
  case (Cons la las)
  from Cons.prems(3) obtain dm1 where
    one: "addScalarDataItems_entries st (customProperties (artifact la))
            (customProperties (artifact la)) dm i cnt = Inr dm1" and
    rest: "aggregateArtifacts st las dm1 (Suc i) cnt = Inr dm'"
    by (auto simp: addScalarDataItems_def split: sum.splits)
  from Cons.prems(1) have "i < nat cnt"
    by simp
  from addScalarDataItems_entries_length [OF this Cons.prems(2) one]
  have "\<forall>(k, d) \<in> set dm1. length (row d) = nat cnt" .
  from Cons.IH [OF _ this rest] Cons.prems(1) show ?case
    by simp
qed

lemma getScalarTableData_keys:
  assumes "getScalarTableData st ras cnt = Inr t"
  shows "map fst (dataMap t) = firstSeen (metricNames ras)"
proof -
  from assms obtain dm where
    agg: "aggregateArtifacts st (allLinkedArtifacts ras) [] 0 cnt = Inr dm" and
    t: "dataMap t = dm"
    by (auto simp: getScalarTableData_aggregate split: sum.splits)
  from aggregateArtifacts_keys [OF agg] t show ?thesis
    by (simp add: foldl_insertKey metricNames_def)
qed

lemmas example_defs =
  exampleStringify_def exampleArtifact_def exampleRun_def getScalarTableData_def
  addScalarDataItems_def addScalarDataItem_def newRow_def setCell_def objectPrototypeKeys_def
  orElse_def getExecutionDisplayName_def getArtifactName_def Let_def eval_nat_numeral

lemma exampleStringify_nonempty: "\<forall>v. exampleStringify v \<noteq> []"
  by (simp add: exampleStringify_def split: option.splits Value.splits)

lemma example_accuracy_table:
  "getScalarTableData exampleStringify
     [exampleRun [exampleArtifact [(''acc'', NumberValue 0.9)],
                  exampleArtifact [(''acc'', NumberValue 0.8), (''f1'', NumberValue 0.5)]]] 2
   = Inr \<lparr> xLabels = [''- > -'', ''- > -''],
           xParentLabels = [\<lparr> label = ''-'', colSpan = 2 \<rparr>],
           dataMap = [(''acc'', \<lparr> row = [Some ''0.9'', Some ''0.8''], dataCount = 2 \<rparr>),
                      (''f1'', \<lparr> row = [Some [], Some ''0.5''], dataCount = 1 \<rparr>)] \<rparr>"
  by (simp add: example_defs)

lemma example_holes_table:
  "getScalarTableData exampleStringify
     [exampleRun [exampleArtifact [(''acc'', NumberValue 0.9)],
                  exampleArtifact [(''acc'', NumberValue 0.8), (''f1'', NumberValue 0.5)]]] 0
   = Inr \<lparr> xLabels = [''- > -'', ''- > -''],
           xParentLabels = [\<lparr> label = ''-'', colSpan = 2 \<rparr>],
           dataMap = [(''acc'', \<lparr> row = [Some ''0.9'', Some ''0.8''], dataCount = 2 \<rparr>),
                      (''f1'', \<lparr> row = [None, Some ''0.5''], dataCount = 1 \<rparr>)] \<rparr>"
  by (simp add: example_defs)

lemma example_display_name_table:
  "getScalarTableData exampleStringify
     [exampleRun [exampleArtifact [(''display_name'', StringValue ''foo''),
                                   (''metric'', NumberValue 1)]]] 1
   = Inr \<lparr> xLabels = [''- > -''],
           xParentLabels = [\<lparr> label = ''-'', colSpan = 1 \<rparr>],
           dataMap = [(''metric'', \<lparr> row = [Some ''1''], dataCount = 1 \<rparr>)] \<rparr>"
  by (simp add: example_defs)

text \<open>
  C1, as the code has it. For every table that the aggregator returns, the sum of the
  \<^verbatim>\<open>colSpan\<close> of the parent labels is the number of column labels, which is the number
  of linked artifacts of the input; and when \<^verbatim>\<open>artifactCount\<close> is that number, every row
  of \<^verbatim>\<open>dataMap\<close> has that length.
\<close>

theorem getScalarTableData_shape:
  assumes "getScalarTableData st ras cnt = Inr t"
  shows "sum_list (map colSpan (xParentLabels t)) = int (length (xLabels t)) \<and>
         length (xLabels t) = length (allLinkedArtifacts ras) \<and>
         (cnt = int (length (allLinkedArtifacts ras)) \<longrightarrow>
            (\<forall>(k, d) \<in> set (dataMap t). length (row d) = length (xLabels t)))"
proof -
  from assms obtain dm where
    agg: "aggregateArtifacts st (allLinkedArtifacts ras) [] 0 cnt = Inr dm" and
    t: "t = \<lparr> xLabels = concat (map runLabels ras), xParentLabels = map runParentLabel ras,
              dataMap = dm \<rparr>"
    by (auto simp: getScalarTableData_aggregate split: sum.splits)
  have labels: "length (xLabels t) = length (allLinkedArtifacts ras)"
    by (simp add: t length_allLabels)
  have spans: "sum_list (map colSpan (xParentLabels t)) = int (length (xLabels t))"
    unfolding labels by (simp add: t sum_colSpan)
  have rows: "\<forall>(k, d) \<in> set (dataMap t). length (row d) = length (xLabels t)"
    if "cnt = int (length (allLinkedArtifacts ras))"
  proof -
    from that have "0 + length (allLinkedArtifacts ras) \<le> nat cnt"
      by simp
    from aggregateArtifacts_length [OF this _ agg] that labels show ?thesis
      by (simp add: t)
  qed
  from labels spans rows show ?thesis
    by blast
qed

theorem getScalarTableData_shape_witness:
  "getScalarTableData exampleStringify
     [exampleRun [exampleArtifact [(''acc'', NumberValue 0.9)],
                  exampleArtifact [(''acc'', NumberValue 0.8), (''f1'', NumberValue 0.5)]]] 2
   = Inr \<lparr> xLabels = [''- > -'', ''- > -''],
           xParentLabels = [\<lparr> label = ''-'', colSpan = 2 \<rparr>],
           dataMap = [(''acc'', \<lparr> row = [Some ''0.9'', Some ''0.8''], dataCount = 2 \<rparr>),
                      (''f1'', \<lparr> row = [Some [], Some ''0.5''], dataCount = 1 \<rparr>)] \<rparr> \<and>
   (2::int) = int (length (allLinkedArtifacts
     [exampleRun [exampleArtifact [(''acc'', NumberValue 0.9)],
                  exampleArtifact [(''acc'', NumberValue 0.8), (''f1'', NumberValue 0.5)]]])) \<and>
   sum_list (map colSpan [\<lparr> label = ''-'', colSpan = 2 \<rparr>]) = int (length [''- > -'', ''- > -'']) \<and>
   list_all (\<lambda>(k, d). length (row d) = length [''- > -'', ''- > -''])
     [(''acc'', \<lparr> row = [Some ''0.9'', Some ''0.8''], dataCount = 2 \<rparr>),
      (''f1'', \<lparr> row = [Some [], Some ''0.5''], dataCount = 1 \<rparr>)]"
proof -
  have total: "(2::int) = int (length (allLinkedArtifacts
     [exampleRun [exampleArtifact [(''acc'', NumberValue 0.9)],
                  exampleArtifact [(''acc'', NumberValue 0.8), (''f1'', NumberValue 0.5)]]]))"
    by (simp add: allLinkedArtifacts_def runLinkedArtifacts_def exampleRun_def)
  from getScalarTableData_shape [OF example_accuracy_table] total example_accuracy_table
  show ?thesis
    by (simp add: list_all_iff)
qed

text \<open>
  C1, as the claim has it for every \<^verbatim>\<open>artifactCount\<close>, fails: with one artifact and
  \<^verbatim>\<open>artifactCount\<close> 5 the row has five cells and there is one column label.
\<close>

theorem getScalarTableData_row_length_counterexample:
  "getScalarTableData exampleStringify [exampleRun [exampleArtifact [(''m'', NumberValue 1)]]] 5
   = Inr \<lparr> xLabels = [''- > -''],
           xParentLabels = [\<lparr> label = ''-'', colSpan = 1 \<rparr>],
           dataMap = [(''m'', \<lparr> row = [Some ''1'', Some [], Some [], Some [], Some []],
                                 dataCount = 1 \<rparr>)] \<rparr> \<and>
   length [Some ''1'', Some [], Some [], Some [], Some ([]::string)] \<noteq> length [''- > -'']"
  by (simp add: example_defs)

text \<open>
  C7. In every table that the aggregator returns, the \<^verbatim>\<open>dataCount\<close> of an entry of
  \<^verbatim>\<open>dataMap\<close> is the number of non-empty cells of its row. The custom properties are
  those of a \<^verbatim>\<open>jspb.Map\<close>, with each key once, and \<^verbatim>\<open>JSON.stringify\<close> never returns
  the empty string.
\<close>

theorem getScalarTableData_dataCount:
  assumes "getScalarTableData st ras cnt = Inr t"
    and "distinctPropertyKeys ras"
    and "\<forall>v. st v \<noteq> []"
  shows "\<forall>(k, d) \<in> set (dataMap t). dataCount d = nonEmptyCells (row d)"
proof -
  from assms(1) obtain dm where
    agg: "aggregateArtifacts st (allLinkedArtifacts ras) [] 0 cnt = Inr dm" and
    t: "dataMap t = dm"
    by (auto simp: getScalarTableData_aggregate split: sum.splits)
  from assms(2)
  have "\<forall>la \<in> set (allLinkedArtifacts ras). distinct (map fst (customProperties (artifact la)))"
    by (simp add: distinctPropertyKeys_def list_all_iff)
  from aggregateArtifacts_rowOk [OF this assms(3) _ agg] t show ?thesis
    by (auto simp: rowOk_def)
qed

theorem getScalarTableData_dataCount_witness:
  "getScalarTableData exampleStringify
     [exampleRun [exampleArtifact [(''acc'', NumberValue 0.9)],
                  exampleArtifact [(''acc'', NumberValue 0.8), (''f1'', NumberValue 0.5)]]] 0
   = Inr \<lparr> xLabels = [''- > -'', ''- > -''],
           xParentLabels = [\<lparr> label = ''-'', colSpan = 2 \<rparr>],
           dataMap = [(''acc'', \<lparr> row = [Some ''0.9'', Some ''0.8''], dataCount = 2 \<rparr>),
                      (''f1'', \<lparr> row = [None, Some ''0.5''], dataCount = 1 \<rparr>)] \<rparr> \<and>
   distinctPropertyKeys
     [exampleRun [exampleArtifact [(''acc'', NumberValue 0.9)],
                  exampleArtifact [(''acc'', NumberValue 0.8), (''f1'', NumberValue 0.5)]]] \<and>
   list_all (\<lambda>(k, d). dataCount d = nonEmptyCells (row d))
     [(''acc'', \<lparr> row = [Some ''0.9'', Some ''0.8''], dataCount = 2 \<rparr>),
      (''f1'', \<lparr> row = [None, Some ''0.5''], dataCount = 1 \<rparr>)]"
proof -
  have keys: "distinctPropertyKeys
     [exampleRun [exampleArtifact [(''acc'', NumberValue 0.9)],
                  exampleArtifact [(''acc'', NumberValue 0.8), (''f1'', NumberValue 0.5)]]]"
    by (simp add: distinctPropertyKeys_def allLinkedArtifacts_def runLinkedArtifacts_def
        exampleRun_def exampleArtifact_def)
  from getScalarTableData_dataCount [OF example_holes_table keys exampleStringify_nonempty]
    keys example_holes_table
  show ?thesis
    by (simp add: list_all_iff)
qed

text \<open>
  C8. The reserved key \<^verbatim>\<open>display_name\<close> is never a key of the \<^verbatim>\<open>dataMap\<close> that the
  aggregator returns; an artifact with the properties \<^verbatim>\<open>{display_name: 'foo', metric: 1}\<close>
  gives a \<^verbatim>\<open>dataMap\<close> with the only key \<^verbatim>\<open>metric\<close>.
\<close>

theorem getScalarTableData_no_display_name:
  assumes "getScalarTableData st ras cnt = Inr t"
  shows "''display_name'' \<notin> fst ` set (dataMap t)"
proof -
  have "''display_name'' \<notin> set (metricNames ras)"
    by (auto simp: metricNames_def artifactMetricNames_def)
  moreover have "fst ` set (dataMap t) = set (map fst (dataMap t))"
    by simp
  ultimately show ?thesis
    unfolding getScalarTableData_keys [OF assms] by simp
qed

theorem getScalarTableData_no_display_name_witness:
  "getScalarTableData exampleStringify
     [exampleRun [exampleArtifact [(''display_name'', StringValue ''foo''),
                                   (''metric'', NumberValue 1)]]] 1
   = Inr \<lparr> xLabels = [''- > -''],
           xParentLabels = [\<lparr> label = ''-'', colSpan = 1 \<rparr>],
           dataMap = [(''metric'', \<lparr> row = [Some ''1''], dataCount = 1 \<rparr>)] \<rparr> \<and>
   ''display_name'' \<notin> fst ` set [(''metric'', \<lparr> row = [Some ''1''], dataCount = 1 \<rparr>)]"
  using getScalarTableData_no_display_name [OF example_display_name_table]
    example_display_name_table
  by simp

section \<open>Table assembler\<close>

lemma insertWith_insort_key:
  "insertWith (\<lambda>a b. int (dataCount (snd b)) - int (dataCount (snd a))) x ys
     = insort_key (\<lambda>e. - int (dataCount (snd e))) x ys"
  by (induction ys) auto

lemma sortWith_sort_key:
  "sortWith (\<lambda>a b. int (dataCount (snd b)) - int (dataCount (snd a))) xs
     = sort_key (\<lambda>e. - int (dataCount (snd e))) xs"
  by (induction xs) (simp_all add: sortWith_def insertWith_insort_key)

lemma pushSorted_map:
  "pushSorted es yl rs = (yl @ map fst es, rs @ map (\<lambda>e. row (snd e)) es)"
  by (induction es arbitrary: yl rs) auto

lemma Object_entries_no_index:
  assumes "\<forall>k \<in> fst ` set obj. arrayIndex k = None"
  shows "Object_entries obj = obj"
proof -
  from assms have "filter (\<lambda>e. arrayIndex (fst e) \<noteq> None) obj = []"
    by (auto simp: filter_empty_conv)
  moreover from assms have "filter (\<lambda>e. arrayIndex (fst e) = None) obj = obj"
    by (auto simp: filter_id_conv)
  ultimately show ?thesis
    by (simp add: Object_entries_def)
qed

lemma getCompareTableProps_sorted:
  assumes "getScalarTableData st ras cnt = Inr t"
  shows "getCompareTableProps st ras cnt =
           Inr \<lparr> props_xLabels = xLabels t,
                 yLabels = map fst (sort_key (\<lambda>e. - int (dataCount (snd e)))
                                      (Object_entries (dataMap t))),
                 props_xParentLabels = xParentLabels t,
                 rows = map (\<lambda>e. row (snd e))
                          (sort_key (\<lambda>e. - int (dataCount (snd e)))
                             (Object_entries (dataMap t))) \<rparr>"
  using assms
  by (simp add: getCompareTableProps_def sortWith_sort_key pushSorted_map Let_def)

lemma sorted_descending:
  "sorted_wrt (\<lambda>a b. dataCount (snd b) \<le> dataCount (snd a))
     (sort_key (\<lambda>e. - int (dataCount (snd e))) xs)"
proof -
  have "sorted (map (\<lambda>e. - int (dataCount (snd e))) (sort_key (\<lambda>e. - int (dataCount (snd e))) xs))"
    by (rule sorted_sort_key)
  then show ?thesis
    by (simp add: sorted_map)
qed

lemma stable_descending:
  "filter (\<lambda>e. dataCount (snd e) = c) (sort_key (\<lambda>e. - int (dataCount (snd e))) xs)
     = filter (\<lambda>e. dataCount (snd e) = c) xs"
proof -
  have "filter (\<lambda>e. - int (dataCount (snd e)) = - int c)
          (sort_key (\<lambda>e. - int (dataCount (snd e))) xs)
      = filter (\<lambda>e. - int (dataCount (snd e)) = - int c) xs"
    by (rule sort_key_stable)
  then show ?thesis by simp
qed

text \<open>
  C2, as the code has it. When no metric name of the input is an array index, the labels
  \<^verbatim>\<open>yLabels\<close> and the \<^verbatim>\<open>rows\<close> of the assembler are the entries of \<^verbatim>\<open>dataMap\<close>
  sorted by \<^verbatim>\<open>dataCount\<close> in descending order, entries with equal \<^verbatim>\<open>dataCount\<close>
  in the order of \<^verbatim>\<open>dataMap\<close>, which is the order in which the metric names were first
  met during aggregation.
\<close>

theorem getCompareTableProps_order:
  assumes "getScalarTableData st ras cnt = Inr t"
    and "\<forall>k \<in> set (metricNames ras). arrayIndex k = None"
  shows "\<exists>es. getCompareTableProps st ras cnt =
                Inr \<lparr> props_xLabels = xLabels t, yLabels = map fst es,
                      props_xParentLabels = xParentLabels t,
                      rows = map (\<lambda>e. row (snd e)) es \<rparr> \<and>
              mset es = mset (dataMap t) \<and>
              sorted_wrt (\<lambda>a b. dataCount (snd b) \<le> dataCount (snd a)) es \<and>
              (\<forall>c. filter (\<lambda>e. dataCount (snd e) = c) es
                     = filter (\<lambda>e. dataCount (snd e) = c) (dataMap t)) \<and>
              map fst (dataMap t) = firstSeen (metricNames ras)"
proof -
  have keys: "map fst (dataMap t) = firstSeen (metricNames ras)"
    by (rule getScalarTableData_keys [OF assms(1)])
  then have "fst ` set (dataMap t) = set (metricNames ras)"
    by (metis list.set_map set_firstSeen)
  with assms(2) have entries: "Object_entries (dataMap t) = dataMap t"
    by (simp add: Object_entries_no_index)
  let ?es = "sort_key (\<lambda>e. - int (dataCount (snd e))) (dataMap t)"
  have "getCompareTableProps st ras cnt =
          Inr \<lparr> props_xLabels = xLabels t, yLabels = map fst ?es,
                props_xParentLabels = xParentLabels t, rows = map (\<lambda>e. row (snd e)) ?es \<rparr>"
    using getCompareTableProps_sorted [OF assms(1)] entries by simp
  moreover have "mset ?es = mset (dataMap t)"
    by simp
  moreover note sorted_descending [of "dataMap t"]
  moreover have "\<forall>c. filter (\<lambda>e. dataCount (snd e) = c) ?es
                     = filter (\<lambda>e. dataCount (snd e) = c) (dataMap t)"
    by (simp add: stable_descending)
  ultimately show ?thesis
    using keys by blast
qed

lemmas arrayIndex_defs =
  arrayIndex_def digitVal_def decimalDigits_def digitChar_def natToString.simps indexKey_def
  Object_entries_def

lemma arrayIndex_examples:
  "arrayIndex ''acc'' = None" "arrayIndex ''f1'' = None" "arrayIndex ''b'' = None"
  "arrayIndex ''1'' = Some 1"
  by (simp_all add: arrayIndex_defs)

lemma example_tied_table:
  "getScalarTableData exampleStringify tiedExampleRuns 2
   = Inr \<lparr> xLabels = [''- > -'', ''- > -''],
           xParentLabels = [\<lparr> label = ''-'', colSpan = 2 \<rparr>],
           dataMap = [(''b'', \<lparr> row = [Some ''1'', Some []], dataCount = 1 \<rparr>),
                      (''1'', \<lparr> row = [Some [], Some ''1''], dataCount = 1 \<rparr>)] \<rparr>"
  by (simp add: tiedExampleRuns_def example_defs)

lemma example_tied_names:
  "metricNames tiedExampleRuns = [''b'', ''1'']"
  by (simp add: metricNames_def artifactMetricNames_def allLinkedArtifacts_def
      runLinkedArtifacts_def tiedExampleRuns_def exampleRun_def exampleArtifact_def)

text \<open>
  C2, as the claim has it for every input, fails: the first artifact has the only metric
  \<^verbatim>\<open>b\<close> and the second the only metric \<^verbatim>\<open>1\<close>, so \<^verbatim>\<open>b\<close> is met first and
  \<^verbatim>\<open>dataMap\<close> is created in the order \<^verbatim>\<open>b\<close>, \<^verbatim>\<open>1\<close>; both have \<^verbatim>\<open>dataCount\<close>
  1, and \<^verbatim>\<open>Object.entries\<close> lists the array index \<^verbatim>\<open>1\<close> first, so the labels are
  \<^verbatim>\<open>['1', 'b']\<close>.
\<close>

theorem getCompareTableProps_tie_counterexample:
  "firstSeen (metricNames tiedExampleRuns) = [''b'', ''1''] \<and>
   getScalarTableData exampleStringify tiedExampleRuns 2
   = Inr \<lparr> xLabels = [''- > -'', ''- > -''],
           xParentLabels = [\<lparr> label = ''-'', colSpan = 2 \<rparr>],
           dataMap = [(''b'', \<lparr> row = [Some ''1'', Some []], dataCount = 1 \<rparr>),
                      (''1'', \<lparr> row = [Some [], Some ''1''], dataCount = 1 \<rparr>)] \<rparr> \<and>
   getCompareTableProps exampleStringify tiedExampleRuns 2
   = Inr \<lparr> props_xLabels = [''- > -'', ''- > -''],
           yLabels = [''1'', ''b''],
           props_xParentLabels = [\<lparr> label = ''-'', colSpan = 2 \<rparr>],
           rows = [[Some [], Some ''1''], [Some ''1'', Some []]] \<rparr>"
  by (simp add: getCompareTableProps_def example_tied_table example_tied_names sortWith_def
      Object_entries_def indexKey_def arrayIndex_examples)

text \<open>
  C4. One run with one execution holding two artifacts with the custom properties
  \<^verbatim>\<open>{acc: 0.9}\<close> and \<^verbatim>\<open>{acc: 0.8, f1: 0.5}\<close>, and \<^verbatim>\<open>artifactCount\<close> 2: the
  labels are \<^verbatim>\<open>['acc', 'f1']\<close>, the row of \<^verbatim>\<open>acc\<close> is \<^verbatim>\<open>['0.9', '0.8']\<close> and the
  row of \<^verbatim>\<open>f1\<close> is \<^verbatim>\<open>['', '0.5']\<close>, each cell the JSON text of the property, for a
  serialisation that prints these three numbers as JavaScript does.
\<close>

theorem getCompareTableProps_example:
  assumes "customProperties (artifact a1) = [(''acc'', NumberValue 0.9)]"
    and "customProperties (artifact a2) = [(''acc'', NumberValue 0.8), (''f1'', NumberValue 0.5)]"
    and "st (Some (NumberValue 0.9)) = ''0.9''"
    and "st (Some (NumberValue 0.8)) = ''0.8''"
    and "st (Some (NumberValue 0.5)) = ''0.5''"
  shows "\<exists>out. getCompareTableProps st
                 [\<lparr> run = r, executionArtifacts =
                       [\<lparr> execution = e, linkedArtifacts = [a1, a2] \<rparr>] \<rparr>] 2 = Inr out \<and>
               yLabels out = [''acc'', ''f1''] \<and>
               rows out = [[Some ''0.9'', Some ''0.8''], [Some '''', Some ''0.5'']]"
  using assms
  by (simp add: getCompareTableProps_def getScalarTableData_def addScalarDataItems_def
      addScalarDataItem_def newRow_def setCell_def objectPrototypeKeys_def Let_def
      eval_nat_numeral sortWith_def Object_entries_def indexKey_def arrayIndex_examples)

lemma example_ranked_table:
  "getScalarTableData exampleStringify rankedExampleRuns 3
   = Inr \<lparr> xLabels = [''- > -'', ''- > -'', ''- > -''],
           xParentLabels = [\<lparr> label = ''-'', colSpan = 3 \<rparr>],
           dataMap = [(''f1'', \<lparr> row = [Some ''0.5'', Some [], Some []], dataCount = 1 \<rparr>),
                      (''acc'', \<lparr> row = [Some [], Some ''0.9'', Some ''0.8''],
                                  dataCount = 2 \<rparr>),
                      (''m'', \<lparr> row = [Some [], Some ''1'', Some []], dataCount = 1 \<rparr>)] \<rparr>"
  by (simp add: rankedExampleRuns_def example_defs)

lemma example_ranked_names:
  "metricNames rankedExampleRuns = [''f1'', ''acc'', ''m'', ''acc'']"
  by (simp add: metricNames_def artifactMetricNames_def allLinkedArtifacts_def
      runLinkedArtifacts_def rankedExampleRuns_def exampleRun_def exampleArtifact_def)

theorem getCompareTableProps_order_witness:
  "list_all (\<lambda>k. arrayIndex k = None) (metricNames rankedExampleRuns) \<and>
   getCompareTableProps exampleStringify rankedExampleRuns 3
   = Inr \<lparr> props_xLabels = [''- > -'', ''- > -'', ''- > -''],
           yLabels = [''acc'', ''f1'', ''m''],
           props_xParentLabels = [\<lparr> label = ''-'', colSpan = 3 \<rparr>],
           rows = [[Some [], Some ''0.9'', Some ''0.8''], [Some ''0.5'', Some [], Some []],
                   [Some [], Some ''1'', Some []]] \<rparr> \<and>
   (\<exists>es. getCompareTableProps exampleStringify rankedExampleRuns 3 =
           Inr \<lparr> props_xLabels = [''- > -'', ''- > -'', ''- > -''], yLabels = map fst es,
                 props_xParentLabels = [\<lparr> label = ''-'', colSpan = 3 \<rparr>],
                 rows = map (\<lambda>e. row (snd e)) es \<rparr> \<and>
         mset es = mset [(''f1'', \<lparr> row = [Some ''0.5'', Some [], Some []], dataCount = 1 \<rparr>),
                         (''acc'', \<lparr> row = [Some [], Some ''0.9'', Some ''0.8''],
                                     dataCount = 2 \<rparr>),
                         (''m'', \<lparr> row = [Some [], Some ''1'', Some []], dataCount = 1 \<rparr>)] \<and>
         sorted_wrt (\<lambda>a b. dataCount (snd b) \<le> dataCount (snd a)) es \<and>
         map fst es = [''acc'', ''f1'', ''m''])"
proof -
  have names: "\<forall>k \<in> set (metricNames rankedExampleRuns). arrayIndex k = None"
    by (simp add: example_ranked_names arrayIndex_defs)
  have out: "getCompareTableProps exampleStringify rankedExampleRuns 3
   = Inr \<lparr> props_xLabels = [''- > -'', ''- > -'', ''- > -''],
           yLabels = [''acc'', ''f1'', ''m''],
           props_xParentLabels = [\<lparr> label = ''-'', colSpan = 3 \<rparr>],
           rows = [[Some [], Some ''0.9'', Some ''0.8''], [Some ''0.5'', Some [], Some []],
                   [Some [], Some ''1'', Some []]] \<rparr>"
    by (simp add: getCompareTableProps_def example_ranked_table sortWith_def Object_entries_def
        indexKey_def arrayIndex_defs)
  from getCompareTableProps_order [OF example_ranked_table names]
  obtain es where es:
    "getCompareTableProps exampleStringify rankedExampleRuns 3 =
       Inr \<lparr> props_xLabels = [''- > -'', ''- > -'', ''- > -''], yLabels = map fst es,
             props_xParentLabels = [\<lparr> label = ''-'', colSpan = 3 \<rparr>],
             rows = map (\<lambda>e. row (snd e)) es \<rparr>"
    "mset es = mset [(''f1'', \<lparr> row = [Some ''0.5'', Some [], Some []], dataCount = 1 \<rparr>),
                     (''acc'', \<lparr> row = [Some [], Some ''0.9'', Some ''0.8''],
                                 dataCount = 2 \<rparr>),
                     (''m'', \<lparr> row = [Some [], Some ''1'', Some []], dataCount = 1 \<rparr>)]"
    "sorted_wrt (\<lambda>a b. dataCount (snd b) \<le> dataCount (snd a)) es"
    by auto
  from es(1) out have m: "map fst es = [''acc'', ''f1'', ''m'']"
    by simp
  have ex: "\<exists>es. getCompareTableProps exampleStringify rankedExampleRuns 3 =
           Inr \<lparr> props_xLabels = [''- > -'', ''- > -'', ''- > -''], yLabels = map fst es,
                 props_xParentLabels = [\<lparr> label = ''-'', colSpan = 3 \<rparr>],
                 rows = map (\<lambda>e. row (snd e)) es \<rparr> \<and>
         mset es = mset [(''f1'', \<lparr> row = [Some ''0.5'', Some [], Some []], dataCount = 1 \<rparr>),
                         (''acc'', \<lparr> row = [Some [], Some ''0.9'', Some ''0.8''],
                                     dataCount = 2 \<rparr>),
                         (''m'', \<lparr> row = [Some [], Some ''1'', Some []], dataCount = 1 \<rparr>)] \<and>
         sorted_wrt (\<lambda>a b. dataCount (snd b) \<le> dataCount (snd a)) es \<and>
         map fst es = [''acc'', ''f1'', ''m'']"
    by (rule exI [of _ es]) (intro conjI es m)
  from names have "list_all (\<lambda>k. arrayIndex k = None) (metricNames rankedExampleRuns)"
    by (simp add: list_all_iff)
  with out ex show ?thesis
    by blast
qed

theorem getCompareTableProps_example_witness:
  "customProperties (artifact (exampleArtifact [(''acc'', NumberValue 0.9)]))
     = [(''acc'', NumberValue 0.9)] \<and>
   customProperties (artifact (exampleArtifact
       [(''acc'', NumberValue 0.8), (''f1'', NumberValue 0.5)]))
     = [(''acc'', NumberValue 0.8), (''f1'', NumberValue 0.5)] \<and>
   exampleStringify (Some (NumberValue 0.9)) = ''0.9'' \<and>
   exampleStringify (Some (NumberValue 0.8)) = ''0.8'' \<and>
   exampleStringify (Some (NumberValue 0.5)) = ''0.5'' \<and>
   (\<exists>out. getCompareTableProps exampleStringify specExampleRuns 2 = Inr out \<and>
          yLabels out = [''acc'', ''f1''] \<and>
          rows out = [[Some ''0.9'', Some ''0.8''], [Some '''', Some ''0.5'']])"
proof -
  have a1: "customProperties (artifact (exampleArtifact [(''acc'', NumberValue 0.9)]))
     = [(''acc'', NumberValue 0.9)]"
    by (simp add: exampleArtifact_def)
  have a2: "customProperties (artifact (exampleArtifact
       [(''acc'', NumberValue 0.8), (''f1'', NumberValue 0.5)]))
     = [(''acc'', NumberValue 0.8), (''f1'', NumberValue 0.5)]"
    by (simp add: exampleArtifact_def)
  have s: "exampleStringify (Some (NumberValue 0.9)) = ''0.9''"
    "exampleStringify (Some (NumberValue 0.8)) = ''0.8''"
    "exampleStringify (Some (NumberValue 0.5)) = ''0.5''"
    by (simp_all add: exampleStringify_def)
  from getCompareTableProps_example [OF a1 a2 s] a1 a2 s show ?thesis
    by (simp add: specExampleRuns_def exampleRun_def)
qed

section \<open>Inputs and outputs in the store\<close>

text \<open>
  Each store function is shown to satisfy \<open>frameOk n\<close> for the addresses it is given that
  were allocated since the call began; the lemmas follow the call structure of the source,
  from \<^verbatim>\<open>push\<close> up to the exported functions. With \<open>n\<close> the size of the store at the
  call, the first \<open>n\<close> cells are the objects of the caller.
\<close>

lemma frameOkI:
  assumes "\<And>h. n \<le> length h \<Longrightarrow> freshRefs n h \<Longrightarrow>
             length h \<le> length (snd (m h)) \<and> take n (snd (m h)) = take n h \<and>
             freshRefs n (snd (m h))"
  shows "frameOk n m"
  using assms by (simp add: frameOk_def)

lemma frameOkD:
  assumes "frameOk n m" and "n \<le> length h" and "freshRefs n h"
  shows "length h \<le> length (snd (m h))" and "take n (snd (m h)) = take n h"
    and "freshRefs n (snd (m h))"
  using assms by (simp_all add: frameOk_def)

lemma frameOk_andThen:
  assumes "frameOk n m" and "\<And>x. frameOk n (f x)"
  shows "frameOk n (andThen m f)"
proof (rule frameOkI)
  fix h
  assume n: "n \<le> length h" and g: "freshRefs n h"
  obtain c h1 where m: "m h = (c, h1)"
    by (cases "m h")
  from frameOkD [OF assms(1) n g] m
  have 1: "length h \<le> length h1" "take n h1 = take n h" "freshRefs n h1"
    by simp_all
  show "length h \<le> length (snd (andThen m f h)) \<and> take n (snd (andThen m f h)) = take n h \<and>
        freshRefs n (snd (andThen m f h))"
  proof (cases c)
    case (Normal x)
    from 1 n have n1: "n \<le> length h1"
      by simp
    from frameOkD [OF assms(2) [of x] n1 1(3)] 1 Normal m show ?thesis
      by (simp add: andThen_def)
  next
    case (Throw e)
    with 1 m show ?thesis
      by (simp add: andThen_def)
  next
    case IllTyped
    with 1 m show ?thesis
      by (simp add: andThen_def)
  qed
qed

lemma frameOk_return: "frameOk n (\<lambda>h. (c, h))"
  by (simp add: frameOk_def)

lemma frameOk_as:
  assumes "frameOk n m" and "x = m h"
  shows "\<exists>m. frameOk n m \<and> x = m h"
  using assms by (intro exI [of _ m] conjI)

lemma frameOk_illTyped:
  assumes "x = (IllTyped, h)"
  shows "\<exists>m. frameOk n m \<and> x = m h"
  using assms by (intro exI [of _ "\<lambda>h. (IllTyped, h)"] conjI frameOk_return) simp

lemma lookupD: "lookup h a = Some c \<Longrightarrow> a < length h \<and> h ! a = c"
  by (auto simp: lookup_def split: if_splits)

lemma freshRefs_lookup:
  assumes "freshRefs n h" and "lookup h a = Some c" and "n \<le> a"
  shows "cellOk n c"
proof -
  from lookupD [OF assms(2)] have a: "a < length h" "h ! a = c"
    by simp_all
  with assms(3) have "drop n h ! (a - n) = c" "a - n < length (drop n h)"
    by simp_all
  with assms(1) show ?thesis
    unfolding freshRefs_def list_all_length by blast
qed

lemma freshRefs_assign:
  assumes "freshRefs n h" and "cellOk n c"
  shows "freshRefs n (assign h a c)"
proof -
  have "set (drop n (h[a := c])) \<subseteq> insert c (set (drop n h))"
  proof (cases "a < n")
    case True
    then show ?thesis
      by (simp add: drop_update_cancel subset_insertI)
  next
    case False
    then have "drop n (h[a := c]) = (drop n h)[a - n := c]"
      by (simp add: drop_update_swap)
    then show ?thesis
      by (simp add: set_update_subset_insert)
  qed
  with assms show ?thesis
    by (auto simp: freshRefs_def assign_def list_all_iff)
qed

lemma freshRefs_append:
  assumes "freshRefs n h" and "cellOk n c" and "n \<le> length h"
  shows "freshRefs n (h @ [c])"
  using assms by (simp add: freshRefs_def)

lemma take_assign: "n \<le> a \<Longrightarrow> take n (assign h a c) = take n h"
  by (simp add: assign_def)

lemma length_assign [simp]: "length (assign h a c) = length h"
  by (simp add: assign_def)

lemma frameOk_assign:
  assumes "n \<le> a" and "cellOk n c"
  shows "frameOk n (\<lambda>h. (r, assign h a c))"
  using assms by (simp add: frameOk_def take_assign freshRefs_assign)

lemma frameOk_pushRef: "n \<le> a \<Longrightarrow> frameOk n (pushRef a r)"
  by (rule frameOkI)
    (auto simp: pushRef_def take_assign freshRefs_assign cellOk_def
      split: option.splits cell.splits)

lemma frameOk_pushString: "n \<le> a \<Longrightarrow> frameOk n (pushString a s)"
  by (rule frameOkI)
    (auto simp: pushString_def take_assign freshRefs_assign cellOk_def
      split: option.splits cell.splits)

lemma frameOk_addScalarDataItem:
  assumes "n \<le> dm"
  shows "frameOk n (store_addScalarDataItem st props k dm i cnt)"
  unfolding store_addScalarDataItem_def
proof (rule frameOk_andThen)
  show "frameOk n
     (\<lambda>h. case lookup h dm of
            Some (DataMapObj ps) \<Rightarrow>
              if map_of ps k = None \<and> k \<notin> set objectPrototypeKeys
              then (case newRow cnt of
                      Inl e \<Rightarrow> (Throw e, h)
                    | Inr r \<Rightarrow>
                        (let (rowAddr, h1) = alloc (StringArray r) h;
                             (rd, h2) = alloc (ScalarRowDataObj rowAddr 0) h1
                         in (Normal (), assign h2 dm (DataMapObj (ps @ [(k, rd)])))))
              else (Normal (), h)
          | _ \<Rightarrow> (IllTyped, h))"
  proof (rule frameOkI)
    fix h
    assume n: "n \<le> length h" and g: "freshRefs n h"
    let ?m = "\<lambda>h. case lookup h dm of
            Some (DataMapObj ps) \<Rightarrow>
              if map_of ps k = None \<and> k \<notin> set objectPrototypeKeys
              then (case newRow cnt of
                      Inl e \<Rightarrow> (Throw e, h)
                    | Inr r \<Rightarrow>
                        (let (rowAddr, h1) = alloc (StringArray r) h;
                             (rd, h2) = alloc (ScalarRowDataObj rowAddr 0) h1
                         in (Normal (), assign h2 dm (DataMapObj (ps @ [(k, rd)])))))
              else (Normal (), h)
          | _ \<Rightarrow> (IllTyped, h)"
    show "length h \<le> length (snd (?m h)) \<and> take n (snd (?m h)) = take n h \<and>
          freshRefs n (snd (?m h))"
    proof (cases "\<exists>ps r. lookup h dm = Some (DataMapObj ps) \<and> map_of ps k = None \<and>
                    k \<notin> set objectPrototypeKeys \<and> newRow cnt = Inr r")
      case True
      then obtain ps r where l: "lookup h dm = Some (DataMapObj ps)"
        and c: "map_of ps k = None" "k \<notin> set objectPrototypeKeys" and r: "newRow cnt = Inr r"
        by blast
      from freshRefs_lookup [OF g l assms] have ps: "list_all (\<lambda>p. n \<le> snd p) ps"
        by (simp add: cellOk_def)
      let ?h2 = "h @ [StringArray r, ScalarRowDataObj (length h) 0]"
      have res: "snd (?m h) = assign ?h2 dm (DataMapObj (ps @ [(k, Suc (length h))]))"
        using l c r by (simp add: alloc_def)
      have g2: "freshRefs n ?h2"
        using g n by (simp add: freshRefs_def cellOk_def)
      have "cellOk n (DataMapObj (ps @ [(k, Suc (length h))]))"
        using ps n by (simp add: cellOk_def)
      from freshRefs_assign [OF g2 this] n assms show ?thesis
        unfolding res by (simp add: take_assign)
    next
      case False
      then have "snd (?m h) = h"
        by (auto split: option.splits cell.splits sum.splits)
      with g show ?thesis
        by simp
    qed
  qed
next
  fix u :: unit
  show "frameOk n
     (\<lambda>h. case lookup h dm of
            Some (DataMapObj ps) \<Rightarrow>
              (case map_of ps k of
                 None \<Rightarrow> (Throw TypeError, h)
               | Some rd \<Rightarrow>
                   (case lookup h rd of
                      Some (ScalarRowDataObj rowAddr c) \<Rightarrow>
                        (case lookup h rowAddr of
                           Some (StringArray r) \<Rightarrow>
                             (let h1 = assign h rowAddr
                                         (StringArray (setCell r i (st (map_of props k))))
                              in case lookup h1 rd of
                                   Some (ScalarRowDataObj rowAddr' c') \<Rightarrow>
                                     (Normal (),
                                      assign h1 rd (ScalarRowDataObj rowAddr' (c' + 1)))
                                 | _ \<Rightarrow> (IllTyped, h1))
                         | _ \<Rightarrow> (IllTyped, h))
                    | _ \<Rightarrow> (IllTyped, h)))
          | _ \<Rightarrow> (IllTyped, h))"
  proof (rule frameOkI)
    fix h
    assume n: "n \<le> length h" and g: "freshRefs n h"
    let ?m = "\<lambda>h. case lookup h dm of
            Some (DataMapObj ps) \<Rightarrow>
              (case map_of ps k of
                 None \<Rightarrow> (Throw TypeError, h)
               | Some rd \<Rightarrow>
                   (case lookup h rd of
                      Some (ScalarRowDataObj rowAddr c) \<Rightarrow>
                        (case lookup h rowAddr of
                           Some (StringArray r) \<Rightarrow>
                             (let h1 = assign h rowAddr
                                         (StringArray (setCell r i (st (map_of props k))))
                              in case lookup h1 rd of
                                   Some (ScalarRowDataObj rowAddr' c') \<Rightarrow>
                                     (Normal (),
                                      assign h1 rd (ScalarRowDataObj rowAddr' (c' + 1)))
                                 | _ \<Rightarrow> (IllTyped, h1))
                         | _ \<Rightarrow> (IllTyped, h))
                    | _ \<Rightarrow> (IllTyped, h)))
          | _ \<Rightarrow> (IllTyped, h)"
    show "length h \<le> length (snd (?m h)) \<and> take n (snd (?m h)) = take n h \<and>
          freshRefs n (snd (?m h))"
    proof (cases "\<exists>ps rd rowAddr c r. lookup h dm = Some (DataMapObj ps) \<and>
                    map_of ps k = Some rd \<and> lookup h rd = Some (ScalarRowDataObj rowAddr c) \<and>
                    lookup h rowAddr = Some (StringArray r)")
      case True
      then obtain ps rd rowAddr c r where l: "lookup h dm = Some (DataMapObj ps)"
        and k: "map_of ps k = Some rd" and rd: "lookup h rd = Some (ScalarRowDataObj rowAddr c)"
        and row: "lookup h rowAddr = Some (StringArray r)"
        by blast
      from freshRefs_lookup [OF g l assms] have ps: "list_all (\<lambda>p. n \<le> snd p) ps"
        by (simp add: cellOk_def)
      from map_of_SomeD [OF k] ps have nrd: "n \<le> rd"
        by (auto simp: list_all_iff)
      from freshRefs_lookup [OF g rd nrd] have nrow: "n \<le> rowAddr"
        by (simp add: cellOk_def)
      let ?h1 = "assign h rowAddr (StringArray (setCell r i (st (map_of props k))))"
      have g1: "freshRefs n ?h1"
        by (rule freshRefs_assign [OF g]) (simp add: cellOk_def)
      have t1: "take n ?h1 = take n h"
        by (rule take_assign [OF nrow])
      show ?thesis
      proof (cases "\<exists>rowAddr' c'. lookup ?h1 rd = Some (ScalarRowDataObj rowAddr' c')")
        case True
        then obtain rowAddr' c' where rd1: "lookup ?h1 rd = Some (ScalarRowDataObj rowAddr' c')"
          by blast
        from freshRefs_lookup [OF g1 rd1 nrd] have ok: "cellOk n (ScalarRowDataObj rowAddr' (c' + 1))"
          by (simp add: cellOk_def)
        have res: "snd (?m h) = assign ?h1 rd (ScalarRowDataObj rowAddr' (c' + 1))"
          using l k rd row rd1 by (simp add: Let_def)
        from freshRefs_assign [OF g1 ok] t1 nrd show ?thesis
          unfolding res by (simp add: take_assign)
      next
        case False
        then have "snd (?m h) = ?h1"
          using l k rd row by (auto simp: Let_def split: option.splits cell.splits)
        with g1 t1 show ?thesis
          by simp
      qed
    next
      case False
      then have "snd (?m h) = h"
        by (auto split: option.splits cell.splits)
      with g show ?thesis
        by simp
    qed
  qed
qed

lemma frameOk_pointwise:
  assumes "\<And>h. n \<le> length h \<Longrightarrow> freshRefs n h \<Longrightarrow> \<exists>m. frameOk n m \<and> f h = m h"
  shows "frameOk n f"
proof (rule frameOkI)
  fix h
  assume n: "n \<le> length h" and g: "freshRefs n h"
  from assms [OF n g] obtain m where m: "frameOk n m" "f h = m h"
    by blast
  from frameOkD [OF m(1) n g] m(2)
  show "length h \<le> length (snd (f h)) \<and> take n (snd (f h)) = take n h \<and>
        freshRefs n (snd (f h))"
    by simp
qed

lemma frameOk_alloc:
  assumes "cellOk n c" and "\<And>a. n \<le> a \<Longrightarrow> frameOk n (f a)"
  shows "frameOk n (\<lambda>h. let (a, h1) = alloc c h in f a h1)"
proof (rule frameOkI)
  fix h
  assume n: "n \<le> length h" and g: "freshRefs n h"
  from n have n1: "n \<le> length (h @ [c])"
    by simp
  from frameOkD [OF assms(2) [OF n] n1 freshRefs_append [OF g assms(1) n]] n
  show "length h \<le> length (snd (let (a, h1) = alloc c h in f a h1)) \<and>
        take n (snd (let (a, h1) = alloc c h in f a h1)) = take n h \<and>
        freshRefs n (snd (let (a, h1) = alloc c h in f a h1))"
    by (simp add: alloc_def)
qed

lemma frameOk_addScalarDataItems_entries:
  assumes "n \<le> dm"
  shows "frameOk n (store_addScalarDataItems_entries st props es dm i cnt)"
proof (induction es)
  case Nil
  show ?case
    by (rule frameOk_pointwise) (auto intro: frameOk_return)
next
  case (Cons e es)
  show ?case
  proof (cases "fst e = ''display_name''")
    case True
    show ?thesis
      by (rule frameOk_pointwise) (use True Cons.IH in auto)
  next
    case False
    have "frameOk n (andThen (store_addScalarDataItem st props (fst e) dm i cnt)
                       (\<lambda>_. store_addScalarDataItems_entries st props es dm i cnt))"
      by (rule frameOk_andThen [OF frameOk_addScalarDataItem [OF assms] Cons.IH])
    with False show ?thesis
      by (auto intro!: frameOk_pointwise)
  qed
qed

lemma frameOk_loadLinkedArtifacts:
  assumes "n \<le> xl" and "n \<le> dm"
  shows "frameOk n (store_loadLinkedArtifacts st t las xl dm i cnt)"
proof (induction las arbitrary: i)
  case Nil
  show ?case
    by (rule frameOk_pointwise) (auto intro: frameOk_return)
next
  case (Cons la las)
  show ?case
  proof (rule frameOk_pointwise)
    fix h
    show "\<exists>m. frameOk n m \<and> store_loadLinkedArtifacts st t (la # las) xl dm i cnt h = m h"
    proof (cases "\<exists>x. lookup h la = Some (LinkedArtifactObj x)")
      case True
      then obtain x where x: "lookup h la = Some (LinkedArtifactObj x)"
        by blast
      let ?m = "andThen (pushString xl (t @ '' > '' @ orElse (getArtifactName x) ''-''))
                 (\<lambda>_. andThen
                    (store_addScalarDataItems st (customProperties (artifact x)) dm i cnt)
                    (\<lambda>_. store_loadLinkedArtifacts st t las xl dm (i + 1) cnt))"
      have "frameOk n ?m"
        by (intro frameOk_andThen frameOk_pushString assms Cons.IH)
          (simp add: store_addScalarDataItems_def frameOk_addScalarDataItems_entries assms)
      moreover have "store_loadLinkedArtifacts st t (la # las) xl dm i cnt h = ?m h"
        using x by (simp add: Let_def)
      ultimately show ?thesis
        by (rule frameOk_as)
    next
      case False
      then have "store_loadLinkedArtifacts st t (la # las) xl dm i cnt h = (IllTyped, h)"
        by (auto split: option.splits cell.splits)
      then show ?thesis
        by (rule frameOk_illTyped)
    qed
  qed
qed

lemma frameOk_loadScalarExecutionArtifacts:
  assumes "n \<le> xl" and "n \<le> dm"
  shows "frameOk n (store_loadScalarExecutionArtifacts st eas xl dm i cnt)"
proof (induction eas arbitrary: i)
  case Nil
  show ?case
    by (rule frameOk_pointwise) (auto intro: frameOk_return)
next
  case (Cons ea eas)
  show ?case
  proof (rule frameOk_pointwise)
    fix h
    show "\<exists>m. frameOk n m \<and>
            store_loadScalarExecutionArtifacts st (ea # eas) xl dm i cnt h = m h"
    proof (cases "\<exists>exec las linked. lookup h ea = Some (ExecutionArtifactObj exec las) \<and>
                    lookup h las = Some (RefArray linked)")
      case True
      then obtain exec las linked where x: "lookup h ea = Some (ExecutionArtifactObj exec las)"
        "lookup h las = Some (RefArray linked)"
        by blast
      let ?m = "andThen
                  (store_loadLinkedArtifacts st (orElse (getExecutionDisplayName exec) ''-'')
                     linked xl dm i cnt)
                  (\<lambda>i'. store_loadScalarExecutionArtifacts st eas xl dm i' cnt)"
      have "frameOk n ?m"
        by (intro frameOk_andThen frameOk_loadLinkedArtifacts assms Cons.IH)
      moreover have "store_loadScalarExecutionArtifacts st (ea # eas) xl dm i cnt h = ?m h"
        using x by (simp add: Let_def)
      ultimately show ?thesis
        by (rule frameOk_as)
    next
      case False
      then have "store_loadScalarExecutionArtifacts st (ea # eas) xl dm i cnt h = (IllTyped, h)"
        by (auto split: option.splits cell.splits)
      then show ?thesis
        by (rule frameOk_illTyped)
    qed
  qed
qed

lemma frameOk_getScalarTableData_runs:
  assumes "n \<le> xl" and "n \<le> xpl" and "n \<le> dm"
  shows "frameOk n (store_getScalarTableData_runs st ras xl xpl dm i cnt)"
proof (induction ras arbitrary: i)
  case Nil
  show ?case
    by (rule frameOk_pointwise) (auto intro: frameOk_return)
next
  case (Cons ra ras)
  show ?case
  proof (rule frameOk_pointwise)
    fix h
    show "\<exists>m. frameOk n m \<and> store_getScalarTableData_runs st (ra # ras) xl xpl dm i cnt h = m h"
    proof (cases "\<exists>rd eas executions. lookup h ra = Some (RunArtifactObj rd eas) \<and>
                    lookup h eas = Some (RefArray executions)")
      case True
      then obtain rd eas executions where x: "lookup h ra = Some (RunArtifactObj rd eas)"
        "lookup h eas = Some (RefArray executions)"
        by blast
      let ?m = "andThen (store_loadScalarExecutionArtifacts st executions xl dm i cnt)
                  (\<lambda>newArtifactIndex h1.
                     let (lab, h2) =
                           alloc (ParentLabelObj
                                    \<lparr> label = orElse (Option.bind (apiRun rd) run_name) ''-'',
                                      colSpan = int newArtifactIndex - int i \<rparr>) h1
                     in andThen (pushRef xpl lab)
                          (\<lambda>_. store_getScalarTableData_runs st ras xl xpl dm newArtifactIndex
                                  cnt) h2)"
      have "frameOk n ?m"
        by (intro frameOk_andThen frameOk_loadScalarExecutionArtifacts frameOk_alloc
            frameOk_pushRef assms Cons.IH) (simp add: cellOk_def)
      moreover have "store_getScalarTableData_runs st (ra # ras) xl xpl dm i cnt h = ?m h"
        using x by (simp add: Let_def)
      ultimately show ?thesis
        by (rule frameOk_as)
    next
      case False
      then have "store_getScalarTableData_runs st (ra # ras) xl xpl dm i cnt h = (IllTyped, h)"
        by (auto split: option.splits cell.splits)
      then show ?thesis
        by (rule frameOk_illTyped)
    qed
  qed
qed

lemma frameOk_andThen_post:
  assumes "frameOk n m"
    and "\<And>h x h1. n \<le> length h \<Longrightarrow> freshRefs n h \<Longrightarrow> m h = (Normal x, h1)
           \<Longrightarrow> \<exists>g. frameOk n g \<and> f x h1 = g h1"
  shows "frameOk n (andThen m f)"
proof (rule frameOkI)
  fix h
  assume n: "n \<le> length h" and g: "freshRefs n h"
  obtain c h1 where m: "m h = (c, h1)"
    by (cases "m h")
  from frameOkD [OF assms(1) n g] m
  have 1: "length h \<le> length h1" "take n h1 = take n h" "freshRefs n h1"
    by simp_all
  show "length h \<le> length (snd (andThen m f h)) \<and> take n (snd (andThen m f h)) = take n h \<and>
        freshRefs n (snd (andThen m f h))"
  proof (cases c)
    case (Normal x)
    from assms(2) [OF n g m [unfolded Normal]] obtain k where
      k: "frameOk n k" "f x h1 = k h1"
      by blast
    from 1 n have n1: "n \<le> length h1"
      by simp
    from frameOkD [OF k(1) n1 1(3)] 1 k(2) Normal m show ?thesis
      by (simp add: andThen_def)
  next
    case (Throw e)
    with 1 m show ?thesis
      by (simp add: andThen_def)
  next
    case IllTyped
    with 1 m show ?thesis
      by (simp add: andThen_def)
  qed
qed

lemma andThen_Normal:
  assumes "andThen m f h = (Normal y, h')"
  obtains x h1 where "m h = (Normal x, h1)" and "f x h1 = (Normal y, h')"
  using assms by (auto simp: andThen_def split: prod.splits completion.splits)

lemma lookup_append_new [simp]: "lookup (h @ [c]) (length h) = Some c"
  by (simp add: lookup_def)

lemma frameOk_getScalarTableData:
  "frameOk n (store_getScalarTableData st a cnt)"
proof -
  have "frameOk n
     (\<lambda>h. let (xl, h1) = alloc (StringArray []) h
           in (\<lambda>xl h1. let (xpl, h2) = alloc (RefArray []) h1
                 in (\<lambda>xpl h2. let (dm, h3) = alloc (DataMapObj []) h2
                       in (\<lambda>dm h3. case lookup h3 a of
                              Some (RefArray runs) \<Rightarrow>
                                andThen (store_getScalarTableData_runs st runs xl xpl dm 0 cnt)
                                  (\<lambda>_ h4. let (t, h5) = alloc (ScalarTableDataObj xl xpl dm) h4
                                           in (Normal t, h5)) h3
                            | _ \<Rightarrow> (IllTyped, h3)) dm h3) xpl h2) xl h1)"
  proof (intro frameOk_alloc)
    fix xl xpl dm
    assume f: "n \<le> xl" "n \<le> xpl" "n \<le> dm"
    show "frameOk n (\<lambda>h3. case lookup h3 a of
                              Some (RefArray runs) \<Rightarrow>
                                andThen (store_getScalarTableData_runs st runs xl xpl dm 0 cnt)
                                  (\<lambda>_ h4. let (t, h5) = alloc (ScalarTableDataObj xl xpl dm) h4
                                           in (Normal t, h5)) h3
                            | _ \<Rightarrow> (IllTyped, h3))"
    proof (rule frameOk_pointwise)
      fix h
      show "\<exists>m. frameOk n m \<and>
              (case lookup h a of
                 Some (RefArray runs) \<Rightarrow>
                   andThen (store_getScalarTableData_runs st runs xl xpl dm 0 cnt)
                     (\<lambda>_ h4. let (t, h5) = alloc (ScalarTableDataObj xl xpl dm) h4
                              in (Normal t, h5)) h
               | _ \<Rightarrow> (IllTyped, h)) = m h"
      proof (cases "\<exists>runs. lookup h a = Some (RefArray runs)")
        case True
        then obtain runs where r: "lookup h a = Some (RefArray runs)"
          by blast
        have "frameOk n (andThen (store_getScalarTableData_runs st runs xl xpl dm 0 cnt)
                     (\<lambda>_ h4. let (t, h5) = alloc (ScalarTableDataObj xl xpl dm) h4
                              in (Normal t, h5)))"
          by (intro frameOk_andThen frameOk_getScalarTableData_runs f frameOk_alloc
              frameOk_return) (simp add: cellOk_def)
        with r show ?thesis
          by auto
      next
        case False
        then have "(case lookup h a of
                 Some (RefArray runs) \<Rightarrow>
                   andThen (store_getScalarTableData_runs st runs xl xpl dm 0 cnt)
                     (\<lambda>_ h4. let (t, h5) = alloc (ScalarTableDataObj xl xpl dm) h4
                              in (Normal t, h5)) h
               | _ \<Rightarrow> (IllTyped, h)) = (IllTyped, h)"
          by (auto split: option.splits cell.splits)
        then show ?thesis
          by (rule frameOk_illTyped)
      qed
    qed
  qed (simp_all add: cellOk_def)
  moreover have "store_getScalarTableData st a cnt =
     (\<lambda>h. let (xl, h1) = alloc (StringArray []) h
           in (\<lambda>xl h1. let (xpl, h2) = alloc (RefArray []) h1
                 in (\<lambda>xpl h2. let (dm, h3) = alloc (DataMapObj []) h2
                       in (\<lambda>dm h3. case lookup h3 a of
                              Some (RefArray runs) \<Rightarrow>
                                andThen (store_getScalarTableData_runs st runs xl xpl dm 0 cnt)
                                  (\<lambda>_ h4. let (t, h5) = alloc (ScalarTableDataObj xl xpl dm) h4
                                           in (Normal t, h5)) h3
                            | _ \<Rightarrow> (IllTyped, h3)) dm h3) xpl h2) xl h1)"
    by (rule ext) (simp add: store_getScalarTableData_def)
  ultimately show ?thesis
    by simp
qed

lemma frameOk_assign_then:
  assumes "n \<le> a" and "cellOk n c" and "frameOk n k"
  shows "frameOk n (\<lambda>h. k (assign h a c))"
proof (rule frameOkI)
  fix h
  assume n: "n \<le> length h" and g: "freshRefs n h"
  from n have n1: "n \<le> length (assign h a c)"
    by simp
  from frameOkD [OF assms(3) n1 freshRefs_assign [OF g assms(2)]] take_assign [OF assms(1)]
  show "length h \<le> length (snd (k (assign h a c))) \<and>
        take n (snd (k (assign h a c))) = take n h \<and> freshRefs n (snd (k (assign h a c)))"
    by simp
qed

lemma frameOk_allocEntries:
  assumes "list_all (\<lambda>p. n \<le> snd p) ps" and "\<And>es. frameOk n (f es)"
  shows "frameOk n (\<lambda>h. let (es, h1) = allocEntries ps h in f es h1)"
  using assms
proof (induction ps arbitrary: f)
  case Nil
  then show ?case by simp
next
  case (Cons p ps)
  have "frameOk n
     (\<lambda>h. let (e, h1) = alloc (EntryArray (fst p) (snd p)) h
           in (let (es, h2) = allocEntries ps h1 in f (e # es) h2))"
  proof (rule frameOk_alloc)
    from Cons.prems(1) show "cellOk n (EntryArray (fst p) (snd p))"
      by (simp add: cellOk_def)
  next
    fix e
    from Cons.prems(1) have "list_all (\<lambda>p. n \<le> snd p) ps"
      by simp
    from Cons.IH [OF this, of "\<lambda>es. f (e # es)"] Cons.prems(2)
    show "frameOk n (\<lambda>h1. let (es, h2) = allocEntries ps h1 in f (e # es) h2)"
      by simp
  qed
  moreover have "(\<lambda>h. let (es, h1) = allocEntries (p # ps) h in f es h1) =
     (\<lambda>h. let (e, h1) = alloc (EntryArray (fst p) (snd p)) h
           in (let (es, h2) = allocEntries ps h1 in f (e # es) h2))"
    by (rule ext) (simp add: Let_def split: prod.splits)
  ultimately show ?case
    by simp
qed

lemma frameOk_pushSorted:
  assumes "n \<le> yl" and "n \<le> rs"
  shows "frameOk n (store_pushSorted es yl rs)"
proof (induction es)
  case Nil
  show ?case
    by (rule frameOk_pointwise) (auto intro: frameOk_return)
next
  case (Cons e es)
  show ?case
  proof (rule frameOk_pointwise)
    fix h
    show "\<exists>m. frameOk n m \<and> store_pushSorted (e # es) yl rs h = m h"
    proof (cases "\<exists>k rd. lookup h e = Some (EntryArray k rd)")
      case True
      then obtain k rd where x: "lookup h e = Some (EntryArray k rd)"
        by blast
      let ?k = "\<lambda>(u::unit) h1. case lookup h1 rd of
                      Some (ScalarRowDataObj rowAddr c) \<Rightarrow>
                        andThen (pushRef rs rowAddr) (\<lambda>_. store_pushSorted es yl rs) h1
                    | _ \<Rightarrow> (IllTyped, h1)"
      have "frameOk n (?k u)" for u :: unit
      proof (rule frameOk_pointwise)
        fix h1
        show "\<exists>m. frameOk n m \<and> ?k u h1 = m h1"
        proof (cases "\<exists>rowAddr c. lookup h1 rd = Some (ScalarRowDataObj rowAddr c)")
          case True
          then obtain rowAddr c where y: "lookup h1 rd = Some (ScalarRowDataObj rowAddr c)"
            by blast
          have "frameOk n (andThen (pushRef rs rowAddr) (\<lambda>_. store_pushSorted es yl rs))"
            by (intro frameOk_andThen frameOk_pushRef assms Cons.IH)
          with y show ?thesis
            by auto
        next
          case False
          then have "?k u h1 = (IllTyped, h1)"
            by (auto split: option.splits cell.splits)
          then show ?thesis
            by (rule frameOk_illTyped)
        qed
      qed
      then have "frameOk n (andThen (pushString yl k) ?k)"
        by (intro frameOk_andThen frameOk_pushString assms)
      moreover have "store_pushSorted (e # es) yl rs h = andThen (pushString yl k) ?k h"
        using x by simp
      ultimately show ?thesis
        by (rule frameOk_as)
    next
      case False
      then have "store_pushSorted (e # es) yl rs h = (IllTyped, h)"
        by (auto split: option.splits cell.splits)
      then show ?thesis
        by (rule frameOk_illTyped)
    qed
  qed
qed

lemma set_Object_entries: "set (Object_entries obj) = set obj"
  by (auto simp: Object_entries_def)

lemma frameOk_assemble:
  assumes "list_all (\<lambda>p. n \<le> snd p) ps"
  shows "frameOk n (store_sortAndCollect xl xpl ps)"
proof -
  from assms have entries: "list_all (\<lambda>p. n \<le> snd p) (Object_entries ps)"
    by (simp add: list_all_iff set_Object_entries)
  have inner: "frameOk n
     (\<lambda>h2. if list_all (\<lambda>e. dataCountAt h2 e \<noteq> None) es
            then (let sorted =
                        sortWith (\<lambda>a b. int (dataCountOr0 h2 b) - int (dataCountOr0 h2 a)) es;
                      h3 = assign h2 arr (RefArray sorted);
                      (yl, h4) = alloc (StringArray []) h3;
                      (rs, h5) = alloc (RefArray []) h4
                  in andThen (store_pushSorted sorted yl rs)
                       (\<lambda>_ h6. let (out, h7) = alloc (CompareTablePropsObj xl yl xpl rs) h6
                                in (Normal out, h7)) h5)
            else (IllTyped, h2))"
    if arr: "n \<le> arr" for es arr
  proof (rule frameOk_pointwise)
    fix h
    let ?body = "\<lambda>h2. if list_all (\<lambda>e. dataCountAt h2 e \<noteq> None) es
            then (let sorted =
                        sortWith (\<lambda>a b. int (dataCountOr0 h2 b) - int (dataCountOr0 h2 a)) es;
                      h3 = assign h2 arr (RefArray sorted);
                      (yl, h4) = alloc (StringArray []) h3;
                      (rs, h5) = alloc (RefArray []) h4
                  in andThen (store_pushSorted sorted yl rs)
                       (\<lambda>_ h6. let (out, h7) = alloc (CompareTablePropsObj xl yl xpl rs) h6
                                in (Normal out, h7)) h5)
            else (IllTyped, h2)"
    show "\<exists>m. frameOk n m \<and> ?body h = m h"
    proof (cases "list_all (\<lambda>e. dataCountAt h e \<noteq> None) es")
      case True
      define srt where
        "srt = sortWith (\<lambda>a b. int (dataCountOr0 h b) - int (dataCountOr0 h a)) es"
      let ?k = "\<lambda>h3. let (yl, h4) = alloc (StringArray []) h3;
                         (rs, h5) = alloc (RefArray []) h4
                     in andThen (store_pushSorted srt yl rs)
                          (\<lambda>_ h6. let (out, h7) = alloc (CompareTablePropsObj xl yl xpl rs) h6
                                   in (Normal out, h7)) h5"
      have "frameOk n ?k"
        by (intro frameOk_alloc frameOk_andThen frameOk_pushSorted frameOk_return)
          (simp_all add: cellOk_def)
      then have "frameOk n (\<lambda>h. ?k (assign h arr (RefArray srt)))"
        by (intro frameOk_assign_then arr) (simp_all add: cellOk_def)
      moreover have "?body h = ?k (assign h arr (RefArray srt))"
        using True by (simp add: srt_def Let_def)
      ultimately show ?thesis
        by (rule frameOk_as)
    next
      case False
      then have "?body h = (IllTyped, h)"
        by simp
      then show ?thesis
        by (rule frameOk_illTyped)
    qed
  qed
  have "frameOk n
     (\<lambda>h. let (es, h1) = allocEntries (Object_entries ps) h;
               (sortedDataList, h2) = alloc (RefArray es) h1
           in if list_all (\<lambda>e. dataCountAt h2 e \<noteq> None) es
              then (let sorted =
                          sortWith (\<lambda>a b. int (dataCountOr0 h2 b) - int (dataCountOr0 h2 a)) es;
                        h3 = assign h2 sortedDataList (RefArray sorted);
                        (yl, h4) = alloc (StringArray []) h3;
                        (rs, h5) = alloc (RefArray []) h4
                    in andThen (store_pushSorted sorted yl rs)
                         (\<lambda>_ h6. let (out, h7) = alloc (CompareTablePropsObj xl yl xpl rs) h6
                                  in (Normal out, h7)) h5)
              else (IllTyped, h2))"
    by (intro frameOk_allocEntries entries frameOk_alloc inner) (simp add: cellOk_def)
  moreover have "store_sortAndCollect xl xpl ps =
     (\<lambda>h. let (es, h1) = allocEntries (Object_entries ps) h;
               (sortedDataList, h2) = alloc (RefArray es) h1
           in if list_all (\<lambda>e. dataCountAt h2 e \<noteq> None) es
              then (let sorted =
                          sortWith (\<lambda>a b. int (dataCountOr0 h2 b) - int (dataCountOr0 h2 a)) es;
                        h3 = assign h2 sortedDataList (RefArray sorted);
                        (yl, h4) = alloc (StringArray []) h3;
                        (rs, h5) = alloc (RefArray []) h4
                    in andThen (store_pushSorted sorted yl rs)
                         (\<lambda>_ h6. let (out, h7) = alloc (CompareTablePropsObj xl yl xpl rs) h6
                                  in (Normal out, h7)) h5)
              else (IllTyped, h2))"
    by (rule ext) (simp add: store_sortAndCollect_def)
  ultimately show ?thesis
    by simp
qed

lemma frameOk_getValidArtifacts_forEach:
  assumes "n \<le> valid"
  shows "frameOk n (store_getValidArtifacts_forEach las valid)"
proof (induction las)
  case Nil
  show ?case
    by (rule frameOk_pointwise) (auto intro: frameOk_return)
next
  case (Cons la las)
  show ?case
  proof (rule frameOk_pointwise)
    fix h
    show "\<exists>m. frameOk n m \<and> store_getValidArtifacts_forEach (la # las) valid h = m h"
    proof (cases "\<exists>x. lookup h la = Some (LinkedArtifactObj x)")
      case True
      then obtain x where x: "lookup h la = Some (LinkedArtifactObj x)"
        by blast
      show ?thesis
      proof (cases "truthy (Option.bind
                (Option.bind (map_of (customProperties (artifact x)) ''confidenceMetrics'')
                   getStructValue) (\<lambda>s. Some (toJavaScript s)))")
        case True
        have "frameOk n (andThen (pushRef valid la)
                           (\<lambda>_. store_getValidArtifacts_forEach las valid))"
          by (intro frameOk_andThen frameOk_pushRef assms Cons.IH)
        moreover have "store_getValidArtifacts_forEach (la # las) valid h =
            andThen (pushRef valid la) (\<lambda>_. store_getValidArtifacts_forEach las valid) h"
          using x True by (simp add: Let_def)
        ultimately show ?thesis
          by (rule frameOk_as)
      next
        case False
        with x have "store_getValidArtifacts_forEach (la # las) valid h =
            store_getValidArtifacts_forEach las valid h"
          by (simp add: Let_def)
        with Cons.IH show ?thesis
          by (rule frameOk_as)
      qed
    next
      case False
      then have "store_getValidArtifacts_forEach (la # las) valid h = (IllTyped, h)"
        by (auto split: option.splits cell.splits)
      then show ?thesis
        by (rule frameOk_illTyped)
    qed
  qed
qed

lemma frameOk_getValidArtifacts: "frameOk n (store_getValidArtifacts ea)"
proof -
  have "frameOk n
     (\<lambda>h. let (valid, h1) = alloc (RefArray []) h
           in case lookup h1 ea of
                Some (ExecutionArtifactObj exec las) \<Rightarrow>
                  (case lookup h1 las of
                     Some (RefArray linked) \<Rightarrow>
                       andThen (store_getValidArtifacts_forEach linked valid)
                         (\<lambda>_ h2. (Normal valid, h2)) h1
                   | _ \<Rightarrow> (IllTyped, h1))
              | _ \<Rightarrow> (IllTyped, h1))"
  proof (rule frameOk_alloc)
    show "cellOk n (RefArray [])"
      by (simp add: cellOk_def)
  next
    fix valid
    assume v: "n \<le> valid"
    show "frameOk n
       (\<lambda>h1. case lookup h1 ea of
                Some (ExecutionArtifactObj exec las) \<Rightarrow>
                  (case lookup h1 las of
                     Some (RefArray linked) \<Rightarrow>
                       andThen (store_getValidArtifacts_forEach linked valid)
                         (\<lambda>_ h2. (Normal valid, h2)) h1
                   | _ \<Rightarrow> (IllTyped, h1))
              | _ \<Rightarrow> (IllTyped, h1))"
    proof (rule frameOk_pointwise)
      fix h
      let ?body = "\<lambda>h1. case lookup h1 ea of
                Some (ExecutionArtifactObj exec las) \<Rightarrow>
                  (case lookup h1 las of
                     Some (RefArray linked) \<Rightarrow>
                       andThen (store_getValidArtifacts_forEach linked valid)
                         (\<lambda>_ h2. (Normal valid, h2)) h1
                   | _ \<Rightarrow> (IllTyped, h1))
              | _ \<Rightarrow> (IllTyped, h1)"
      show "\<exists>m. frameOk n m \<and> ?body h = m h"
      proof (cases "\<exists>exec las linked. lookup h ea = Some (ExecutionArtifactObj exec las) \<and>
                      lookup h las = Some (RefArray linked)")
        case True
        then obtain exec las linked where x: "lookup h ea = Some (ExecutionArtifactObj exec las)"
          "lookup h las = Some (RefArray linked)"
          by blast
        have "frameOk n (andThen (store_getValidArtifacts_forEach linked valid)
                           (\<lambda>_ h2. (Normal valid, h2)))"
          by (intro frameOk_andThen frameOk_getValidArtifacts_forEach v frameOk_return)
        moreover have "?body h = andThen (store_getValidArtifacts_forEach linked valid)
                           (\<lambda>_ h2. (Normal valid, h2)) h"
          using x by simp
        ultimately show ?thesis
          by (rule frameOk_as)
      next
        case False
        then have "?body h = (IllTyped, h)"
          by (auto split: option.splits cell.splits)
        then show ?thesis
          by (rule frameOk_illTyped)
      qed
    qed
  qed
  moreover have "store_getValidArtifacts ea =
     (\<lambda>h. let (valid, h1) = alloc (RefArray []) h
           in case lookup h1 ea of
                Some (ExecutionArtifactObj exec las) \<Rightarrow>
                  (case lookup h1 las of
                     Some (RefArray linked) \<Rightarrow>
                       andThen (store_getValidArtifacts_forEach linked valid)
                         (\<lambda>_ h2. (Normal valid, h2)) h1
                   | _ \<Rightarrow> (IllTyped, h1))
              | _ \<Rightarrow> (IllTyped, h1))"
    by (rule ext) (simp add: store_getValidArtifacts_def)
  ultimately show ?thesis
    by simp
qed

lemma frameOk_setProperty: "n \<le> obj \<Longrightarrow> frameOk n (setProperty obj k v)"
  by (rule frameOkI)
    (auto simp: setProperty_def take_assign freshRefs_assign cellOk_def
      split: option.splits cell.splits)

lemma frameOk_savePaths:
  assumes "n \<le> pathMap"
  shows "frameOk n (store_savePaths rd exec pathMap vs)"
proof (induction vs)
  case Nil
  show ?case
    by (rule frameOk_pointwise) (auto intro: frameOk_return)
next
  case (Cons v vs)
  show ?case
  proof (rule frameOk_pointwise)
    fix h
    show "\<exists>m. frameOk n m \<and> store_savePaths rd exec pathMap (v # vs) h = m h"
    proof (cases "\<exists>x p. lookup h v = Some (LinkedArtifactObj x) \<and>
                    getFullArtifactPath rd exec x = Inr p")
      case True
      then obtain x p where x: "lookup h v = Some (LinkedArtifactObj x)"
        "getFullArtifactPath rd exec x = Inr p"
        by blast
      have "frameOk n (\<lambda>h. let (a, h1) = alloc (FullArtifactPathObj p) h
                            in andThen (setProperty pathMap (getRocCurveId x) a)
                                 (\<lambda>_. store_savePaths rd exec pathMap vs) h1)"
        by (intro frameOk_alloc frameOk_andThen frameOk_setProperty assms Cons.IH)
          (simp add: cellOk_def)
      moreover have "store_savePaths rd exec pathMap (v # vs) h =
          (\<lambda>h. let (a, h1) = alloc (FullArtifactPathObj p) h
                in andThen (setProperty pathMap (getRocCurveId x) a)
                     (\<lambda>_. store_savePaths rd exec pathMap vs) h1) h"
        using x by simp
      ultimately show ?thesis
        by (rule frameOk_as)
    next
      case False
      then have "\<exists>c. store_savePaths rd exec pathMap (v # vs) h = (c, h)"
        by (auto split: option.splits cell.splits sum.splits)
      then obtain c where "store_savePaths rd exec pathMap (v # vs) h = (\<lambda>h. (c, h)) h"
        by blast
      with frameOk_return show ?thesis
        by (rule frameOk_as)
    qed
  qed
qed

lemma frameOk_executionCallback:
  assumes "n \<le> pathMap"
  shows "frameOk n (store_executionCallback rd pathMap ea)"
  unfolding store_executionCallback_def
proof (rule frameOk_andThen [OF frameOk_getValidArtifacts])
  fix valid
  let ?body = "\<lambda>h. case lookup h valid of
            Some (RefArray vs) \<Rightarrow>
              (case lookup h ea of
                 Some (ExecutionArtifactObj exec las) \<Rightarrow>
                   andThen (store_savePaths rd exec pathMap vs)
                     (\<lambda>_ h1. (Normal valid, h1)) h
               | _ \<Rightarrow> (IllTyped, h))
          | _ \<Rightarrow> (IllTyped, h)"
  show "frameOk n ?body"
  proof (rule frameOk_pointwise)
    fix h
    show "\<exists>m. frameOk n m \<and> ?body h = m h"
    proof (cases "\<exists>vs exec las. lookup h valid = Some (RefArray vs) \<and>
                    lookup h ea = Some (ExecutionArtifactObj exec las)")
      case True
      then obtain vs exec las where x: "lookup h valid = Some (RefArray vs)"
        "lookup h ea = Some (ExecutionArtifactObj exec las)"
        by blast
      have "frameOk n (andThen (store_savePaths rd exec pathMap vs)
                         (\<lambda>_ h1. (Normal valid, h1)))"
        by (intro frameOk_andThen frameOk_savePaths assms frameOk_return)
      moreover have "?body h = andThen (store_savePaths rd exec pathMap vs)
                         (\<lambda>_ h1. (Normal valid, h1)) h"
        using x by simp
      ultimately show ?thesis
        by (rule frameOk_as)
    next
      case False
      then have "?body h = (IllTyped, h)"
        by (auto split: option.splits cell.splits)
      then show ?thesis
        by (rule frameOk_illTyped)
    qed
  qed
qed

lemma frameOk_mapExecutions:
  assumes "n \<le> pathMap" and "n \<le> result"
  shows "frameOk n (store_mapExecutions rd pathMap eas result)"
proof (induction eas)
  case Nil
  show ?case
    by (rule frameOk_pointwise) (auto intro: frameOk_return)
next
  case (Cons ea eas)
  have "frameOk n (andThen (store_executionCallback rd pathMap ea)
           (\<lambda>validArtifacts. andThen (pushRef result validArtifacts)
              (\<lambda>_. store_mapExecutions rd pathMap eas result)))"
    by (intro frameOk_andThen frameOk_executionCallback frameOk_pushRef assms Cons.IH)
  moreover have "store_mapExecutions rd pathMap (ea # eas) result =
     andThen (store_executionCallback rd pathMap ea)
           (\<lambda>validArtifacts. andThen (pushRef result validArtifacts)
              (\<lambda>_. store_mapExecutions rd pathMap eas result))"
    by (rule ext) simp
  ultimately show ?case
    by simp
qed

lemma frameOk_mapRuns:
  assumes "n \<le> pathMap" and "n \<le> result"
  shows "frameOk n (store_mapRuns pathMap ras result)"
proof (induction ras)
  case Nil
  show ?case
    by (rule frameOk_pointwise) (auto intro: frameOk_return)
next
  case (Cons ra ras)
  show ?case
  proof (rule frameOk_pointwise)
    fix h
    show "\<exists>m. frameOk n m \<and> store_mapRuns pathMap (ra # ras) result h = m h"
    proof (cases "\<exists>rd eas executions. lookup h ra = Some (RunArtifactObj rd eas) \<and>
                    lookup h eas = Some (RefArray executions)")
      case True
      then obtain rd eas executions where x: "lookup h ra = Some (RunArtifactObj rd eas)"
        "lookup h eas = Some (RefArray executions)"
        by blast
      have "frameOk n (\<lambda>h. let (inner, h1) = alloc (RefArray []) h
                in andThen (store_mapExecutions rd pathMap executions inner)
                     (\<lambda>_. andThen (pushRef result inner)
                             (\<lambda>_. store_mapRuns pathMap ras result)) h1)"
        by (intro frameOk_alloc frameOk_andThen frameOk_mapExecutions frameOk_pushRef assms
            Cons.IH) (simp add: cellOk_def)
      moreover have "store_mapRuns pathMap (ra # ras) result h =
          (\<lambda>h. let (inner, h1) = alloc (RefArray []) h
                in andThen (store_mapExecutions rd pathMap executions inner)
                     (\<lambda>_. andThen (pushRef result inner)
                             (\<lambda>_. store_mapRuns pathMap ras result)) h1) h"
        using x by simp
      ultimately show ?thesis
        by (rule frameOk_as)
    next
      case False
      then have "store_mapRuns pathMap (ra # ras) result h = (IllTyped, h)"
        by (auto split: option.splits cell.splits)
      then show ?thesis
        by (rule frameOk_illTyped)
    qed
  qed
qed

lemma frameOk_flatMapDeep: "frameOk n (flatMapDeep nested)"
proof (rule frameOkI)
  fix h
  assume n: "n \<le> length h" and g: "freshRefs n h"
  have "snd (flatMapDeep nested h) = h \<or>
        (\<exists>rs. snd (flatMapDeep nested h) = h @ [RefArray rs])"
    by (auto simp: flatMapDeep_def alloc_def split: option.splits)
  then show "length h \<le> length (snd (flatMapDeep nested h)) \<and>
        take n (snd (flatMapDeep nested h)) = take n h \<and>
        freshRefs n (snd (flatMapDeep nested h))"
  proof
    assume "snd (flatMapDeep nested h) = h"
    with g show ?thesis
      by simp
  next
    assume "\<exists>rs. snd (flatMapDeep nested h) = h @ [RefArray rs]"
    then obtain rs where rs: "snd (flatMapDeep nested h) = h @ [RefArray rs]"
      by blast
    have "freshRefs n (h @ [RefArray rs])"
      by (rule freshRefs_append [OF g _ n]) (simp add: cellOk_def)
    with n show ?thesis
      unfolding rs by simp
  qed
qed

lemma freshRefs_extend:
  assumes "n \<le> length h" and "list_all (cellOk n) cs" and "freshRefs n h"
  shows "freshRefs n (h @ cs)"
  using assms by (simp add: freshRefs_def)

lemma freshRefs_initial: "freshRefs (length h) h"
  by (simp add: freshRefs_def)

lemma store_getScalarTableData_unfold:
  "store_getScalarTableData st a cnt h =
     (case lookup (h @ [StringArray [], RefArray [], DataMapObj []]) a of
        Some (RefArray runs) \<Rightarrow>
          andThen
            (store_getScalarTableData_runs st runs (length h) (Suc (length h))
               (Suc (Suc (length h))) 0 cnt)
            (\<lambda>_ h4. (Normal (length h4),
                      h4 @ [ScalarTableDataObj (length h) (Suc (length h))
                              (Suc (Suc (length h)))]))
            (h @ [StringArray [], RefArray [], DataMapObj []])
      | _ \<Rightarrow> (IllTyped, h @ [StringArray [], RefArray [], DataMapObj []]))"
  by (simp add: store_getScalarTableData_def alloc_def split: option.splits cell.splits)

lemma store_getScalarTableData_result:
  assumes "store_getScalarTableData st a cnt h = (Normal t, h')"
  shows "lookup h' t =
           Some (ScalarTableDataObj (length h) (Suc (length h)) (Suc (Suc (length h))))"
    and "length h \<le> t"
proof -
  let ?h3 = "h @ [StringArray [], RefArray [], DataMapObj []]"
  from assms obtain runs where runs: "lookup ?h3 a = Some (RefArray runs)"
    by (auto simp: store_getScalarTableData_unfold split: option.splits cell.splits)
  let ?m = "store_getScalarTableData_runs st runs (length h) (Suc (length h))
              (Suc (Suc (length h))) 0 cnt"
  from assms runs obtain u h4 where
    loop: "?m ?h3 = (Normal u, h4)" and
    res: "t = length h4"
      "h' = h4 @ [ScalarTableDataObj (length h) (Suc (length h)) (Suc (Suc (length h)))]"
    by (auto simp: store_getScalarTableData_unfold elim!: andThen_Normal)
  have fr: "frameOk (length h) ?m"
    by (rule frameOk_getScalarTableData_runs) simp_all
  have g3: "freshRefs (length h) ?h3"
    by (rule freshRefs_extend [OF _ _ freshRefs_initial]) (simp_all add: cellOk_def)
  from frameOkD(1) [OF fr _ g3] loop have "length ?h3 \<le> length h4"
    by simp
  with res show "length h \<le> t"
    by simp
  from res show "lookup h' t =
           Some (ScalarTableDataObj (length h) (Suc (length h)) (Suc (Suc (length h))))"
    by simp
qed

lemma store_getCompareTableProps_frame:
  "take (length h) (snd (store_getCompareTableProps st a cnt h)) = h"
proof -
  let ?n = "length h"
  let ?k = "\<lambda>scalarTableData h.
          case lookup h scalarTableData of
            Some (ScalarTableDataObj xl xpl dm) \<Rightarrow>
              (case lookup h dm of
                 Some (DataMapObj ps) \<Rightarrow> store_sortAndCollect xl xpl ps h
               | _ \<Rightarrow> (IllTyped, h))
          | _ \<Rightarrow> (IllTyped, h)"
  obtain c h1 where m: "store_getScalarTableData st a cnt h = (c, h1)"
    by (cases "store_getScalarTableData st a cnt h")
  from frameOkD [OF frameOk_getScalarTableData [of ?n st a cnt] _ freshRefs_initial] m
  have 1: "?n \<le> length h1" "take ?n h1 = h" "freshRefs ?n h1"
    by simp_all
  show ?thesis
  proof (cases c)
    case (Normal t)
    from store_getScalarTableData_result [OF m [unfolded Normal]]
    have t: "lookup h1 t = Some (ScalarTableDataObj ?n (Suc ?n) (Suc (Suc ?n)))"
      by simp
    have "\<exists>g. frameOk ?n g \<and> ?k t h1 = g h1"
    proof (cases "\<exists>ps. lookup h1 (Suc (Suc ?n)) = Some (DataMapObj ps)")
      case True
      then obtain ps where ps: "lookup h1 (Suc (Suc ?n)) = Some (DataMapObj ps)"
        by blast
      from freshRefs_lookup [OF 1(3) ps] have "list_all (\<lambda>p. ?n \<le> snd p) ps"
        by (simp add: cellOk_def)
      from frameOk_assemble [OF this, of ?n "Suc ?n"] t ps show ?thesis
        by (intro frameOk_as) simp_all
    next
      case False
      with t have "?k t h1 = (IllTyped, h1)"
        by (auto split: option.splits cell.splits)
      then show ?thesis
        by (rule frameOk_illTyped)
    qed
    then obtain g where g: "frameOk ?n g" "?k t h1 = g h1"
      by blast
    from frameOkD(2) [OF g(1) 1(1) 1(3)] g(2) 1(2) m Normal show ?thesis
      by (simp add: store_getCompareTableProps_def andThen_def)
  next
    case (Throw e)
    with m 1 show ?thesis
      by (simp add: store_getCompareTableProps_def andThen_def)
  next
    case IllTyped
    with m 1 show ?thesis
      by (simp add: store_getCompareTableProps_def andThen_def)
  qed
qed

lemma lookup_assign_other: "a \<noteq> b \<Longrightarrow> lookup (assign h a c) b = lookup h b"
  by (simp add: lookup_def assign_def)

lemma lookup_assign_same: "a < length h \<Longrightarrow> lookup (assign h a c) a = Some c"
  by (simp add: lookup_def assign_def)

lemma lookup_append_old: "a < length h \<Longrightarrow> lookup (h @ cs) a = lookup h a"
  by (simp add: lookup_def nth_append)

lemma allocEntries_store:
  "snd (allocEntries ps h) = h @ map (\<lambda>p. EntryArray (fst p) (snd p)) ps"
  by (induction ps arbitrary: h) (simp_all add: alloc_def case_prod_beta)

lemma allocEntries_addrs:
  "list_all (\<lambda>e. length h \<le> e) (fst (allocEntries ps h))"
proof (induction ps arbitrary: h)
  case Nil
  show ?case by simp
next
  case (Cons p ps)
  have "list_all (\<lambda>e. length (h @ [EntryArray (fst p) (snd p)]) \<le> e)
          (fst (allocEntries ps (h @ [EntryArray (fst p) (snd p)])))"
    by (rule Cons.IH)
  then have "list_all (\<lambda>e. length h \<le> e)
          (fst (allocEntries ps (h @ [EntryArray (fst p) (snd p)])))"
    by (auto simp: list_all_iff)
  then show ?case
    by (simp add: alloc_def case_prod_beta)
qed

lemma set_insertWith: "set (insertWith f x ys) = insert x (set ys)"
  by (induction ys) auto

lemma set_sortWith: "set (sortWith f xs) = set xs"
  by (induction xs) (simp_all add: sortWith_def set_insertWith)

lemma store_pushSorted_rows:
  assumes "n \<le> yl" and "n \<le> rs" and "yl \<noteq> rs"
    and "n \<le> length h" and "freshRefs n h" and "list_all (\<lambda>e. n \<le> e) es"
    and "lookup h rs = Some (RefArray xs)" and "list_all (\<lambda>r. n \<le> r) xs"
  shows "\<exists>xs'. lookup (snd (store_pushSorted es yl rs h)) rs = Some (RefArray xs') \<and>
               list_all (\<lambda>r. n \<le> r) xs'"
  using assms(4-)
proof (induction es arbitrary: h xs)
  case Nil
  then show ?case by simp
next
  case (Cons e es)
  show ?case
  proof (cases "\<exists>k rd ys. lookup h e = Some (EntryArray k rd) \<and>
                  lookup h yl = Some (StringArray ys)")
    case True
    then obtain k rd ys where e: "lookup h e = Some (EntryArray k rd)"
      and yl: "lookup h yl = Some (StringArray ys)"
      by blast
    from Cons.prems(3) have ne: "n \<le> e"
      by simp
    from freshRefs_lookup [OF Cons.prems(2) e ne] have nrd: "n \<le> rd"
      by (simp add: cellOk_def)
    let ?h1 = "assign h yl (StringArray (ys @ [Some k]))"
    have g1: "freshRefs n ?h1"
      by (rule freshRefs_assign [OF Cons.prems(2)]) (simp add: cellOk_def)
    have rs1: "lookup ?h1 rs = Some (RefArray xs)"
      using Cons.prems(4) assms(3) by (simp add: lookup_assign_other)
    show ?thesis
    proof (cases "\<exists>rowAddr c. lookup ?h1 rd = Some (ScalarRowDataObj rowAddr c)")
      case True
      then obtain rowAddr c where rd: "lookup ?h1 rd = Some (ScalarRowDataObj rowAddr c)"
        by blast
      from freshRefs_lookup [OF g1 rd nrd] have nrow: "n \<le> rowAddr"
        by (simp add: cellOk_def)
      let ?h2 = "assign ?h1 rs (RefArray (xs @ [rowAddr]))"
      have g2: "freshRefs n ?h2"
        by (rule freshRefs_assign [OF g1]) (simp add: cellOk_def)
      from lookupD [OF rs1] have "lookup ?h2 rs = Some (RefArray (xs @ [rowAddr]))"
        by (simp add: lookup_assign_same)
      moreover from Cons.prems(5) nrow have "list_all (\<lambda>r. n \<le> r) (xs @ [rowAddr])"
        by simp
      moreover from Cons.prems(1) have "n \<le> length ?h2"
        by simp
      moreover from Cons.prems(3) have "list_all (\<lambda>e. n \<le> e) es"
        by simp
      ultimately have "\<exists>xs'. lookup (snd (store_pushSorted es yl rs ?h2)) rs = Some (RefArray xs') \<and>
               list_all (\<lambda>r. n \<le> r) xs'"
        using Cons.IH [of ?h2 "xs @ [rowAddr]"] g2 by blast
      moreover have "store_pushSorted (e # es) yl rs h = store_pushSorted es yl rs ?h2"
        using e yl rd rs1 by (simp add: andThen_def pushString_def pushRef_def)
      ultimately show ?thesis
        by simp
    next
      case False
      then have "snd (store_pushSorted (e # es) yl rs h) = ?h1"
        using e yl by (auto simp: andThen_def pushString_def split: option.splits cell.splits)
      with rs1 Cons.prems(5) show ?thesis
        by auto
    qed
  next
    case False
    then have "snd (store_pushSorted (e # es) yl rs h) = h"
      by (auto simp: andThen_def pushString_def split: option.splits cell.splits)
    with Cons.prems(4,5) show ?thesis
      by auto
  qed
qed

lemma store_sortAndCollect_result:
  assumes "store_sortAndCollect xl xpl ps h = (Normal out, h')"
    and "n \<le> length h" and "freshRefs n h" and "list_all (\<lambda>p. n \<le> snd p) ps"
  shows "\<exists>yl rs rows. lookup h' out = Some (CompareTablePropsObj xl yl xpl rs) \<and>
           n \<le> out \<and> n \<le> yl \<and> n \<le> rs \<and>
           lookup h' rs = Some (RefArray rows) \<and> list_all (\<lambda>r. n \<le> r) rows"
proof -
  let ?ps = "Object_entries ps"
  let ?h1 = "h @ map (\<lambda>p. EntryArray (fst p) (snd p)) ?ps"
  obtain es where es: "allocEntries ?ps h = (es, ?h1)"
    using allocEntries_store [of ?ps h] by (cases "allocEntries ?ps h") simp
  from allocEntries_addrs [of h ?ps] es assms(2) have nes: "list_all (\<lambda>e. n \<le> e) es"
    by (auto simp: list_all_iff)
  let ?h2 = "?h1 @ [RefArray es]"
  let ?srt = "sortWith (\<lambda>a b. int (dataCountOr0 ?h2 b) - int (dataCountOr0 ?h2 a)) es"
  let ?h3 = "assign ?h2 (length ?h1) (RefArray ?srt)"
  let ?yl = "length ?h2"
  let ?rs = "Suc (length ?h2)"
  let ?h5 = "?h3 @ [StringArray [], RefArray []]"
  from assms(1) obtain u h6 where
    push: "store_pushSorted ?srt ?yl ?rs ?h5 = (Normal u, h6)" and
    res: "out = length h6" "h' = h6 @ [CompareTablePropsObj xl ?yl xpl ?rs]"
    by (auto simp: store_sortAndCollect_def es alloc_def Let_def
        split: if_splits elim!: andThen_Normal)
  from assms(4) have entries: "list_all (cellOk n) (map (\<lambda>p. EntryArray (fst p) (snd p)) ?ps)"
    by (simp add: list_all_iff set_Object_entries cellOk_def)
  have g1: "freshRefs n ?h1"
    by (rule freshRefs_extend [OF assms(2) entries assms(3)])
  have g2: "freshRefs n ?h2"
    by (rule freshRefs_append [OF g1]) (use assms(2) in \<open>simp_all add: cellOk_def\<close>)
  have g3: "freshRefs n ?h3"
    by (rule freshRefs_assign [OF g2]) (simp add: cellOk_def)
  have g5: "freshRefs n ?h5"
    by (rule freshRefs_extend [OF _ _ g3]) (use assms(2) in \<open>simp_all add: cellOk_def\<close>)
  have n5: "n \<le> length ?h5"
    using assms(2) by simp
  have srt: "list_all (\<lambda>e. n \<le> e) ?srt"
    using nes by (simp add: list_all_iff set_sortWith)
  have rs5: "lookup ?h5 ?rs = Some (RefArray [])"
    by (simp add: lookup_def nth_append)
  have nyl: "n \<le> ?yl" and nrs: "n \<le> ?rs"
    using assms(2) by simp_all
  have "\<exists>xs'. lookup (snd (store_pushSorted ?srt ?yl ?rs ?h5)) ?rs = Some (RefArray xs') \<and>
               list_all (\<lambda>r. n \<le> r) xs'"
    by (rule store_pushSorted_rows [OF nyl nrs _ n5 g5 srt rs5]) simp_all
  with push obtain rows where
    rows: "lookup h6 ?rs = Some (RefArray rows)" "list_all (\<lambda>r. n \<le> r) rows"
    by auto
  from frameOkD(1) [OF frameOk_pushSorted [OF nyl nrs, of ?srt] n5 g5] push
  have len: "length ?h5 \<le> length h6"
    by simp
  from lookupD [OF rows(1)] have "?rs < length h6"
    by simp
  with rows(1) have "lookup h' ?rs = Some (RefArray rows)"
    unfolding res by (simp add: lookup_append_old)
  moreover have "lookup h' out = Some (CompareTablePropsObj xl ?yl xpl ?rs)"
    unfolding res by simp
  moreover from len n5 res have "n \<le> out"
    by simp
  ultimately show ?thesis
    using nyl nrs rows(2) by blast
qed

lemma store_getCompareTableProps_result:
  assumes "store_getCompareTableProps st a cnt h = (Normal out, h')"
  shows "\<exists>xl yl xpl rs rows. lookup h' out = Some (CompareTablePropsObj xl yl xpl rs) \<and>
           length h \<le> out \<and> length h \<le> xl \<and> length h \<le> yl \<and> length h \<le> xpl \<and>
           length h \<le> rs \<and>
           lookup h' rs = Some (RefArray rows) \<and> list_all (\<lambda>r. length h \<le> r) rows"
proof -
  let ?n = "length h"
  from assms obtain t h1 where
    m: "store_getScalarTableData st a cnt h = (Normal t, h1)" and
    k: "(case lookup h1 t of
            Some (ScalarTableDataObj xl xpl dm) \<Rightarrow>
              (case lookup h1 dm of
                 Some (DataMapObj ps) \<Rightarrow> store_sortAndCollect xl xpl ps h1
               | _ \<Rightarrow> (IllTyped, h1))
          | _ \<Rightarrow> (IllTyped, h1)) = (Normal out, h')"
    by (auto simp: store_getCompareTableProps_def elim!: andThen_Normal)
  from frameOkD [OF frameOk_getScalarTableData [of ?n st a cnt] _ freshRefs_initial] m
  have 1: "?n \<le> length h1" "freshRefs ?n h1"
    by simp_all
  from store_getScalarTableData_result(1) [OF m]
  have t: "lookup h1 t = Some (ScalarTableDataObj ?n (Suc ?n) (Suc (Suc ?n)))" .
  with k obtain ps where ps: "lookup h1 (Suc (Suc ?n)) = Some (DataMapObj ps)"
    and c: "store_sortAndCollect ?n (Suc ?n) ps h1 = (Normal out, h')"
    by (auto split: option.splits cell.splits)
  from freshRefs_lookup [OF 1(2) ps] have "list_all (\<lambda>p. ?n \<le> snd p) ps"
    by (simp add: cellOk_def)
  from store_sortAndCollect_result [OF c 1 this] show ?thesis
    by fastforce
qed

lemma frameOk_append_result:
  assumes "cellOk n c"
  shows "frameOk n (\<lambda>h. (r h, h @ [c]))"
  using assms by (simp add: frameOk_def freshRefs_append)

lemma store_getValidRocCurveArtifactData_unfold:
  "store_getValidRocCurveArtifactData a h =
     (case lookup (h @ [PathMapObj []]) a of
        Some (RefArray runs) \<Rightarrow>
          andThen (store_mapRuns (length h) runs (Suc (length h)))
            (\<lambda>_. andThen (flatMapDeep (Suc (length h)))
                    (\<lambda>valid h3. (Normal (length h3),
                                  h3 @ [RocCurveArtifactDataObj valid (length h)])))
            (h @ [PathMapObj [], RefArray []])
      | _ \<Rightarrow> (IllTyped, h @ [PathMapObj []]))"
  by (simp add: store_getValidRocCurveArtifactData_def alloc_def
      split: option.splits cell.splits)

lemma frameOk_rocCurveBody:
  "frameOk (length h)
     (andThen (store_mapRuns (length h) runs (Suc (length h)))
        (\<lambda>_. andThen (flatMapDeep (Suc (length h)))
                (\<lambda>valid h3. (Normal (length h3),
                              h3 @ [RocCurveArtifactDataObj valid (length h)]))))"
  by (intro frameOk_andThen frameOk_mapRuns frameOk_flatMapDeep frameOk_append_result)
    (simp_all add: cellOk_def)

lemma store_getValidRocCurveArtifactData_frame:
  "take (length h) (snd (store_getValidRocCurveArtifactData a h)) = h"
proof (cases "\<exists>runs. lookup (h @ [PathMapObj []]) a = Some (RefArray runs)")
  case True
  then obtain runs where runs: "lookup (h @ [PathMapObj []]) a = Some (RefArray runs)"
    by blast
  let ?h2 = "h @ [PathMapObj [], RefArray []]"
  have g2: "freshRefs (length h) ?h2"
    by (rule freshRefs_extend [OF _ _ freshRefs_initial]) (simp_all add: cellOk_def)
  from frameOkD(2) [OF frameOk_rocCurveBody [of h runs] _ g2] runs show ?thesis
    by (simp add: store_getValidRocCurveArtifactData_unfold)
next
  case False
  then have "snd (store_getValidRocCurveArtifactData a h) = h @ [PathMapObj []]"
    by (auto simp: store_getValidRocCurveArtifactData_unfold split: option.splits cell.splits)
  then show ?thesis
    by simp
qed

lemma flatMapDeep_result:
  assumes "flatMapDeep nested h = (Normal v, h')"
  shows "\<exists>refs. v = length h \<and> h' = h @ [RefArray refs]"
  using assms by (auto simp: flatMapDeep_def alloc_def split: option.splits)

lemma store_getValidRocCurveArtifactData_result:
  assumes "store_getValidRocCurveArtifactData a h = (Normal out, h')"
  shows "\<exists>valid refs. lookup h' out = Some (RocCurveArtifactDataObj valid (length h)) \<and>
           length h \<le> out \<and> length h \<le> valid \<and> lookup h' valid = Some (RefArray refs)"
proof -
  let ?h2 = "h @ [PathMapObj [], RefArray []]"
  from assms obtain runs where runs: "lookup (h @ [PathMapObj []]) a = Some (RefArray runs)"
    by (auto simp: store_getValidRocCurveArtifactData_unfold split: option.splits cell.splits)
  with assms obtain u h3 valid h4 where
    loop: "store_mapRuns (length h) runs (Suc (length h)) ?h2 = (Normal u, h3)" and
    flat: "flatMapDeep (Suc (length h)) h3 = (Normal valid, h4)" and
    res: "out = length h4" "h' = h4 @ [RocCurveArtifactDataObj valid (length h)]"
    by (auto simp: store_getValidRocCurveArtifactData_unfold elim!: andThen_Normal)
  have g2: "freshRefs (length h) ?h2"
    by (rule freshRefs_extend [OF _ _ freshRefs_initial]) (simp_all add: cellOk_def)
  have "frameOk (length h) (store_mapRuns (length h) runs (Suc (length h)))"
    by (rule frameOk_mapRuns) simp_all
  from frameOkD(1) [OF this _ g2] loop have len: "length ?h2 \<le> length h3"
    by simp
  from flatMapDeep_result [OF flat] obtain refs where
    v: "valid = length h3" "h4 = h3 @ [RefArray refs]"
    by blast
  have "lookup h' valid = Some (RefArray refs)"
    unfolding res v by (simp add: lookup_def nth_append)
  moreover have "lookup h' out = Some (RocCurveArtifactDataObj valid (length h))"
    unfolding res by simp
  moreover from len v res have "length h \<le> out" "length h \<le> valid"
    by simp_all
  ultimately show ?thesis
    by blast
qed

lemma store_getScalarTableData_frame:
  "take (length h) (snd (store_getScalarTableData st a cnt h)) = h"
  using frameOkD(2) [OF frameOk_getScalarTableData [of "length h" st a cnt] _ freshRefs_initial]
  by simp

text \<open>
  C10. \<^verbatim>\<open>getCompareTableProps\<close> and \<^verbatim>\<open>getValidRocCurveArtifactData\<close>, and
  \<^verbatim>\<open>getScalarTableData\<close> inside the first, leave every cell of the store in which they
  are called as it was, whatever the outcome: the runs, executions, linked artifacts and
  custom-property maps of the input are after the call what they were before it. When they
  return, the structures they return (\<^verbatim>\<open>xLabels\<close>, \<^verbatim>\<open>xParentLabels\<close>, \<^verbatim>\<open>dataMap\<close>,
  \<^verbatim>\<open>yLabels\<close>, \<^verbatim>\<open>rows\<close> and its row arrays, \<^verbatim>\<open>validLinkedArtifacts\<close>,
  \<^verbatim>\<open>fullArtifactPathMap\<close>) are at addresses allocated during the call.
\<close>

theorem store_inputs_unchanged_outputs_fresh:
  "take (length h) (snd (store_getScalarTableData st a cnt h)) = h \<and>
   take (length h) (snd (store_getCompareTableProps st a cnt h)) = h \<and>
   take (length h) (snd (store_getValidRocCurveArtifactData b h)) = h \<and>
   (\<forall>t h'. store_getScalarTableData st a cnt h = (Normal t, h') \<longrightarrow>
      (\<exists>xl xpl dm. lookup h' t = Some (ScalarTableDataObj xl xpl dm) \<and>
         length h \<le> t \<and> length h \<le> xl \<and> length h \<le> xpl \<and> length h \<le> dm)) \<and>
   (\<forall>out h'. store_getCompareTableProps st a cnt h = (Normal out, h') \<longrightarrow>
      (\<exists>xl yl xpl rs rows. lookup h' out = Some (CompareTablePropsObj xl yl xpl rs) \<and>
         length h \<le> out \<and> length h \<le> xl \<and> length h \<le> yl \<and> length h \<le> xpl \<and>
         length h \<le> rs \<and> lookup h' rs = Some (RefArray rows) \<and>
         list_all (\<lambda>r. length h \<le> r) rows)) \<and>
   (\<forall>out h'. store_getValidRocCurveArtifactData b h = (Normal out, h') \<longrightarrow>
      (\<exists>valid pathMap refs. lookup h' out = Some (RocCurveArtifactDataObj valid pathMap) \<and>
         length h \<le> out \<and> length h \<le> valid \<and> length h \<le> pathMap \<and>
         lookup h' valid = Some (RefArray refs)))"
proof (intro conjI allI impI)
  show "take (length h) (snd (store_getScalarTableData st a cnt h)) = h"
    by (rule store_getScalarTableData_frame)
  show "take (length h) (snd (store_getCompareTableProps st a cnt h)) = h"
    by (rule store_getCompareTableProps_frame)
  show "take (length h) (snd (store_getValidRocCurveArtifactData b h)) = h"
    by (rule store_getValidRocCurveArtifactData_frame)
next
  fix t h'
  assume "store_getScalarTableData st a cnt h = (Normal t, h')"
  from store_getScalarTableData_result [OF this]
  show "\<exists>xl xpl dm. lookup h' t = Some (ScalarTableDataObj xl xpl dm) \<and>
         length h \<le> t \<and> length h \<le> xl \<and> length h \<le> xpl \<and> length h \<le> dm"
    by simp
next
  fix out h'
  assume "store_getCompareTableProps st a cnt h = (Normal out, h')"
  then show "\<exists>xl yl xpl rs rows. lookup h' out = Some (CompareTablePropsObj xl yl xpl rs) \<and>
         length h \<le> out \<and> length h \<le> xl \<and> length h \<le> yl \<and> length h \<le> xpl \<and>
         length h \<le> rs \<and> lookup h' rs = Some (RefArray rows) \<and>
         list_all (\<lambda>r. length h \<le> r) rows"
    by (rule store_getCompareTableProps_result)
next
  fix out h'
  assume "store_getValidRocCurveArtifactData b h = (Normal out, h')"
  from store_getValidRocCurveArtifactData_result [OF this]
  show "\<exists>valid pathMap refs. lookup h' out = Some (RocCurveArtifactDataObj valid pathMap) \<and>
         length h \<le> out \<and> length h \<le> valid \<and> length h \<le> pathMap \<and>
         lookup h' valid = Some (RefArray refs)"
    by blast
qed

lemmas store_defs =
  store_getCompareTableProps_def store_getScalarTableData_def store_sortAndCollect_def
  store_addScalarDataItems_def store_addScalarDataItem_def
  store_getValidRocCurveArtifactData_def store_getValidArtifacts_def
  store_executionCallback_def flatMapDeep_def derefArray_def setProperty_def
  andThen_def alloc_def lookup_def assign_def pushRef_def pushString_def
  dataCountAt_def dataCountOr0_def sortWith_def Object_entries_def indexKey_def
  newRow_def setCell_def objectPrototypeKeys_def orElse_def templateText_def
  getExecutionDisplayName_def getArtifactName_def getStructValue_def toJavaScript_def
  getFullArtifactPath_def getRocCurveId_def numberToString_def natToString.simps
  digitChar_def decimalDigits_def
  exampleStore_def exampleArtifact_def exampleStringify_def Let_def eval_nat_numeral

lemma example_store_table:
  "store_getCompareTableProps exampleStringify 6 2 exampleStore =
     (Normal 28,
      exampleStore @
      [StringArray [Some ''- > -'', Some ''- > -''], RefArray [21],
       DataMapObj [(''acc'', 18), (''f1'', 20)],
       StringArray [Some ''0.9'', Some ''0.8''], ScalarRowDataObj 17 2,
       StringArray [Some [], Some ''0.5''], ScalarRowDataObj 19 1,
       ParentLabelObj \<lparr>label = ''-'', colSpan = 2\<rparr>, ScalarTableDataObj 14 15 16,
       EntryArray ''acc'' 18, EntryArray ''f1'' 20, RefArray [23, 24],
       StringArray [Some ''acc'', Some ''f1''], RefArray [17, 19],
       CompareTablePropsObj 14 26 15 27])"
  by (simp add: store_defs arrayIndex_examples)

lemma example_store_roc:
  "store_getValidRocCurveArtifactData 13 exampleStore =
     (Normal 20,
      exampleStore @
      [PathMapObj [(''1-1'', 18)], RefArray [16], RefArray [17], RefArray [7],
       FullArtifactPathObj
         \<lparr>path_run = \<lparr>name = ''Run ID #42'', nid = Some ''42''\<rparr>,
          path_execution = \<lparr>name = ''Execution ID #1'', nid = Some ''1''\<rparr>,
          path_artifact = \<lparr>name = ''Artifact ID #1'', nid = Some ''1''\<rparr>\<rparr>,
       RefArray [7], RocCurveArtifactDataObj 19 14])"
  by (simp add: store_defs)

theorem store_inputs_unchanged_outputs_fresh_witness:
  "store_getCompareTableProps exampleStringify 6 2 exampleStore =
     (Normal 28,
      exampleStore @
      [StringArray [Some ''- > -'', Some ''- > -''], RefArray [21],
       DataMapObj [(''acc'', 18), (''f1'', 20)],
       StringArray [Some ''0.9'', Some ''0.8''], ScalarRowDataObj 17 2,
       StringArray [Some [], Some ''0.5''], ScalarRowDataObj 19 1,
       ParentLabelObj \<lparr>label = ''-'', colSpan = 2\<rparr>, ScalarTableDataObj 14 15 16,
       EntryArray ''acc'' 18, EntryArray ''f1'' 20, RefArray [23, 24],
       StringArray [Some ''acc'', Some ''f1''], RefArray [17, 19],
       CompareTablePropsObj 14 26 15 27]) \<and>
   store_getValidRocCurveArtifactData 13 exampleStore =
     (Normal 20,
      exampleStore @
      [PathMapObj [(''1-1'', 18)], RefArray [16], RefArray [17], RefArray [7],
       FullArtifactPathObj
         \<lparr>path_run = \<lparr>name = ''Run ID #42'', nid = Some ''42''\<rparr>,
          path_execution = \<lparr>name = ''Execution ID #1'', nid = Some ''1''\<rparr>,
          path_artifact = \<lparr>name = ''Artifact ID #1'', nid = Some ''1''\<rparr>\<rparr>,
       RefArray [7], RocCurveArtifactDataObj 19 14]) \<and>
   length exampleStore = 14 \<and>
   take (length exampleStore)
     (snd (store_getScalarTableData exampleStringify 6 2 exampleStore)) = exampleStore \<and>
   take (length exampleStore)
     (snd (store_getCompareTableProps exampleStringify 6 2 exampleStore)) = exampleStore \<and>
   take (length exampleStore)
     (snd (store_getValidRocCurveArtifactData 13 exampleStore)) = exampleStore \<and>
   (\<exists>xl yl xpl rs rows.
      lookup (snd (store_getCompareTableProps exampleStringify 6 2 exampleStore)) 28
        = Some (CompareTablePropsObj xl yl xpl rs) \<and>
      length exampleStore \<le> 28 \<and> length exampleStore \<le> xl \<and> length exampleStore \<le> yl \<and>
      length exampleStore \<le> xpl \<and> length exampleStore \<le> rs \<and>
      lookup (snd (store_getCompareTableProps exampleStringify 6 2 exampleStore)) rs
        = Some (RefArray rows) \<and>
      list_all (\<lambda>r. length exampleStore \<le> r) rows) \<and>
   (\<exists>valid pathMap refs.
      lookup (snd (store_getValidRocCurveArtifactData 13 exampleStore)) 20
        = Some (RocCurveArtifactDataObj valid pathMap) \<and>
      length exampleStore \<le> 20 \<and> length exampleStore \<le> valid \<and>
      length exampleStore \<le> pathMap \<and>
      lookup (snd (store_getValidRocCurveArtifactData 13 exampleStore)) valid
        = Some (RefArray refs))"
proof -
  note main = store_inputs_unchanged_outputs_fresh [of exampleStore exampleStringify 6 2 13]
  have table: "store_getCompareTableProps exampleStringify 6 2 exampleStore =
     (Normal 28, snd (store_getCompareTableProps exampleStringify 6 2 exampleStore))"
    by (simp add: example_store_table)
  have roc: "store_getValidRocCurveArtifactData 13 exampleStore =
     (Normal 20, snd (store_getValidRocCurveArtifactData 13 exampleStore))"
    by (simp add: example_store_roc)
  have len: "length exampleStore = 14"
    by (simp add: exampleStore_def)
  note f1 = main [THEN conjunct1]
  note f2 = main [THEN conjunct2, THEN conjunct1]
  note f3 = main [THEN conjunct2, THEN conjunct2, THEN conjunct1]
  note o2 = main [THEN conjunct2, THEN conjunct2, THEN conjunct2, THEN conjunct2,
    THEN conjunct1, rule_format, OF table]
  note o3 = main [THEN conjunct2, THEN conjunct2, THEN conjunct2, THEN conjunct2,
    THEN conjunct2, rule_format, OF roc]
  show ?thesis
    by (intro conjI example_store_table example_store_roc len f1 f2 f3 o2 o3)
qed

end
